(* ===== verification/Prelude.thy ===== *)
theory Prelude
  imports Main "HOL-Library.Word" "HOL-Library.Sublist" "HOL-Library.AList"
begin

unbundle bit_operations_syntax

text \<open>
  Shared vocabulary of the development: Go values that every component uses (errors, gRPC
  statuses, maps in iteration order), the collections of rewrite rules the component proofs
  select, and generic lemmas on lists and sums.
\<close>

named_theorems prog_simps \<open>equations of the programs' bind and of their traces\<close>
named_theorems handler_defs \<open>the phases a handler is composed of\<close>

section \<open>Go values\<close>

text \<open>
  A Go \<^verbatim>\<open>error\<close> as the driver inspects it: its text (\<^verbatim>\<open>err.Error()\<close>) and the class that
  \<^verbatim>\<open>os.IsNotExist\<close> and \<^verbatim>\<open>os.IsPermission\<close> recognise.  A nil error is \<^term>\<open>None\<close>.
\<close>

datatype err_class = NotExistErr | PermissionErr | OtherErr

datatype go_error = GoError (err_class: err_class) (err_text: string)

definition IsNotExist :: "go_error \<Rightarrow> bool" where
  "IsNotExist e = (err_class e = NotExistErr)"

definition IsPermission :: "go_error \<Rightarrow> bool" where
  "IsPermission e = (err_class e = PermissionErr)"

abbreviation errorf :: "string \<Rightarrow> go_error" where
  "errorf t \<equiv> GoError OtherErr t"

text \<open>
  A gRPC status: the code and the message.  A message built by \<^verbatim>\<open>fmt\<close> from arguments is kept as
  its template and its arguments (the text \<^verbatim>\<open>fmt\<close> makes of them is not interpreted anywhere);
  \<open>Refmt\<close> is such a text used as a template once more, without arguments.
\<close>

datatype grpc_code =
    Canceled | InvalidArgument | NotFound | PermissionDenied | Unimplemented | Internal | Unavailable

datatype message = Text string | Fmt string "string list" | Refmt string "string list"

datatype status = Status (status_code: grpc_code) (status_message: message)

text \<open>
  A Go map as the list of its entries in the order in which \<^verbatim>\<open>range\<close> visits them (Go fixes no
  order, so a property must hold for every permutation); reading \<^verbatim>\<open>m[k]\<close> of a missing key gives
  the zero value.  Where the code distinguishes a nil map, it is \<^term>\<open>None\<close>.
\<close>

type_synonym gomap = "(string \<times> string) list"

definition map_index :: "gomap \<Rightarrow> string \<Rightarrow> string" where
  "map_index m k = (case map_of m k of None \<Rightarrow> [] | Some v \<Rightarrow> v)"

definition wf_gomap :: "gomap \<Rightarrow> bool" where
  "wf_gomap m = distinct (map fst m)"

lemma map_index_Some [simp]: "map_of m k = Some v \<Longrightarrow> map_index m k = v"
  by (simp add: map_index_def)

lemma map_index_missing: "k \<notin> fst ` set m \<Longrightarrow> map_index m k = []"
  by (simp add: map_index_def map_of_eq_None_iff [THEN iffD2])

lemma map_index_update: "map_index (AList.update k v m) k' = (if k' = k then v else map_index m k')"
  by (simp add: map_index_def update_conv')

section \<open>Generic lemmas\<close>

lemma sum_eq_iff_Inr: "(case r of Inl e \<Rightarrow> Inl e | Inr a \<Rightarrow> f a) = Inr b \<longleftrightarrow> (\<exists>a. r = Inr a \<and> f a = Inr b)"
  by (cases r) auto

lemma set_append_ConsD: "x \<in> set (xs @ y # ys) \<Longrightarrow> x = y \<or> x \<in> set xs \<or> x \<in> set ys"
  by auto

end
