(* ===== verification/Volume_Locks.thy ===== *)
theory Volume_Locks
  imports Prelude
begin

text \<open>
  \<^verbatim>\<open>VolumeLocks\<close> of \<^verbatim>\<open>pkg/nfsexport/utils.go\<close>: a set of volume IDs behind a mutex.  Every method
  holds the mutex from its first to its last statement, so a call is one step.  The contract of
  a try-lock is the locale \<^verbatim>\<open>try_lock\<close>; the step relation runs any number of goroutines over one
  set.
\<close>

section \<open>The code\<close>

record volume_locks =
  locks :: "string set"

definition NewVolumeLocks :: volume_locks where
  "NewVolumeLocks = \<lparr>locks = {}\<rparr>"

definition TryAcquire :: "volume_locks \<Rightarrow> string \<Rightarrow> bool \<times> volume_locks" where
  "TryAcquire vl volumeID =
     (if volumeID \<in> locks vl then (False, vl)
      else (True, vl\<lparr>locks := insert volumeID (locks vl)\<rparr>))"

definition Release :: "volume_locks \<Rightarrow> string \<Rightarrow> volume_locks" where
  "Release vl volumeID = vl\<lparr>locks := locks vl - {volumeID}\<rparr>"

section \<open>The contract of a try-lock\<close>

text \<open>
  Owners are numbered goroutines.  \<^verbatim>\<open>agrees s own\<close>: a name is held exactly when one goroutine owns
  it, and no name has two owners.
\<close>

locale try_lock =
  fixes try_acquire :: "'s \<Rightarrow> 'v \<Rightarrow> bool \<times> 's"
    and release :: "'s \<Rightarrow> 'v \<Rightarrow> 's"
    and held :: "'s \<Rightarrow> 'v \<Rightarrow> bool"
  assumes acquire_ok: "fst (try_acquire s v) = (\<not> held s v)"
    and held_acquire: "held (snd (try_acquire s v)) w = (held s w \<or> w = v)"
    and held_release: "held (release s v) w = (held s w \<and> w \<noteq> v)"
begin

definition agrees :: "'s \<Rightarrow> (nat \<Rightarrow> 'v option) \<Rightarrow> bool" where
  "agrees s own \<longleftrightarrow>
     (\<forall>v. held s v \<longleftrightarrow> (\<exists>i. own i = Some v)) \<and>
     (\<forall>i j v. own i = Some v \<longrightarrow> own j = Some v \<longrightarrow> i = j)"

lemma agrees_held: "agrees s own \<Longrightarrow> held s v \<longleftrightarrow> (\<exists>i. own i = Some v)"
  by (simp add: agrees_def)

lemma agrees_acquire:
  assumes "agrees s own" and "own i = None" and "fst (try_acquire s v)"
  shows "agrees (snd (try_acquire s v)) (own(i := Some v))"
proof -
  from assms(1,3) have free: "own j \<noteq> Some v" for j
    by (auto simp: acquire_ok agrees_held)
  have upd: "(own(i := Some v)) j = Some w \<longleftrightarrow> own j = Some w \<or> (j = i \<and> w = v)" for j w
    using assms(2) by auto
  from assms(1) free show ?thesis
    unfolding agrees_def upd held_acquire by blast
qed

lemma agrees_busy:
  assumes "agrees s own" and "\<not> fst (try_acquire s v)"
  shows "agrees (snd (try_acquire s v)) own"
proof -
  from assms(2) have "held s v" by (simp add: acquire_ok)
  then have "held (snd (try_acquire s v)) w = held s w" for w by (auto simp: held_acquire)
  with assms(1) show ?thesis by (simp add: agrees_def)
qed

lemma agrees_release:
  assumes "agrees s own" and "own i = Some v"
  shows "agrees (release s v) (own(i := None))"
proof -
  from assms have only: "own j = Some v \<Longrightarrow> j = i" for j by (auto simp: agrees_def)
  have upd: "(own(i := None)) j = Some w \<longleftrightarrow> own j = Some w \<and> w \<noteq> v" for j w
    using assms(2) only [of j] by (cases "j = i") auto
  from assms(1) show ?thesis
    unfolding agrees_def upd held_release by blast
qed

lemma agrees_exclusive: "agrees s own \<Longrightarrow> own i = Some v \<Longrightarrow> own j = Some v \<Longrightarrow> i = j"
  unfolding agrees_def by blast

lemma agrees_acquire_iff: "agrees s own \<Longrightarrow> fst (try_acquire s v) \<longleftrightarrow> (\<forall>i. own i \<noteq> Some v)"
  unfolding agrees_def by (simp add: acquire_ok)

end

interpretation vlock: try_lock TryAcquire Release "\<lambda>vl v. v \<in> locks vl"
  by unfold_locales (auto simp: TryAcquire_def Release_def)

section \<open>Goroutines over one set of locks\<close>

record lock_system =
  sys_locks :: volume_locks
  sys_owner :: "nat \<Rightarrow> string option"

definition lock_init :: lock_system where
  "lock_init = \<lparr>sys_locks = NewVolumeLocks, sys_owner = (\<lambda>_. None)\<rparr>"

text \<open>A goroutine without a lock tries to take one; it remembers it when the call says so, and
  releases only what it took.\<close>

inductive lock_step :: "lock_system \<Rightarrow> lock_system \<Rightarrow> bool" where
  lock_taken: "sys_owner s i = None \<Longrightarrow> TryAcquire (sys_locks s) v = (True, vl) \<Longrightarrow>
     lock_step s (s\<lparr>sys_locks := vl, sys_owner := (sys_owner s)(i := Some v)\<rparr>)"
| lock_busy: "sys_owner s i = None \<Longrightarrow> TryAcquire (sys_locks s) v = (False, vl) \<Longrightarrow>
     lock_step s (s\<lparr>sys_locks := vl\<rparr>)"
| lock_released: "sys_owner s i = Some v \<Longrightarrow>
     lock_step s (s\<lparr>sys_locks := Release (sys_locks s) v, sys_owner := (sys_owner s)(i := None)\<rparr>)"

inductive lock_reachable :: "lock_system \<Rightarrow> bool" where
  lock_start: "lock_reachable lock_init"
| lock_next: "lock_reachable s \<Longrightarrow> lock_step s t \<Longrightarrow> lock_reachable t"

inductive_cases lock_stepE: "lock_step s t"

abbreviation lock_inv :: "lock_system \<Rightarrow> bool" where
  "lock_inv s \<equiv> vlock.agrees (sys_locks s) (sys_owner s)"

lemma lock_inv_step: "lock_step s t \<Longrightarrow> lock_inv s \<Longrightarrow> lock_inv t"
proof (induction rule: lock_step.induct)
  case (lock_taken s i v vl)
  then show ?case using vlock.agrees_acquire [of "sys_locks s" "sys_owner s" i v]
    by (simp add: fun_upd_def)
next
  case (lock_busy s i v vl)
  then show ?case using vlock.agrees_busy [of "sys_locks s" "sys_owner s" v] by simp
next
  case (lock_released s i v)
  then show ?case using vlock.agrees_release [of "sys_locks s" "sys_owner s" i v]
    by (simp add: fun_upd_def)
qed

lemma lock_inv_reachable: "lock_reachable s \<Longrightarrow> lock_inv s"
  by (induction rule: lock_reachable.induct)
    (simp add: lock_init_def NewVolumeLocks_def vlock.agrees_def, blast intro: lock_inv_step)

end
