(* ===== verification/Go_Strings.thy ===== *)
theory Go_Strings
  imports Prelude
begin

text \<open>
  The operations of Go's \<^verbatim>\<open>strings\<close>, \<^verbatim>\<open>strconv\<close> and \<^verbatim>\<open>net\<close> packages that the driver calls, on byte
  strings.  \<^verbatim>\<open>ToLower\<close> and \<^verbatim>\<open>EqualFold\<close> are those of ASCII text: bytes above 127 are left as they
  are (the keys and endpoints the driver compares with are ASCII).  The lemmas say what each
  routine computes; the numeric parser is shown equal to a positional reference.
\<close>

section \<open>Case folding\<close>

definition lower_char :: "char \<Rightarrow> char" where
  "lower_char c = (let n = of_char c :: nat in if 65 \<le> n \<and> n \<le> 90 then char_of (n + 32) else c)"

definition to_lower :: "string \<Rightarrow> string" where
  "to_lower s = map lower_char s"

definition equal_fold :: "string \<Rightarrow> string \<Rightarrow> bool" where
  "equal_fold s t = (to_lower s = to_lower t)"

lemma of_char_lower_char:
  "(of_char (lower_char c) :: nat) =
     (if 65 \<le> (of_char c :: nat) \<and> (of_char c :: nat) \<le> 90 then of_char c + 32 else of_char c)"
  by (simp add: lower_char_def Let_def)

lemma lower_char_idem [simp]: "lower_char (lower_char c) = lower_char c"
proof -
  have "(of_char (lower_char (lower_char c)) :: nat) = of_char (lower_char c)"
    by (simp add: of_char_lower_char)
  then show ?thesis by simp
qed

lemma to_lower_idem [simp]: "to_lower (to_lower s) = to_lower s"
  by (simp add: to_lower_def)

lemma to_lower_Nil [simp]: "to_lower [] = []"
  by (simp add: to_lower_def)

lemma to_lower_append [simp]: "to_lower (s @ t) = to_lower s @ to_lower t"
  by (simp add: to_lower_def)

lemma length_to_lower [simp]: "length (to_lower s) = length s"
  by (simp add: to_lower_def)

lemma to_lower_take: "to_lower (take n s) = take n (to_lower s)"
  by (simp add: to_lower_def take_map)

lemma equal_fold_refl [simp]: "equal_fold s s"
  by (simp add: equal_fold_def)

section \<open>Prefixes, search and replacement\<close>

definition has_prefix :: "string \<Rightarrow> string \<Rightarrow> bool" where
  "has_prefix s p = prefix p s"

fun contains :: "string \<Rightarrow> string \<Rightarrow> bool" where
  "contains [] p = (p = [])"
| "contains (c # s) p = (prefix p (c # s) \<or> contains s p)"

fun replace1 :: "string \<Rightarrow> string \<Rightarrow> string \<Rightarrow> string" where
  "replace1 [] old new = (if old = [] then new else [])"
| "replace1 (c # s) old new =
     (if prefix old (c # s) then new @ drop (length old) (c # s) else c # replace1 s old new)"

function replace_all :: "string \<Rightarrow> string \<Rightarrow> string \<Rightarrow> string" where
  "replace_all s old new =
     (if s = [] \<or> old = [] then s
      else if prefix old s then new @ replace_all (drop (length old) s) old new
      else hd s # replace_all (tl s) old new)"
  by pat_completeness auto
termination
  by (relation "measure (\<lambda>(s, old, new). length s)") (auto simp: neq_Nil_conv)

declare replace_all.simps [simp del]

text \<open>\<^verbatim>\<open>strings.SplitN(s, sep, 2)\<close> for a non-empty separator: the text before and after its first
  occurrence, or the whole text alone.\<close>

fun split_n2 :: "string \<Rightarrow> string \<Rightarrow> string list" where
  "split_n2 [] sep = [[]]"
| "split_n2 (c # s) sep =
     (if prefix sep (c # s) then [[], drop (length sep) (c # s)]
      else (case split_n2 s sep of
              [] \<Rightarrow> [[c]]
            | t # ts \<Rightarrow> (c # t) # ts))"

lemma contains_iff: "contains s p \<longleftrightarrow> (\<exists>a b. s = a @ p @ b)"
proof (induction s)
  case Nil
  then show ?case by auto
next
  case (Cons c s)
  have "(\<exists>a b. c # s = a @ p @ b) \<longleftrightarrow> prefix p (c # s) \<or> (\<exists>a b. s = a @ p @ b)"
  proof
    assume "\<exists>a b. c # s = a @ p @ b"
    then obtain a b where "c # s = a @ p @ b" by blast
    then show "prefix p (c # s) \<or> (\<exists>a b. s = a @ p @ b)"
      by (cases a) (auto simp: prefix_def)
  next
    assume "prefix p (c # s) \<or> (\<exists>a b. s = a @ p @ b)"
    then show "\<exists>a b. c # s = a @ p @ b"
    proof
      assume "prefix p (c # s)"
      then obtain b where "c # s = [] @ p @ b" by (auto simp: prefix_def)
      then show ?thesis by blast
    next
      assume "\<exists>a b. s = a @ p @ b"
      then obtain a b where "c # s = (c # a) @ p @ b" by auto
      then show ?thesis by blast
    qed
  qed
  with Cons.IH show ?case by simp
qed

lemma replace1_absent: "\<not> contains s old \<Longrightarrow> replace1 s old new = s"
  by (induction s) auto

lemma replace1_prefix: "replace1 (old @ s) old new = new @ s"
proof (cases "old @ s")
  case Nil
  then show ?thesis by simp
next
  case (Cons c t)
  then have "prefix old (c # t)" and "drop (length old) (c # t) = s"
    by (simp_all flip: Cons)
  with Cons show ?thesis by simp
qed

lemma length_replace1: "length new = length old \<Longrightarrow> length (replace1 s old new) = length s"
proof (induction s)
  case Nil
  then show ?case by (cases old) simp_all
next
  case (Cons c s)
  show ?case
  proof (cases "prefix old (c # s)")
    case True
    then have "length old \<le> length (c # s)" by (rule prefix_length_le)
    with True Cons.prems show ?thesis by simp
  next
    case False
    with Cons show ?thesis by simp
  qed
qed

lemma replace_all_absent: "\<not> contains s old \<Longrightarrow> replace_all s old new = s"
proof (induction s)
  case Nil
  then show ?case by (simp add: replace_all.simps)
next
  case (Cons c s)
  then show ?case by (simp add: replace_all.simps [of "c # s"])
qed

lemma split_n2_found:
  assumes "c \<notin> set pre"
  shows "split_n2 (pre @ (c # sep) @ post) (c # sep) = [pre, post]"
  using assms by (induction pre) auto

section \<open>Numbers\<close>

text \<open>
  \<^verbatim>\<open>strconv.ParseUint(s, 8, 32)\<close>: a digit outside \<open>0..7\<close> or an empty text is a syntax error, a
  value that does not fit 32 bits a range error, whichever is met first.
\<close>

datatype num_error = ErrSyntax | ErrRange

definition octal_digit :: "char \<Rightarrow> nat option" where
  "octal_digit c = (let n = of_char c :: nat in if 48 \<le> n \<and> n \<le> 55 then Some (n - 48) else None)"

fun parse_octal_loop :: "string \<Rightarrow> nat \<Rightarrow> num_error + nat" where
  "parse_octal_loop [] n = Inr n"
| "parse_octal_loop (c # s) n =
     (case octal_digit c of
        None \<Rightarrow> Inl ErrSyntax
      | Some d \<Rightarrow> if n * 8 + d > 2 ^ 32 - 1 then Inl ErrRange else parse_octal_loop s (n * 8 + d))"

definition ParseUint_8_32 :: "string \<Rightarrow> num_error + 64 word" where
  "ParseUint_8_32 s =
     (if s = [] then Inl ErrSyntax
      else (case parse_octal_loop s 0 of Inl e \<Rightarrow> Inl e | Inr n \<Rightarrow> Inr (of_nat n)))"

text \<open>The value an octal numeral denotes, by position.\<close>

fun octal_value :: "string \<Rightarrow> nat" where
  "octal_value [] = 0"
| "octal_value (c # s) = (case octal_digit c of None \<Rightarrow> 0 | Some d \<Rightarrow> d) * 8 ^ length s + octal_value s"

definition is_octal :: "string \<Rightarrow> bool" where
  "is_octal s = (s \<noteq> [] \<and> list_all (\<lambda>c. octal_digit c \<noteq> None) s)"

lemma octal_value_bound: "octal_value s < 8 ^ length s"
proof (induction s)
  case Nil
  then show ?case by simp
next
  case (Cons c s)
  have "(case octal_digit c of None \<Rightarrow> 0 | Some d \<Rightarrow> d) \<le> 7"
    by (auto simp: octal_digit_def Let_def split: if_splits)
  then have "(case octal_digit c of None \<Rightarrow> 0 | Some d \<Rightarrow> d) * 8 ^ length s \<le> 7 * 8 ^ length s"
    by (rule mult_le_mono1)
  then have "octal_value (c # s) < 7 * 8 ^ length s + 8 ^ length s"
    unfolding octal_value.simps using Cons.IH by (rule add_le_less_mono)
  then show ?case by simp
qed

lemma parse_octal_loop_Inr:
  "parse_octal_loop s n = Inr r \<longleftrightarrow>
     (list_all (\<lambda>c. octal_digit c \<noteq> None) s \<and> r = n * 8 ^ length s + octal_value s \<and>
      (s = [] \<or> r < 2 ^ 32))"
proof (induction s arbitrary: n)
  case Nil
  then show ?case by auto
next
  case (Cons c s)
  show ?case
  proof (cases "octal_digit c")
    case None
    then show ?thesis by simp
  next
    case (Some d)
    let ?r = "(n * 8 + d) * 8 ^ length s + octal_value s"
    have val: "n * 8 ^ length (c # s) + octal_value (c # s) = ?r"
      by (simp add: Some algebra_simps)
    have "n * 8 + d \<le> ?r"
      by (simp add: trans_le_add1)
    with Some Cons.IH [of "n * 8 + d"] show ?thesis
      unfolding val by (auto simp: not_less)
  qed
qed

lemma ParseUint_8_32_Inr:
  "ParseUint_8_32 s = Inr w \<longleftrightarrow>
     (is_octal s \<and> octal_value s < 2 ^ 32 \<and> w = of_nat (octal_value s))"
  by (auto simp: ParseUint_8_32_def is_octal_def sum_eq_iff_Inr parse_octal_loop_Inr)

lemma ParseUint_8_32_bound: "ParseUint_8_32 s = Inr w \<Longrightarrow> unat w < 2 ^ 32"
  by (auto simp: ParseUint_8_32_Inr unat_of_nat intro: le_less_trans [OF mod_less_eq_dividend])

text \<open>\<^verbatim>\<open>strconv.Itoa\<close> on the non-negative integers the driver prints (ports).\<close>

fun itoa :: "nat \<Rightarrow> string" where
  "itoa n = (if n < 10 then [char_of (48 + n)] else itoa (n div 10) @ [char_of (48 + n mod 10)])"

declare itoa.simps [simp del]

text \<open>\<^verbatim>\<open>net.JoinHostPort\<close>: a host with a colon is an IPv6 literal and gets brackets.\<close>

definition JoinHostPort :: "string \<Rightarrow> string \<Rightarrow> string" where
  "JoinHostPort host port =
     (if CHR '':'' \<in> set host then ''['' @ host @ '']:'' @ port else host @ '':'' @ port)"

text \<open>\<^verbatim>\<open>strings.TrimSpace\<close> on ASCII text.\<close>

definition is_space :: "char \<Rightarrow> bool" where
  "is_space c = (let n = of_char c :: nat in n = 32 \<or> (9 \<le> n \<and> n \<le> 13))"

definition trim_space :: "string \<Rightarrow> string" where
  "trim_space s = rev (dropWhile is_space (rev (dropWhile is_space s)))"

end
