(* ===== verification/Driver.thy ===== *)
theory Driver
  imports Volume_Locks Go_Strings
begin

text \<open>
  \<^verbatim>\<open>pkg/nfsexport/nfsexport.go\<close>: the parameter names, the driver's configuration and state, and its
  construction.
\<close>

section \<open>Names\<close>

definition paramServer :: string where
  "paramServer = ''server''"

definition paramShare :: string where
  "paramShare = ''share''"

definition paramSubDir :: string where
  "paramSubDir = ''subdir''"

definition DefaultDriverName :: string where
  "DefaultDriverName = ''nfs-export.csi.k8s.io''"

definition paramDataVolumeClaim :: string where
  "paramDataVolumeClaim = ''datavolumeclaim''"

definition paramDataStorageClass :: string where
  "paramDataStorageClass = ''datastorageclass''"

definition paramDataNamespace :: string where
  "paramDataNamespace = ''datanamespace''"

definition paramNfsServerImage :: string where
  "paramNfsServerImage = ''nfsserverimage''"

definition paramNfsHostsAllow :: string where
  "paramNfsHostsAllow = ''nfshostsallow''"

definition mountOptionsField :: string where
  "mountOptionsField = ''mountoptions''"

definition mountPermissionsField :: string where
  "mountPermissionsField = ''mountpermissions''"

definition pvcNameKey :: string where
  "pvcNameKey = ''csi.storage.k8s.io/pvc/name''"

definition pvcNamespaceKey :: string where
  "pvcNamespaceKey = ''csi.storage.k8s.io/pvc/namespace''"

definition pvNameKey :: string where
  "pvNameKey = ''csi.storage.k8s.io/pv/name''"

text \<open>The placeholders \<^verbatim>\<open>replaceWithMap\<close> is meant for.\<close>

definition pvcNameMetadata :: string where
  "pvcNameMetadata = ''${pvc.metadata.name}''"

definition pvcNamespaceMetadata :: string where
  "pvcNamespaceMetadata = ''${pvc.metadata.namespace}''"

definition pvNameMetadata :: string where
  "pvNameMetadata = ''${pv.metadata.name}''"

definition podNameKey :: string where
  "podNameKey = ''csi.storage.k8s.io/pod.name''"

definition podNamespaceKey :: string where
  "podNamespaceKey = ''csi.storage.k8s.io/pod.namespace''"

lemmas key_defs =
  paramDataVolumeClaim_def paramDataStorageClass_def paramDataNamespace_def
  paramNfsServerImage_def paramNfsHostsAllow_def mountOptionsField_def mountPermissionsField_def
  pvcNameKey_def pvcNamespaceKey_def pvNameKey_def podNameKey_def podNamespaceKey_def

text \<open>The names are told apart once and for all, so that no proof has to look inside them.\<close>

lemma param_keys_distinct:
  "distinct [paramDataVolumeClaim, paramDataStorageClass, paramDataNamespace, paramNfsServerImage,
     paramNfsHostsAllow, mountOptionsField, mountPermissionsField, pvcNameKey, pvcNamespaceKey,
     pvNameKey, podNameKey, podNamespaceKey]"
  by (simp add: key_defs)

lemma param_keys_distinct_rev:
  "distinct [podNamespaceKey, podNameKey, pvNameKey, pvcNamespaceKey, pvcNameKey,
     mountPermissionsField, mountOptionsField, paramNfsHostsAllow, paramNfsServerImage,
     paramDataNamespace, paramDataStorageClass, paramDataVolumeClaim]"
  by (simp add: key_defs)

lemmas param_keys_neq [simp] =
  param_keys_distinct [unfolded distinct.simps list.set insert_iff de_Morgan_disj]
  param_keys_distinct_rev [unfolded distinct.simps list.set insert_iff de_Morgan_disj]

text \<open>Each name is its own lower-case form, as the comparison with \<^verbatim>\<open>strings.ToLower(k)\<close> needs.\<close>

lemma lower_param_keys [simp]:
  "to_lower paramDataVolumeClaim = paramDataVolumeClaim"
  "to_lower paramDataStorageClass = paramDataStorageClass"
  "to_lower paramDataNamespace = paramDataNamespace"
  "to_lower paramNfsServerImage = paramNfsServerImage"
  "to_lower paramNfsHostsAllow = paramNfsHostsAllow"
  "to_lower mountOptionsField = mountOptionsField"
  "to_lower mountPermissionsField = mountPermissionsField"
  "to_lower pvcNameKey = pvcNameKey"
  "to_lower pvcNamespaceKey = pvcNamespaceKey"
  "to_lower pvNameKey = pvNameKey"
  "to_lower podNameKey = podNameKey"
  "to_lower podNamespaceKey = podNamespaceKey"
  by (simp_all add: key_defs to_lower_def lower_char_def)

section \<open>Capabilities\<close>

datatype controller_rpc =
    CS_UNKNOWN | CS_CREATE_DELETE_VOLUME | CS_PUBLISH_UNPUBLISH_VOLUME | CS_CLONE_VOLUME
  | CS_SINGLE_NODE_MULTI_WRITER

datatype node_rpc =
    NS_UNKNOWN | NS_STAGE_UNSTAGE_VOLUME | NS_GET_VOLUME_STATS | NS_SINGLE_NODE_MULTI_WRITER

datatype controller_capability = ControllerRpc controller_rpc

datatype node_capability = NodeRpc node_rpc

definition NewControllerServiceCapability :: "controller_rpc \<Rightarrow> controller_capability" where
  "NewControllerServiceCapability cap = ControllerRpc cap"

definition NewNodeServiceCapability :: "node_rpc \<Rightarrow> node_capability" where
  "NewNodeServiceCapability cap = NodeRpc cap"

section \<open>The driver\<close>

record driver_options =
  opt_NodeID :: string
  opt_DriverName :: string
  opt_Endpoint :: string
  opt_MountPermissions :: "64 word"
  opt_WorkingMountDir :: string

record driver =
  drv_name :: string
  drv_nodeID :: string
  drv_version :: string
  drv_endpoint :: string
  drv_mountPermissions :: "64 word"
  drv_workingMountDir :: string
  drv_cscap :: "controller_capability list"
  drv_nscap :: "node_capability list"
  drv_volumeLocks :: volume_locks

definition AddControllerServiceCapabilities :: "controller_rpc list \<Rightarrow> driver \<Rightarrow> driver" where
  "AddControllerServiceCapabilities cl n =
     n\<lparr>drv_cscap := foldl (\<lambda>csc c. csc @ [NewControllerServiceCapability c]) [] cl\<rparr>"

definition AddNodeServiceCapabilities :: "node_rpc list \<Rightarrow> driver \<Rightarrow> driver" where
  "AddNodeServiceCapabilities nl n =
     n\<lparr>drv_nscap := foldl (\<lambda>nsc c. nsc @ [NewNodeServiceCapability c]) [] nl\<rparr>"

text \<open>\<open>driverVersion\<close> is the package variable set at build time.\<close>

definition NewDriver :: "string \<Rightarrow> driver_options \<Rightarrow> driver" where
  "NewDriver driverVersion options =
     (let n = \<lparr>drv_name = opt_DriverName options, drv_nodeID = opt_NodeID options,
               drv_version = driverVersion, drv_endpoint = opt_Endpoint options,
               drv_mountPermissions = opt_MountPermissions options,
               drv_workingMountDir = opt_WorkingMountDir options,
               drv_cscap = [], drv_nscap = [], drv_volumeLocks = NewVolumeLocks\<rparr>;
          n = AddControllerServiceCapabilities
                [CS_CREATE_DELETE_VOLUME, CS_SINGLE_NODE_MULTI_WRITER] n;
          n = AddNodeServiceCapabilities
                [NS_GET_VOLUME_STATS, NS_SINGLE_NODE_MULTI_WRITER, NS_UNKNOWN] n
      in n\<lparr>drv_volumeLocks := NewVolumeLocks\<rparr>)"

lemma foldl_snoc_map: "foldl (\<lambda>acc c. acc @ [f c]) acc cl = acc @ map f cl"
  by (induction cl arbitrary: acc) simp_all

lemma AddControllerServiceCapabilities_map:
  "drv_cscap (AddControllerServiceCapabilities cl n) = map NewControllerServiceCapability cl"
  by (simp add: AddControllerServiceCapabilities_def foldl_snoc_map)

lemma AddNodeServiceCapabilities_map:
  "drv_nscap (AddNodeServiceCapabilities nl n) = map NewNodeServiceCapability nl"
  by (simp add: AddNodeServiceCapabilities_def foldl_snoc_map)

end
