(* ===== verification/Param_Scan.thy ===== *)
theory Param_Scan
  imports Go_Strings "HOL-Library.Multiset"
begin

text \<open>
  The loop \<^verbatim>\<open>for k, v := range m { switch strings.ToLower(k) { ... } }\<close> that every handler reads
  its parameters with.  \<^verbatim>\<open>scan step m s\<close> visits the entries in the order of the list and stops at
  the first early return.  Go fixes no order, so the locale \<^verbatim>\<open>param_scan\<close> shows, for steps that
  write different fields for different keys, that the order does not matter, and \<^verbatim>\<open>param_field\<close>
  says what a field holds after the loop.
\<close>

fun scan :: "(string \<Rightarrow> string \<Rightarrow> 's \<Rightarrow> 'e + 's) \<Rightarrow> gomap \<Rightarrow> 's \<Rightarrow> 'e + 's" where
  "scan step [] s = Inr s"
| "scan step ((k, v) # m) s = (case step k v s of Inl e \<Rightarrow> Inl e | Inr s' \<Rightarrow> scan step m s')"

lemma scan_Cons_Inr:
  "scan step ((k, v) # m) s = Inr r \<longleftrightarrow> (\<exists>t. step k v s = Inr t \<and> scan step m t = Inr r)"
  by (simp add: sum_eq_iff_Inr)

lemma scan_append_Inr:
  "scan step (m @ n) s = Inr r \<longleftrightarrow> (\<exists>t. scan step m s = Inr t \<and> scan step n t = Inr r)"
proof (induction m arbitrary: s)
  case Nil
  then show ?case by simp
next
  case (Cons e m)
  then show ?case by (cases e) (auto simp: scan_Cons_Inr simp del: scan.simps(2))
qed

text \<open>A failed scan stopped at some entry, all earlier ones having been accepted.\<close>

lemma scan_Inl:
  "scan step m s = Inl e \<Longrightarrow>
     \<exists>pre k v post t. m = pre @ (k, v) # post \<and> scan step pre s = Inr t \<and> step k v t = Inl e"
proof (induction m arbitrary: s)
  case Nil
  then show ?case by simp
next
  case (Cons p m)
  obtain k v where p: "p = (k, v)" by (cases p)
  show ?case
  proof (cases "step k v s")
    case (Inl e')
    with Cons.prems have "p # m = [] @ (k, v) # m \<and> scan step [] s = Inr s \<and> step k v s = Inl e"
      by (simp add: p)
    then show ?thesis by blast
  next
    case (Inr t)
    with Cons.prems obtain pre k' v' post u where "m = pre @ (k', v') # post"
      and "scan step pre t = Inr u" and "step k' v' u = Inl e"
      using Cons.IH [of t] by (auto simp: p)
    with Inr have "p # m = (p # pre) @ (k', v') # post \<and> scan step (p # pre) s = Inr u \<and> step k' v' u = Inl e"
      by (simp add: p)
    then show ?thesis by blast
  qed
qed

definition lower_keys :: "gomap \<Rightarrow> string list" where
  "lower_keys m = map (\<lambda>(k, v). to_lower k) m"

lemma lower_keys_simps [simp]:
  "lower_keys [] = []"
  "lower_keys ((k, v) # m) = to_lower k # lower_keys m"
  "lower_keys (m @ n) = lower_keys m @ lower_keys n"
  by (simp_all add: lower_keys_def)

lemma lower_keys_mset: "mset m = mset n \<Longrightarrow> mset (lower_keys m) = mset (lower_keys n)"
  by (simp add: lower_keys_def)

text \<open>The value a scan leaves for a key: that of the last entry whose key matches.\<close>

fun param_value :: "string \<Rightarrow> gomap \<Rightarrow> string \<Rightarrow> string" where
  "param_value key [] d = d"
| "param_value key ((k, v) # m) d = param_value key m (if to_lower k = key then v else d)"

lemma param_value_absent: "key \<notin> set (lower_keys m) \<Longrightarrow> param_value key m d = d"
  by (induction m arbitrary: d) auto

lemma param_value_unique:
  "distinct (lower_keys m) \<Longrightarrow> (k, v) \<in> set m \<Longrightarrow> to_lower k = key \<Longrightarrow> param_value key m d = v"
proof (induction m arbitrary: d)
  case Nil
  then show ?case by simp
next
  case (Cons p m)
  obtain k' v' where p: "p = (k', v')" by (cases p)
  show ?case
  proof (cases "(k, v) \<in> set m")
    case True
    with Cons p show ?thesis by auto
  next
    case False
    with Cons.prems p have "k' = k" "v' = v" by auto
    with Cons.prems p show ?thesis by (simp add: param_value_absent)
  qed
qed

locale param_scan =
  fixes step :: "string \<Rightarrow> string \<Rightarrow> 's \<Rightarrow> 'e + 's"
  assumes commute: "to_lower k \<noteq> to_lower k' \<Longrightarrow> step k v s = Inr t \<Longrightarrow> step k' v' t = Inr r \<Longrightarrow>
    \<exists>t'. step k' v' s = Inr t' \<and> step k v t' = Inr r"
begin

lemma scan_swap:
  assumes "to_lower k \<noteq> to_lower k'"
  shows "scan step ((k, v) # (k', v') # m) s = Inr r \<longleftrightarrow> scan step ((k', v') # (k, v) # m) s = Inr r"
  using commute [OF assms, of v s _ v'] commute [OF assms [symmetric], of v' s _ v]
  by (simp add: scan_Cons_Inr del: scan.simps(2)) blast

lemma scan_front:
  "to_lower k \<notin> set (lower_keys m) \<Longrightarrow>
     scan step (m @ (k, v) # n) s = Inr r \<longleftrightarrow> scan step ((k, v) # m @ n) s = Inr r"
proof (induction m arbitrary: s)
  case Nil
  then show ?case by simp
next
  case (Cons p m)
  obtain k' v' where p: "p = (k', v')" by (cases p)
  have "scan step ((p # m) @ (k, v) # n) s = Inr r \<longleftrightarrow>
      (\<exists>t. step k' v' s = Inr t \<and> scan step ((k, v) # m @ n) t = Inr r)"
    using Cons by (simp add: p scan_Cons_Inr del: scan.simps(2))
  also have "\<dots> \<longleftrightarrow> scan step ((k', v') # (k, v) # m @ n) s = Inr r"
    by (simp only: scan_Cons_Inr)
  also have "\<dots> \<longleftrightarrow> scan step ((k, v) # (p # m) @ n) s = Inr r"
    using scan_swap [of k' k v' v "m @ n" s r] Cons.prems by (simp add: p del: scan.simps(2)) metis
  finally show ?case .
qed

lemma scan_order:
  "mset m = mset n \<Longrightarrow> distinct (lower_keys m) \<Longrightarrow> scan step m s = Inr r \<longleftrightarrow> scan step n s = Inr r"
proof (induction m arbitrary: n s)
  case Nil
  then show ?case by simp
next
  case (Cons p m)
  obtain k v where p: "p = (k, v)" by (cases p)
  from Cons.prems(1) have "p \<in> set n" by (metis list.set_intros(1) set_mset_mset)
  then obtain n1 n2 where n: "n = n1 @ p # n2" by (auto dest: split_list)
  with Cons.prems(1) have m: "mset m = mset (n1 @ n2)" by simp
  have "mset (lower_keys (p # m)) = mset (lower_keys n)" using Cons.prems(1) by (rule lower_keys_mset)
  with Cons.prems(2) have "distinct (lower_keys n)" by (metis mset_eq_imp_distinct_iff)
  then have fresh: "to_lower k \<notin> set (lower_keys n1)" by (simp add: n p)
  have "scan step (p # m) s = Inr r \<longleftrightarrow> (\<exists>t. step k v s = Inr t \<and> scan step (n1 @ n2) t = Inr r)"
    using Cons.IH [OF m] Cons.prems(2) by (simp add: p scan_Cons_Inr del: scan.simps(2))
  also have "\<dots> \<longleftrightarrow> scan step n s = Inr r"
    using scan_front [OF fresh, of v n2 s r] by (simp add: n p scan_Cons_Inr del: scan.simps(2))
  finally show ?case .
qed

end

locale param_field =
  fixes step :: "string \<Rightarrow> string \<Rightarrow> 's \<Rightarrow> 'e + 's"
    and key :: string
    and field :: "'s \<Rightarrow> string"
  assumes hit: "to_lower k = key \<Longrightarrow> step k v s = Inr t \<Longrightarrow> field t = v"
    and miss: "to_lower k \<noteq> key \<Longrightarrow> step k v s = Inr t \<Longrightarrow> field t = field s"
begin

lemma scan_field: "scan step m s = Inr r \<Longrightarrow> field r = param_value key m (field s)"
proof (induction m arbitrary: s)
  case Nil
  then show ?case by simp
next
  case (Cons p m)
  obtain k v where p: "p = (k, v)" by (cases p)
  from Cons.prems obtain t where t: "step k v s = Inr t" and "scan step m t = Inr r"
    by (auto simp: p sum_eq_iff_Inr)
  then have "field r = param_value key m (field t)" by (intro Cons.IH)
  with t show ?case by (cases "to_lower k = key") (simp_all add: p hit miss)
qed

end

end
