(* ===== verification/Kube_Types.thy ===== *)
theory Kube_Types
  imports Prelude
begin

text \<open>
  The Kubernetes and CSI objects the driver builds or reads, with the fields its code names.
  A pointer field that the code compares with nil or dereferences is an \<^verbatim>\<open>option\<close>.
\<close>

section \<open>Metadata\<close>

record owner_reference =
  owner_APIVersion :: string
  owner_Kind :: string
  owner_Name :: string
  owner_UID :: string

record object_meta =
  meta_Name :: string
  meta_UID :: string
  meta_Labels :: gomap
  meta_Annotations :: "gomap option"
  meta_OwnerReferences :: "owner_reference list"

section \<open>Volume claims, volumes and storage classes\<close>

datatype access_mode = ReadWriteOnce | ReadOnlyMany | ReadWriteMany

datatype quantity_format = BinarySI | DecimalSI

text \<open>\<^verbatim>\<open>resource.NewQuantity(value, format)\<close>; the value is an \<^verbatim>\<open>int64\<close>.\<close>

datatype storage_request = NewQuantity "64 word" quantity_format

record pvc =
  pvc_meta :: object_meta
  pvc_StorageClassName :: "string option"
  pvc_AccessModes :: "access_mode list"
  pvc_StorageRequest :: "storage_request option"

record csi_source =
  csi_VolumeHandle :: string
  csi_VolumeAttributes :: gomap

record claim_ref =
  ref_Name :: string
  ref_Namespace :: string

record pv =
  pv_meta :: object_meta
  pv_CSI :: "csi_source option"
  pv_ClaimRef :: "claim_ref option"

record storage_class =
  sc_meta :: object_meta

section \<open>Workloads\<close>

datatype protocol = ProtocolTCP | ProtocolUDP

datatype pull_policy = PullAlways | PullIfNotPresent | PullNever

datatype restart_policy = RestartPolicyAlways | RestartPolicyOnFailure | RestartPolicyNever

datatype update_strategy = OnDeleteStrategy | RollingUpdateStrategy

datatype service_type = ServiceTypeClusterIP | ServiceTypeNodePort | ServiceTypeLoadBalancer

record env_var =
  env_Name :: string
  env_Value :: string

record container_port =
  cport_Name :: string
  cport_Protocol :: protocol
  cport_ContainerPort :: nat

text \<open>A readiness probe that dials a TCP port, given by the name of a container port.\<close>

record tcp_probe =
  probe_PortName :: string
  probe_InitialDelaySeconds :: nat
  probe_PeriodSeconds :: nat
  probe_SuccessThreshold :: nat

record volume_mount =
  vm_Name :: string
  vm_MountPath :: string

record container =
  ctr_Name :: string
  ctr_Image :: string
  ctr_ImagePullPolicy :: pull_policy
  ctr_AddCapabilities :: "string list"
  ctr_Env :: "env_var list"
  ctr_Ports :: "container_port list"
  ctr_ReadinessProbe :: tcp_probe
  ctr_VolumeMounts :: "volume_mount list"

text \<open>A pod volume; \<^term>\<open>vol_ClaimName\<close> is its \<^verbatim>\<open>PersistentVolumeClaim\<close> source, when it has one.\<close>

record pod_volume =
  vol_Name :: string
  vol_ClaimName :: "string option"

record pod_spec =
  spec_RestartPolicy :: restart_policy
  spec_TerminationGracePeriodSeconds :: "64 word option"
  spec_Containers :: "container list"
  spec_Volumes :: "pod_volume list"

record pod_template =
  tmpl_Labels :: gomap
  tmpl_Spec :: pod_spec

record statefulset =
  sts_meta :: object_meta
  sts_Replicas :: "32 word option"
  sts_UpdateStrategy :: update_strategy
  sts_ServiceName :: string
  sts_MatchLabels :: gomap
  sts_Template :: pod_template

datatype pod_phase = PodPending | PodRunning | PodSucceeded | PodFailed | OtherPhase string

record pod =
  pod_meta :: object_meta
  pod_Volumes :: "pod_volume list"
  pod_Phase :: pod_phase

record service_port =
  sport_Name :: string
  sport_Protocol :: protocol
  sport_Port :: nat

record service =
  svc_meta :: object_meta
  svc_Selector :: gomap
  svc_Type :: service_type
  svc_Ports :: "service_port list"
  svc_ClusterIP :: string

section \<open>Files and volume metrics\<close>

record file_info =
  info_Mode :: "32 word"
  info_IsDir :: bool

text \<open>A metrics quantity, by what \<^verbatim>\<open>AsInt64\<close> answers on it and by its printed text.\<close>

record quantity =
  quantity_AsInt64 :: "64 word \<times> bool"
  quantity_String :: string

record volume_metrics =
  vm_Available :: quantity
  vm_Capacity :: quantity
  vm_Used :: quantity
  vm_InodesFree :: quantity
  vm_Inodes :: quantity
  vm_InodesUsed :: quantity

datatype probe_result = ProbeSuccess | ProbeFailure | ProbeUnknown

text \<open>A label selector selects the objects that carry every label it names.\<close>

definition selects :: "gomap \<Rightarrow> gomap \<Rightarrow> bool" where
  "selects selector labels = list_all (\<lambda>(k, v). map_of labels k = Some v) selector"

end
