(* ===== verification/Effects.thy ===== *)
theory Effects
  imports Kube_Types
begin

text \<open>
  Driver code as programs over its environment.  Everything the driver calls outside its own
  code (the Kubernetes client, the mounter, the operating system, the TCP probe) is a call that
  the environment answers; a program is the tree of its calls, branching on the answers.
  Nothing is assumed of the answers here: a Go call that returns \<^verbatim>\<open>(ptr, err)\<close> is answered by any
  pair of an optional object and an optional error.  \<^verbatim>\<open>exec\<close> relates a program to the traces it
  can leave and to its outcomes, for arbitrary answers; \<^verbatim>\<open>run\<close> executes it against a concrete
  environment with a state.
\<close>

section \<open>Calls, programs and outcomes\<close>

text \<open>Calls whose only answer is an error value.\<close>

datatype action =
    Mount string string string "string list"
  | CleanupMountPoint string bool
  | MkdirAll string "32 word"
  | Chmod string "32 word"
  | DeletePVC string string
  | DeleteSTS string string
  | DeleteSVC string string

datatype pvc_call = GetPVC string string | CreatePVC string pvc

datatype sts_call = GetSTS string string | CreateSTS string statefulset

datatype svc_call = GetSVC string string | CreateSVC string service

datatype pod_call = GetPod string string | UpdatePod string pod

text \<open>Questions to the mounter: \<^verbatim>\<open>IsLikelyNotMountPoint\<close>, \<^verbatim>\<open>mount.IsNotMountPoint\<close>, \<^verbatim>\<open>mount.PathExists\<close>.\<close>

datatype mount_query = IsLikelyNotMountPoint string | IsNotMountPoint string | PathExists string

type_synonym 'a reply = "'a option \<times> go_error option"

datatype 'a prog =
    Return 'a
  | Panic
  | Act action "go_error option \<Rightarrow> 'a prog"
  | PvcCall pvc_call "pvc reply \<Rightarrow> 'a prog"
  | StsCall sts_call "statefulset reply \<Rightarrow> 'a prog"
  | SvcCall svc_call "service reply \<Rightarrow> 'a prog"
  | PodCall pod_call "pod reply \<Rightarrow> 'a prog"
  | ListPVCs string "pvc list reply \<Rightarrow> 'a prog"
  | ListPVs "pv list reply \<Rightarrow> 'a prog"
  | ListSCs "storage_class list reply \<Rightarrow> 'a prog"
  | ListPods string "pod list reply \<Rightarrow> 'a prog"
  | MountQuery mount_query "bool \<times> go_error option \<Rightarrow> 'a prog"
  | ReadDir string "string list \<times> go_error option \<Rightarrow> 'a prog"
  | Lstat string "file_info \<times> go_error option \<Rightarrow> 'a prog"
  | Stat string "file_info \<times> go_error option \<Rightarrow> 'a prog"
  | Getenv string "string \<Rightarrow> 'a prog"
  | TcpProbe string int "probe_result \<times> go_error option \<Rightarrow> 'a prog"
  | StatFS string "volume_metrics reply \<Rightarrow> 'a prog"

primrec bind :: "'a prog \<Rightarrow> ('a \<Rightarrow> 'b prog) \<Rightarrow> 'b prog" where
  "bind (Return a) f = f a"
| "bind Panic f = Panic"
| "bind (Act c k) f = Act c (\<lambda>r. bind (k r) f)"
| "bind (PvcCall c k) f = PvcCall c (\<lambda>r. bind (k r) f)"
| "bind (StsCall c k) f = StsCall c (\<lambda>r. bind (k r) f)"
| "bind (SvcCall c k) f = SvcCall c (\<lambda>r. bind (k r) f)"
| "bind (PodCall c k) f = PodCall c (\<lambda>r. bind (k r) f)"
| "bind (ListPVCs ns k) f = ListPVCs ns (\<lambda>r. bind (k r) f)"
| "bind (ListPVs k) f = ListPVs (\<lambda>r. bind (k r) f)"
| "bind (ListSCs k) f = ListSCs (\<lambda>r. bind (k r) f)"
| "bind (ListPods ns k) f = ListPods ns (\<lambda>r. bind (k r) f)"
| "bind (MountQuery q k) f = MountQuery q (\<lambda>r. bind (k r) f)"
| "bind (ReadDir d k) f = ReadDir d (\<lambda>r. bind (k r) f)"
| "bind (Lstat d k) f = Lstat d (\<lambda>r. bind (k r) f)"
| "bind (Stat d k) f = Stat d (\<lambda>r. bind (k r) f)"
| "bind (Getenv n k) f = Getenv n (\<lambda>r. bind (k r) f)"
| "bind (TcpProbe a t k) f = TcpProbe a t (\<lambda>r. bind (k r) f)"
| "bind (StatFS p k) f = StatFS p (\<lambda>r. bind (k r) f)"

lemma bind_Return [simp]: "bind p Return = p"
  by (induction p) simp_all

lemma bind_assoc: "bind (bind p f) g = bind p (\<lambda>a. bind (f a) g)"
  by (induction p) simp_all

text \<open>Dereferencing a Go pointer: nil panics.\<close>

definition deref :: "'a option \<Rightarrow> ('a \<Rightarrow> 'b prog) \<Rightarrow> 'b prog" where
  "deref p k = (case p of None \<Rightarrow> Panic | Some a \<Rightarrow> k a)"

text \<open>Early exits of a handler: \<^verbatim>\<open>attempt p k\<close> goes on with \<open>k\<close> unless \<open>p\<close> ended in an error status.\<close>

definition attempt :: "('e + 'a) prog \<Rightarrow> ('a \<Rightarrow> ('e + 'b) prog) \<Rightarrow> ('e + 'b) prog" where
  "attempt p k = bind p (\<lambda>r. case r of Inl e \<Rightarrow> Return (Inl e) | Inr a \<Rightarrow> k a)"

section \<open>Traces\<close>

datatype event =
    EAct action "go_error option"
  | EPvc pvc_call "pvc reply"
  | ESts sts_call "statefulset reply"
  | ESvc svc_call "service reply"
  | EPod pod_call "pod reply"
  | EListPVCs string "pvc list reply"
  | EListPVs "pv list reply"
  | EListSCs "storage_class list reply"
  | EListPods string "pod list reply"
  | EMountQuery mount_query "bool \<times> go_error option"
  | EReadDir string "string list \<times> go_error option"
  | ELstat string "file_info \<times> go_error option"
  | EStat string "file_info \<times> go_error option"
  | EGetenv string string
  | ETcpProbe string int "probe_result \<times> go_error option"
  | EStatFS string "volume_metrics reply"

datatype 'a outcome = Done 'a | Panicked

inductive exec :: "'a prog \<Rightarrow> event list \<Rightarrow> 'a outcome \<Rightarrow> bool" where
  exec_Return: "exec (Return a) [] (Done a)"
| exec_Panic: "exec Panic [] Panicked"
| exec_Act: "exec (k r) tr out \<Longrightarrow> exec (Act c k) (EAct c r # tr) out"
| exec_PvcCall: "exec (k r) tr out \<Longrightarrow> exec (PvcCall c k) (EPvc c r # tr) out"
| exec_StsCall: "exec (k r) tr out \<Longrightarrow> exec (StsCall c k) (ESts c r # tr) out"
| exec_SvcCall: "exec (k r) tr out \<Longrightarrow> exec (SvcCall c k) (ESvc c r # tr) out"
| exec_PodCall: "exec (k r) tr out \<Longrightarrow> exec (PodCall c k) (EPod c r # tr) out"
| exec_ListPVCs: "exec (k r) tr out \<Longrightarrow> exec (ListPVCs ns k) (EListPVCs ns r # tr) out"
| exec_ListPVs: "exec (k r) tr out \<Longrightarrow> exec (ListPVs k) (EListPVs r # tr) out"
| exec_ListSCs: "exec (k r) tr out \<Longrightarrow> exec (ListSCs k) (EListSCs r # tr) out"
| exec_ListPods: "exec (k r) tr out \<Longrightarrow> exec (ListPods ns k) (EListPods ns r # tr) out"
| exec_MountQuery: "exec (k r) tr out \<Longrightarrow> exec (MountQuery q k) (EMountQuery q r # tr) out"
| exec_ReadDir: "exec (k r) tr out \<Longrightarrow> exec (ReadDir d k) (EReadDir d r # tr) out"
| exec_Lstat: "exec (k r) tr out \<Longrightarrow> exec (Lstat d k) (ELstat d r # tr) out"
| exec_Stat: "exec (k r) tr out \<Longrightarrow> exec (Stat d k) (EStat d r # tr) out"
| exec_Getenv: "exec (k r) tr out \<Longrightarrow> exec (Getenv n k) (EGetenv n r # tr) out"
| exec_TcpProbe: "exec (k r) tr out \<Longrightarrow> exec (TcpProbe a t k) (ETcpProbe a t r # tr) out"
| exec_StatFS: "exec (k r) tr out \<Longrightarrow> exec (StatFS p k) (EStatFS p r # tr) out"

inductive_simps exec_Return_iff [prog_simps]: "exec (Return a) tr out"
inductive_simps exec_Panic_iff [prog_simps]: "exec Panic tr out"
inductive_simps exec_Act_iff [prog_simps]: "exec (Act c k) tr out"
inductive_simps exec_PvcCall_iff [prog_simps]: "exec (PvcCall c k) tr out"
inductive_simps exec_StsCall_iff [prog_simps]: "exec (StsCall c k) tr out"
inductive_simps exec_SvcCall_iff [prog_simps]: "exec (SvcCall c k) tr out"
inductive_simps exec_PodCall_iff [prog_simps]: "exec (PodCall c k) tr out"
inductive_simps exec_ListPVCs_iff [prog_simps]: "exec (ListPVCs ns k) tr out"
inductive_simps exec_ListPVs_iff [prog_simps]: "exec (ListPVs k) tr out"
inductive_simps exec_ListSCs_iff [prog_simps]: "exec (ListSCs k) tr out"
inductive_simps exec_ListPods_iff [prog_simps]: "exec (ListPods ns k) tr out"
inductive_simps exec_MountQuery_iff [prog_simps]: "exec (MountQuery q k) tr out"
inductive_simps exec_ReadDir_iff [prog_simps]: "exec (ReadDir d k) tr out"
inductive_simps exec_Lstat_iff [prog_simps]: "exec (Lstat d k) tr out"
inductive_simps exec_Stat_iff [prog_simps]: "exec (Stat d k) tr out"
inductive_simps exec_Getenv_iff [prog_simps]: "exec (Getenv n k) tr out"
inductive_simps exec_TcpProbe_iff [prog_simps]: "exec (TcpProbe a t k) tr out"
inductive_simps exec_StatFS_iff [prog_simps]: "exec (StatFS p k) tr out"


text \<open>A run of \<open>bind p f\<close> is a run of \<open>p\<close> continued by a run of \<open>f\<close>, or a panic of \<open>p\<close>.\<close>

definition bound :: "'a prog \<Rightarrow> ('a \<Rightarrow> 'b prog) \<Rightarrow> event list \<Rightarrow> 'b outcome \<Rightarrow> bool" where
  "bound p f tr out \<longleftrightarrow>
     (out = Panicked \<and> exec p tr Panicked) \<or>
     (\<exists>tr1 a tr2. tr = tr1 @ tr2 \<and> exec p tr1 (Done a) \<and> exec (f a) tr2 out)"

lemma bound_step:
  assumes "bound q f tr out" and lift: "\<And>tr out. exec q tr out \<Longrightarrow> exec p (e # tr) out"
  shows "bound p f (e # tr) out"
  using assms(1) unfolding bound_def
proof (elim disjE exE conjE)
  fix tr1 a tr2
  assume "tr = tr1 @ tr2" "exec q tr1 (Done a)" "exec (f a) tr2 out"
  then have "e # tr = (e # tr1) @ tr2 \<and> exec p (e # tr1) (Done a) \<and> exec (f a) tr2 out"
    by (simp add: lift)
  then show "(out = Panicked \<and> exec p (e # tr) Panicked) \<or>
      (\<exists>tr1 a tr2. e # tr = tr1 @ tr2 \<and> exec p tr1 (Done a) \<and> exec (f a) tr2 out)" by blast
qed (simp add: lift)

lemma exec_bindD: "exec (bind p f) tr out \<Longrightarrow> bound p f tr out"
proof (induction p arbitrary: tr)
  case (Return a)
  then show ?case by (simp add: bound_def prog_simps)
next
  case Panic
  then show ?case by (simp add: bound_def prog_simps)
qed (unfold bind.simps prog_simps,
    (elim exE conjE, hypsubst, rule bound_step, blast, erule exec.intros)+)

lemma exec_bindI:
  "exec p tr1 (Done a) \<Longrightarrow> exec (f a) tr2 out \<Longrightarrow> exec (bind p f) (tr1 @ tr2) out"
  by (induction p tr1 "Done a :: 'a outcome" arbitrary: a rule: exec.induct) (auto intro: exec.intros)

lemma exec_bind_Panicked: "exec p tr Panicked \<Longrightarrow> exec (bind p f) tr Panicked"
  by (induction p tr "Panicked :: 'a outcome" rule: exec.induct) (auto intro: exec.intros)

lemma exec_bind:
  "exec (bind p f) tr out \<longleftrightarrow>
     (out = Panicked \<and> exec p tr Panicked) \<or>
     (\<exists>tr1 a tr2. tr = tr1 @ tr2 \<and> exec p tr1 (Done a) \<and> exec (f a) tr2 out)"
  using exec_bindD [of p f tr out] exec_bindI [of p _ _ f _ out] exec_bind_Panicked [of p tr f]
  unfolding bound_def by blast

lemma exec_bind_Done:
  "exec (bind p f) tr (Done b) \<longleftrightarrow>
     (\<exists>tr1 a tr2. tr = tr1 @ tr2 \<and> exec p tr1 (Done a) \<and> exec (f a) tr2 (Done b))"
  by (simp add: exec_bind)

lemma exec_continue:
  "exec (case r of Inl e \<Rightarrow> Return (Inl e) | Inr a \<Rightarrow> f a) tr out \<longleftrightarrow>
     (\<exists>e. r = Inl e \<and> tr = [] \<and> out = Done (Inl e)) \<or> (\<exists>a. r = Inr a \<and> exec (f a) tr out)"
  by (cases r) (auto simp: prog_simps)

lemma exec_attempt:
  "exec (attempt p f) tr out \<longleftrightarrow>
     (out = Panicked \<and> exec p tr Panicked) \<or>
     (\<exists>e. out = Done (Inl e) \<and> exec p tr (Done (Inl e))) \<or>
     (\<exists>tr1 a tr2. tr = tr1 @ tr2 \<and> exec p tr1 (Done (Inr a)) \<and> exec (f a) tr2 out)"
  unfolding attempt_def exec_bind exec_continue
  by (rule disj_cong [OF refl]) (metis append_Nil2)

lemma exec_attempt_Inr:
  "exec (attempt p f) tr (Done (Inr b)) \<longleftrightarrow>
     (\<exists>tr1 a tr2. tr = tr1 @ tr2 \<and> exec p tr1 (Done (Inr a)) \<and> exec (f a) tr2 (Done (Inr b)))"
  by (simp add: exec_attempt)

lemma deref_Some [simp]: "deref (Some a) k = k a"
  by (simp add: deref_def)

lemma deref_None [simp]: "deref None k = Panic"
  by (simp add: deref_def)

lemma exec_deref:
  "exec (deref q k) tr out \<longleftrightarrow>
     (case q of None \<Rightarrow> tr = [] \<and> out = Panicked | Some a \<Rightarrow> exec (k a) tr out)"
  by (cases q) (simp_all add: prog_simps)

section \<open>Frames: which events a program can leave\<close>

text \<open>\<^verbatim>\<open>emits P p\<close>: every call of \<open>p\<close>, with whatever answer, is an event that satisfies \<open>P\<close>.\<close>

primrec emits :: "(event \<Rightarrow> bool) \<Rightarrow> 'a prog \<Rightarrow> bool" where
  "emits P (Return a) = True"
| "emits P Panic = True"
| "emits P (Act c k) = (\<forall>r. P (EAct c r) \<and> emits P (k r))"
| "emits P (PvcCall c k) = (\<forall>r. P (EPvc c r) \<and> emits P (k r))"
| "emits P (StsCall c k) = (\<forall>r. P (ESts c r) \<and> emits P (k r))"
| "emits P (SvcCall c k) = (\<forall>r. P (ESvc c r) \<and> emits P (k r))"
| "emits P (PodCall c k) = (\<forall>r. P (EPod c r) \<and> emits P (k r))"
| "emits P (ListPVCs ns k) = (\<forall>r. P (EListPVCs ns r) \<and> emits P (k r))"
| "emits P (ListPVs k) = (\<forall>r. P (EListPVs r) \<and> emits P (k r))"
| "emits P (ListSCs k) = (\<forall>r. P (EListSCs r) \<and> emits P (k r))"
| "emits P (ListPods ns k) = (\<forall>r. P (EListPods ns r) \<and> emits P (k r))"
| "emits P (MountQuery q k) = (\<forall>r. P (EMountQuery q r) \<and> emits P (k r))"
| "emits P (ReadDir d k) = (\<forall>r. P (EReadDir d r) \<and> emits P (k r))"
| "emits P (Lstat d k) = (\<forall>r. P (ELstat d r) \<and> emits P (k r))"
| "emits P (Stat d k) = (\<forall>r. P (EStat d r) \<and> emits P (k r))"
| "emits P (Getenv n k) = (\<forall>r. P (EGetenv n r) \<and> emits P (k r))"
| "emits P (TcpProbe a t k) = (\<forall>r. P (ETcpProbe a t r) \<and> emits P (k r))"
| "emits P (StatFS p k) = (\<forall>r. P (EStatFS p r) \<and> emits P (k r))"

lemma emits_exec: "exec p tr out \<Longrightarrow> emits P p \<Longrightarrow> list_all P tr"
  by (induction rule: exec.induct) (simp_all del: split_paired_All)

lemma emitsD: "emits P p \<Longrightarrow> exec p tr out \<Longrightarrow> e \<in> set tr \<Longrightarrow> P e"
  by (auto simp: list_all_iff dest: emits_exec)

lemma exec_exists: "\<exists>tr out. exec p tr out"
  by (induction p) (blast intro: exec.intros)+

lemma emits_iff: "emits P p \<longleftrightarrow> (\<forall>tr out. exec p tr out \<longrightarrow> list_all P tr)"
proof
  assume "\<forall>tr out. exec p tr out \<longrightarrow> list_all P tr"
  then show "emits P p"
  proof (induction p)
    case (Return a)
    then show ?case by simp
  next
    case Panic
    then show ?case by simp
  qed (unfold emits.simps, (intro allI conjI,
      metis exec_exists exec.intros list.pred_inject(2),
      metis exec.intros list.pred_inject(2) rangeI)+)
qed (blast dest: emits_exec)

lemma emits_bind: "emits P p \<Longrightarrow> (\<And>a. emits P (f a)) \<Longrightarrow> emits P (bind p f)"
  by (induction p) simp_all

lemma emits_attempt: "emits P p \<Longrightarrow> (\<And>a. emits P (f a)) \<Longrightarrow> emits P (attempt p f)"
  by (auto simp: attempt_def intro!: emits_bind split: sum.split)

lemma emits_deref: "(\<And>a. emits P (k a)) \<Longrightarrow> emits P (deref q k)"
  by (cases q) simp_all

lemma emits_mono: "emits P p \<Longrightarrow> (\<And>e. P e \<Longrightarrow> Q e) \<Longrightarrow> emits Q p"
  by (induction p) auto

lemmas emits_intros = emits_bind emits_attempt emits_deref

section \<open>Guards: what must have happened before a call\<close>

text \<open>
  \<^verbatim>\<open>guarded G h p\<close>: after the history \<open>h\<close>, every event \<open>e\<close> of \<open>p\<close> satisfies \<open>G h' e\<close>, where \<open>h'\<close> is
  \<open>h\<close> continued by the events before \<open>e\<close>.
\<close>

primrec guarded :: "(event list \<Rightarrow> event \<Rightarrow> bool) \<Rightarrow> 'a prog \<Rightarrow> event list \<Rightarrow> bool" where
  "guarded G (Return a) h = True"
| "guarded G Panic h = True"
| "guarded G (Act c k) h = (\<forall>r. G h (EAct c r) \<and> guarded G (k r) (h @ [EAct c r]))"
| "guarded G (PvcCall c k) h = (\<forall>r. G h (EPvc c r) \<and> guarded G (k r) (h @ [EPvc c r]))"
| "guarded G (StsCall c k) h = (\<forall>r. G h (ESts c r) \<and> guarded G (k r) (h @ [ESts c r]))"
| "guarded G (SvcCall c k) h = (\<forall>r. G h (ESvc c r) \<and> guarded G (k r) (h @ [ESvc c r]))"
| "guarded G (PodCall c k) h = (\<forall>r. G h (EPod c r) \<and> guarded G (k r) (h @ [EPod c r]))"
| "guarded G (ListPVCs ns k) h = (\<forall>r. G h (EListPVCs ns r) \<and> guarded G (k r) (h @ [EListPVCs ns r]))"
| "guarded G (ListPVs k) h = (\<forall>r. G h (EListPVs r) \<and> guarded G (k r) (h @ [EListPVs r]))"
| "guarded G (ListSCs k) h = (\<forall>r. G h (EListSCs r) \<and> guarded G (k r) (h @ [EListSCs r]))"
| "guarded G (ListPods ns k) h = (\<forall>r. G h (EListPods ns r) \<and> guarded G (k r) (h @ [EListPods ns r]))"
| "guarded G (MountQuery q k) h = (\<forall>r. G h (EMountQuery q r) \<and> guarded G (k r) (h @ [EMountQuery q r]))"
| "guarded G (ReadDir d k) h = (\<forall>r. G h (EReadDir d r) \<and> guarded G (k r) (h @ [EReadDir d r]))"
| "guarded G (Lstat d k) h = (\<forall>r. G h (ELstat d r) \<and> guarded G (k r) (h @ [ELstat d r]))"
| "guarded G (Stat d k) h = (\<forall>r. G h (EStat d r) \<and> guarded G (k r) (h @ [EStat d r]))"
| "guarded G (Getenv n k) h = (\<forall>r. G h (EGetenv n r) \<and> guarded G (k r) (h @ [EGetenv n r]))"
| "guarded G (TcpProbe a t k) h = (\<forall>r. G h (ETcpProbe a t r) \<and> guarded G (k r) (h @ [ETcpProbe a t r]))"
| "guarded G (StatFS p k) h = (\<forall>r. G h (EStatFS p r) \<and> guarded G (k r) (h @ [EStatFS p r]))"

fun guarded_trace :: "(event list \<Rightarrow> event \<Rightarrow> bool) \<Rightarrow> event list \<Rightarrow> event list \<Rightarrow> bool" where
  "guarded_trace G h [] = True"
| "guarded_trace G h (e # tr) = (G h e \<and> guarded_trace G (h @ [e]) tr)"

lemma guarded_trace_append:
  "guarded_trace G h (tr1 @ tr2) \<longleftrightarrow> guarded_trace G h tr1 \<and> guarded_trace G (h @ tr1) tr2"
  by (induction tr1 arbitrary: h) simp_all

lemma guarded_exec: "exec p tr out \<Longrightarrow> guarded G p h \<Longrightarrow> guarded_trace G h tr"
  by (induction arbitrary: h rule: exec.induct) (simp_all del: split_paired_All)

lemma guardedD: "guarded G p [] \<Longrightarrow> exec p (tr1 @ e # tr2) out \<Longrightarrow> G tr1 e"
  by (drule guarded_exec, assumption) (simp add: guarded_trace_append)

lemma guarded_iff: "guarded G p h \<longleftrightarrow> (\<forall>tr out. exec p tr out \<longrightarrow> guarded_trace G h tr)"
proof
  assume "\<forall>tr out. exec p tr out \<longrightarrow> guarded_trace G h tr"
  then show "guarded G p h"
  proof (induction p arbitrary: h)
    case (Return a)
    then show ?case by simp
  next
    case Panic
    then show ?case by simp
  qed (unfold guarded.simps, (intro allI conjI,
      metis exec_exists exec.intros guarded_trace.simps(2),
      metis exec.intros guarded_trace.simps(2) rangeI)+)
qed (blast dest: guarded_exec)

lemma guarded_bind:
  assumes "guarded G p h" and "\<And>tr a. exec p tr (Done a) \<Longrightarrow> guarded G (f a) (h @ tr)"
  shows "guarded G (bind p f) h"
proof -
  have "guarded_trace G h tr" if "exec (bind p f) tr out" for tr out
    using that unfolding exec_bind
  proof (elim disjE exE conjE)
    assume "exec p tr Panicked"
    then show ?thesis using assms(1) by (rule guarded_exec)
  next
    fix tr1 a tr2
    assume tr: "tr = tr1 @ tr2" and p: "exec p tr1 (Done a)" and f: "exec (f a) tr2 out"
    from p assms(1) have "guarded_trace G h tr1" by (rule guarded_exec)
    moreover from f assms(2) [OF p] have "guarded_trace G (h @ tr1) tr2" by (rule guarded_exec)
    ultimately show ?thesis by (simp add: tr guarded_trace_append)
  qed
  then show ?thesis by (simp add: guarded_iff)
qed

lemma guarded_attempt:
  "guarded G p h \<Longrightarrow> (\<And>tr a. exec p tr (Done (Inr a)) \<Longrightarrow> guarded G (f a) (h @ tr)) \<Longrightarrow>
     guarded G (attempt p f) h"
  by (auto simp: attempt_def intro!: guarded_bind split: sum.split)

lemma guarded_deref: "(\<And>a. q = Some a \<Longrightarrow> guarded G (k a) h) \<Longrightarrow> guarded G (deref q k) h"
  by (cases q) simp_all

lemma guarded_emits: "emits P p \<Longrightarrow> (\<And>h e. P e \<Longrightarrow> G h e) \<Longrightarrow> guarded G p h"
  by (induction p arbitrary: h) (simp_all del: split_paired_All)

lemmas guarded_intros = guarded_attempt guarded_bind guarded_deref

section \<open>Panics\<close>

text \<open>
  \<^verbatim>\<open>panic_free C p\<close>: when every answer satisfies the contract \<open>C\<close>, the program never dereferences
  a nil pointer.
\<close>

primrec panic_free :: "(event \<Rightarrow> bool) \<Rightarrow> 'a prog \<Rightarrow> bool" where
  "panic_free C (Return a) = True"
| "panic_free C Panic = False"
| "panic_free C (Act c k) = (\<forall>r. C (EAct c r) \<longrightarrow> panic_free C (k r))"
| "panic_free C (PvcCall c k) = (\<forall>r. C (EPvc c r) \<longrightarrow> panic_free C (k r))"
| "panic_free C (StsCall c k) = (\<forall>r. C (ESts c r) \<longrightarrow> panic_free C (k r))"
| "panic_free C (SvcCall c k) = (\<forall>r. C (ESvc c r) \<longrightarrow> panic_free C (k r))"
| "panic_free C (PodCall c k) = (\<forall>r. C (EPod c r) \<longrightarrow> panic_free C (k r))"
| "panic_free C (ListPVCs ns k) = (\<forall>r. C (EListPVCs ns r) \<longrightarrow> panic_free C (k r))"
| "panic_free C (ListPVs k) = (\<forall>r. C (EListPVs r) \<longrightarrow> panic_free C (k r))"
| "panic_free C (ListSCs k) = (\<forall>r. C (EListSCs r) \<longrightarrow> panic_free C (k r))"
| "panic_free C (ListPods ns k) = (\<forall>r. C (EListPods ns r) \<longrightarrow> panic_free C (k r))"
| "panic_free C (MountQuery q k) = (\<forall>r. C (EMountQuery q r) \<longrightarrow> panic_free C (k r))"
| "panic_free C (ReadDir d k) = (\<forall>r. C (EReadDir d r) \<longrightarrow> panic_free C (k r))"
| "panic_free C (Lstat d k) = (\<forall>r. C (ELstat d r) \<longrightarrow> panic_free C (k r))"
| "panic_free C (Stat d k) = (\<forall>r. C (EStat d r) \<longrightarrow> panic_free C (k r))"
| "panic_free C (Getenv n k) = (\<forall>r. C (EGetenv n r) \<longrightarrow> panic_free C (k r))"
| "panic_free C (TcpProbe a t k) = (\<forall>r. C (ETcpProbe a t r) \<longrightarrow> panic_free C (k r))"
| "panic_free C (StatFS p k) = (\<forall>r. C (EStatFS p r) \<longrightarrow> panic_free C (k r))"

lemma panic_free_exec: "exec p tr out \<Longrightarrow> panic_free C p \<Longrightarrow> list_all C tr \<Longrightarrow> out \<noteq> Panicked"
  by (induction rule: exec.induct) (simp_all del: split_paired_All)

lemma panic_free_iff: "panic_free C p \<longleftrightarrow> (\<forall>tr. list_all C tr \<longrightarrow> \<not> exec p tr Panicked)"
proof
  assume "\<forall>tr. list_all C tr \<longrightarrow> \<not> exec p tr Panicked"
  then show "panic_free C p"
  proof (induction p)
    case (Return a)
    then show ?case by simp
  next
    case Panic
    then show ?case by (metis exec_Panic list.pred_inject(1))
  qed (unfold panic_free.simps, (intro allI impI,
      metis exec.intros list.pred_inject(2) rangeI)+)
qed (blast dest: panic_free_exec)

lemma panic_free_bind:
  "panic_free C p \<Longrightarrow> (\<And>a. panic_free C (f a)) \<Longrightarrow> panic_free C (bind p f)"
  by (induction p) simp_all

lemma panic_free_attempt:
  "panic_free C p \<Longrightarrow> (\<And>a. panic_free C (f a)) \<Longrightarrow> panic_free C (attempt p f)"
  by (auto simp: attempt_def intro!: panic_free_bind split: sum.split)

lemma panic_free_deref:
  "q \<noteq> None \<Longrightarrow> (\<And>a. q = Some a \<Longrightarrow> panic_free C (k a)) \<Longrightarrow> panic_free C (deref q k)"
  by (cases q) simp_all

lemma panic_free_mono: "panic_free C p \<Longrightarrow> (\<And>e. D e \<Longrightarrow> C e) \<Longrightarrow> panic_free D p"
  by (induction p) simp_all

lemmas panic_intros = panic_free_bind panic_free_attempt panic_free_deref

text \<open>
  The contract of the client library the driver relies on without checking: a call without an
  error comes with an object.  The stronger contract says that the typed client always returns
  an object, also beside an error.
\<close>

fun answered :: "event \<Rightarrow> bool" where
  "answered (EPvc c (obj, err)) = (err = None \<longrightarrow> obj \<noteq> None)"
| "answered (ESts c (obj, err)) = (err = None \<longrightarrow> obj \<noteq> None)"
| "answered (ESvc c (obj, err)) = (err = None \<longrightarrow> obj \<noteq> None)"
| "answered (EPod c (obj, err)) = (err = None \<longrightarrow> obj \<noteq> None)"
| "answered (EListPVCs ns (obj, err)) = (err = None \<longrightarrow> obj \<noteq> None)"
| "answered (EListPVs (obj, err)) = (err = None \<longrightarrow> obj \<noteq> None)"
| "answered (EListSCs (obj, err)) = (err = None \<longrightarrow> obj \<noteq> None)"
| "answered (EListPods ns (obj, err)) = (err = None \<longrightarrow> obj \<noteq> None)"
| "answered (EStatFS p (obj, err)) = (err = None \<longrightarrow> obj \<noteq> None)"
| "answered _ = True"

fun never_nil :: "event \<Rightarrow> bool" where
  "never_nil (EPvc c (obj, err)) = (obj \<noteq> None)"
| "never_nil (ESts c (obj, err)) = (obj \<noteq> None)"
| "never_nil (ESvc c (obj, err)) = (obj \<noteq> None)"
| "never_nil (EPod c (obj, err)) = (obj \<noteq> None)"
| "never_nil (EListPVCs ns (obj, err)) = (obj \<noteq> None)"
| "never_nil (EListPVs (obj, err)) = (obj \<noteq> None)"
| "never_nil (EListSCs (obj, err)) = (obj \<noteq> None)"
| "never_nil (EListPods ns (obj, err)) = (obj \<noteq> None)"
| "never_nil (EStatFS p (obj, err)) = (obj \<noteq> None)"
| "never_nil _ = True"

lemma never_nil_answered: "never_nil e \<Longrightarrow> answered e"
  by (cases e rule: answered.cases) simp_all


section \<open>Answers a program does not look at\<close>

text \<open>
  \<^verbatim>\<open>ignores N p\<close>: whatever the answer to an action in \<open>N\<close>, \<open>p\<close> goes on in the same way.
\<close>

primrec ignores :: "(action \<Rightarrow> bool) \<Rightarrow> 'a prog \<Rightarrow> bool" where
  "ignores N (Return a) = True"
| "ignores N Panic = True"
| "ignores N (Act c k) = ((N c \<longrightarrow> (\<forall>r r'. k r = k r')) \<and> (\<forall>r. ignores N (k r)))"
| "ignores N (PvcCall c k) = (\<forall>r. ignores N (k r))"
| "ignores N (StsCall c k) = (\<forall>r. ignores N (k r))"
| "ignores N (SvcCall c k) = (\<forall>r. ignores N (k r))"
| "ignores N (PodCall c k) = (\<forall>r. ignores N (k r))"
| "ignores N (ListPVCs ns k) = (\<forall>r. ignores N (k r))"
| "ignores N (ListPVs k) = (\<forall>r. ignores N (k r))"
| "ignores N (ListSCs k) = (\<forall>r. ignores N (k r))"
| "ignores N (ListPods ns k) = (\<forall>r. ignores N (k r))"
| "ignores N (MountQuery q k) = (\<forall>r. ignores N (k r))"
| "ignores N (ReadDir d k) = (\<forall>r. ignores N (k r))"
| "ignores N (Lstat d k) = (\<forall>r. ignores N (k r))"
| "ignores N (Stat d k) = (\<forall>r. ignores N (k r))"
| "ignores N (Getenv n k) = (\<forall>r. ignores N (k r))"
| "ignores N (TcpProbe a t k) = (\<forall>r. ignores N (k r))"
| "ignores N (StatFS p k) = (\<forall>r. ignores N (k r))"

lemma ignores_bind: "ignores N p \<Longrightarrow> (\<And>a. ignores N (f a)) \<Longrightarrow> ignores N (bind p f)"
  by (induction p) (simp_all, metis)

lemma ignores_attempt: "ignores N p \<Longrightarrow> (\<And>a. ignores N (f a)) \<Longrightarrow> ignores N (attempt p f)"
  by (auto simp: attempt_def intro!: ignores_bind split: sum.split)

lemma ignores_deref: "(\<And>a. ignores N (k a)) \<Longrightarrow> ignores N (deref q k)"
  by (cases q) simp_all

lemma ignores_emits: "emits P p \<Longrightarrow> (\<And>c r. N c \<Longrightarrow> \<not> P (EAct c r)) \<Longrightarrow> ignores N p"
  by (induction p) (auto simp del: split_paired_All)

lemmas ignores_intros = ignores_bind ignores_attempt ignores_deref

lemma ignores_exec:
  "exec p tr out \<Longrightarrow> ignores N p \<Longrightarrow> N c \<Longrightarrow> tr = tr1 @ EAct c r # tr2 \<Longrightarrow>
     exec p (tr1 @ EAct c r' # tr2) out"
proof (induction arbitrary: tr1 rule: exec.induct)
  case (exec_Act k r0 tr out c0)
  show ?case
  proof (cases tr1)
    case Nil
    with exec_Act show ?thesis by (simp add: exec_Act_iff) metis
  next
    case (Cons e tr1')
    with exec_Act have "exec (k r0) (tr1' @ EAct c r' # tr2) out" by simp
    with exec_Act.prems Cons show ?thesis by (auto intro: exec.exec_Act)
  qed
qed (auto simp: Cons_eq_append_conv intro!: exec.intros)

section \<open>Running against an environment\<close>

text \<open>
  An environment with state \<open>'w\<close> answers every call and may change its state in doing so (by the
  call itself or by anything else that happens meanwhile).
\<close>

record 'w environment =
  env_act :: "action \<Rightarrow> 'w \<Rightarrow> go_error option \<times> 'w"
  env_pvc :: "pvc_call \<Rightarrow> 'w \<Rightarrow> pvc reply \<times> 'w"
  env_sts :: "sts_call \<Rightarrow> 'w \<Rightarrow> statefulset reply \<times> 'w"
  env_svc :: "svc_call \<Rightarrow> 'w \<Rightarrow> service reply \<times> 'w"
  env_pod :: "pod_call \<Rightarrow> 'w \<Rightarrow> pod reply \<times> 'w"
  env_list_pvcs :: "string \<Rightarrow> 'w \<Rightarrow> pvc list reply \<times> 'w"
  env_list_pvs :: "'w \<Rightarrow> pv list reply \<times> 'w"
  env_list_scs :: "'w \<Rightarrow> storage_class list reply \<times> 'w"
  env_list_pods :: "string \<Rightarrow> 'w \<Rightarrow> pod list reply \<times> 'w"
  env_mount_query :: "mount_query \<Rightarrow> 'w \<Rightarrow> (bool \<times> go_error option) \<times> 'w"
  env_read_dir :: "string \<Rightarrow> 'w \<Rightarrow> (string list \<times> go_error option) \<times> 'w"
  env_lstat :: "string \<Rightarrow> 'w \<Rightarrow> (file_info \<times> go_error option) \<times> 'w"
  env_stat :: "string \<Rightarrow> 'w \<Rightarrow> (file_info \<times> go_error option) \<times> 'w"
  env_getenv :: "string \<Rightarrow> 'w \<Rightarrow> string \<times> 'w"
  env_tcp_probe :: "string \<Rightarrow> int \<Rightarrow> 'w \<Rightarrow> (probe_result \<times> go_error option) \<times> 'w"
  env_statfs :: "string \<Rightarrow> 'w \<Rightarrow> volume_metrics reply \<times> 'w"

definition after_call ::
  "('r \<times> 'w) \<Rightarrow> ('r \<Rightarrow> event) \<Rightarrow> ('r \<Rightarrow> 'w \<Rightarrow> 'a outcome \<times> event list \<times> 'w) \<Rightarrow> 'a outcome \<times> event list \<times> 'w"
where
  "after_call answer ev rest =
     (case answer of (r, w) \<Rightarrow> (case rest r w of (out, tr, w') \<Rightarrow> (out, ev r # tr, w')))"

primrec run :: "'w environment \<Rightarrow> 'a prog \<Rightarrow> 'w \<Rightarrow> 'a outcome \<times> event list \<times> 'w" where
  "run E (Return a) w = (Done a, [], w)"
| "run E Panic w = (Panicked, [], w)"
| "run E (Act c k) w = after_call (env_act E c w) (EAct c) (\<lambda>r. run E (k r))"
| "run E (PvcCall c k) w = after_call (env_pvc E c w) (EPvc c) (\<lambda>r. run E (k r))"
| "run E (StsCall c k) w = after_call (env_sts E c w) (ESts c) (\<lambda>r. run E (k r))"
| "run E (SvcCall c k) w = after_call (env_svc E c w) (ESvc c) (\<lambda>r. run E (k r))"
| "run E (PodCall c k) w = after_call (env_pod E c w) (EPod c) (\<lambda>r. run E (k r))"
| "run E (ListPVCs ns k) w = after_call (env_list_pvcs E ns w) (EListPVCs ns) (\<lambda>r. run E (k r))"
| "run E (ListPVs k) w = after_call (env_list_pvs E w) EListPVs (\<lambda>r. run E (k r))"
| "run E (ListSCs k) w = after_call (env_list_scs E w) EListSCs (\<lambda>r. run E (k r))"
| "run E (ListPods ns k) w = after_call (env_list_pods E ns w) (EListPods ns) (\<lambda>r. run E (k r))"
| "run E (MountQuery q k) w = after_call (env_mount_query E q w) (EMountQuery q) (\<lambda>r. run E (k r))"
| "run E (ReadDir d k) w = after_call (env_read_dir E d w) (EReadDir d) (\<lambda>r. run E (k r))"
| "run E (Lstat d k) w = after_call (env_lstat E d w) (ELstat d) (\<lambda>r. run E (k r))"
| "run E (Stat d k) w = after_call (env_stat E d w) (EStat d) (\<lambda>r. run E (k r))"
| "run E (Getenv n k) w = after_call (env_getenv E n w) (EGetenv n) (\<lambda>r. run E (k r))"
| "run E (TcpProbe a t k) w = after_call (env_tcp_probe E a t w) (ETcpProbe a t) (\<lambda>r. run E (k r))"
| "run E (StatFS p k) w = after_call (env_statfs E p w) (EStatFS p) (\<lambda>r. run E (k r))"

lemma exec_after_call:
  assumes "\<And>r tr out. exec (k r) tr out \<Longrightarrow> exec p (ev r # tr) out"
    and "\<And>r w. exec (k r) (fst (snd (rest r w))) (fst (rest r w))"
  shows "exec p (fst (snd (after_call answer ev rest))) (fst (after_call answer ev rest))"
  using assms by (simp add: after_call_def split: prod.split) (metis fst_conv snd_conv)

text \<open>Every program comes to an outcome under every environment, and the run is one of its traces.\<close>

lemma run_exec: "exec p (fst (snd (run E p w))) (fst (run E p w))"
proof (induction p arbitrary: w)
  case (Return a)
  then show ?case by (simp add: prog_simps)
next
  case Panic
  then show ?case by (simp add: prog_simps)
qed (unfold run.simps, (rule exec_after_call, erule exec.intros, simp)+)

lemma run_execD: "run E p w = (out, tr, w') \<Longrightarrow> exec p tr out"
  using run_exec [of p E w] by simp

text \<open>A result that is only converted does not change what is called.\<close>

fun map_result :: "('a \<Rightarrow> 'b) \<Rightarrow> 'a outcome \<Rightarrow> 'b outcome" where
  "map_result f (Done a) = Done (f a)"
| "map_result f Panicked = Panicked"

lemma after_call_result:
  "(\<And>r w. rest' r w = apfst (map_result f) (rest r w)) \<Longrightarrow>
     after_call answer ev rest' = apfst (map_result f) (after_call answer ev rest)"
  by (simp add: after_call_def split: prod.split)

lemma run_result: "run E (bind p (\<lambda>a. Return (f a))) w = apfst (map_result f) (run E p w)"
proof (induction p arbitrary: w)
  case (Return a)
  then show ?case by simp
next
  case Panic
  then show ?case by simp
qed (unfold bind.simps run.simps, (rule after_call_result, simp)+)

end
