(* ===== verification/Utils.thy ===== *)
theory Utils
  imports Driver Param_Scan Effects
begin

text \<open>
  \<^verbatim>\<open>pkg/nfsexport/utils.go\<close> besides \<^verbatim>\<open>VolumeLocks\<close>: endpoint parsing, the logging interceptor,
  helpers on string maps, and the conditional \<^verbatim>\<open>chmod\<close>.
\<close>

section \<open>Endpoints\<close>

definition ParseEndpoint :: "string \<Rightarrow> go_error + string \<times> string" where
  "ParseEndpoint ep =
     (if has_prefix (to_lower ep) ''unix://'' \<or> has_prefix (to_lower ep) ''tcp://'' then
        (let s = split_n2 ep ''://'' in
         if s ! 1 \<noteq> [] then Inr (s ! 0, s ! 1)
         else Inl (errorf (''Invalid endpoint: '' @ ep)))
      else Inl (errorf (''Invalid endpoint: '' @ ep)))"

section \<open>Logging of calls\<close>

definition getLogLevel :: "string \<Rightarrow> int" where
  "getLogLevel method =
     (if method = ''/csi.v1.Identity/Probe'' \<or>
         method = ''/csi.v1.Node/NodeGetCapabilities'' \<or>
         method = ''/csi.v1.Node/NodeGetVolumeStats'' then 8 else 2)"

datatype log_line = LogV int string string | LogError go_error

text \<open>
  The interceptor around every handler: the handler's answer, and the lines logged.  Requests and
  responses are printed by \<^verbatim>\<open>protosanitizer.StripSecrets\<close>, a parameter.
\<close>

definition logGRPC ::
  "('req \<Rightarrow> string) \<Rightarrow> ('resp \<Rightarrow> string) \<Rightarrow> string \<Rightarrow> ('req \<Rightarrow> 'resp \<times> go_error option) \<Rightarrow> 'req \<Rightarrow>
     ('resp \<times> go_error option) \<times> log_line list" where
  "logGRPC strip_req strip_resp method handler req =
     (let level = getLogLevel method;
          before = [LogV level ''GRPC call: %s'' method, LogV level ''GRPC request: %s'' (strip_req req)];
          (resp, err) = handler req
      in case err of
           Some e \<Rightarrow> ((resp, err), before @ [LogError e])
         | None \<Rightarrow> ((resp, err), before @ [LogV level ''GRPC response: %s'' (strip_resp resp)]))"

section \<open>String maps\<close>

fun getMountOptions :: "gomap \<Rightarrow> string" where
  "getMountOptions [] = []"
| "getMountOptions ((k, v) # context) =
     (if to_lower k = mountOptionsField then v else getMountOptions context)"

definition setKeyValueInMap :: "gomap option \<Rightarrow> string \<Rightarrow> string \<Rightarrow> gomap option" where
  "setKeyValueInMap m key value =
     (case m of
        None \<Rightarrow> None
      | Some m \<Rightarrow>
          (case find (\<lambda>(k, v). equal_fold k key) m of
             Some (k, v) \<Rightarrow> Some (AList.update k value m)
           | None \<Rightarrow> Some (AList.update key value m)))"

fun replaceWithMap :: "string \<Rightarrow> gomap \<Rightarrow> string" where
  "replaceWithMap str [] = str"
| "replaceWithMap str ((k, v) # m) =
     replaceWithMap (if k \<noteq> [] then replace_all str k v else str) m"

section \<open>Files and addresses\<close>

definition ModePerm :: "32 word" where
  "ModePerm = 511"

text \<open>
  What \<^verbatim>\<open>os.Chmod\<close> passes to the system: the nine permission bits, and the set-user-ID, set-group-ID
  and sticky bits from where \<^verbatim>\<open>os.FileMode\<close> keeps them (bits 23, 22 and 20); all other bits are dropped.
\<close>

definition syscallMode :: "32 word \<Rightarrow> 32 word" where
  "syscallMode m = (m AND ModePerm) OR (if bit m 23 then 2048 else 0) OR (if bit m 22 then 1024 else 0)
     OR (if bit m 20 then 512 else 0)"

definition chmodIfPermissionMismatch :: "string \<Rightarrow> 32 word \<Rightarrow> go_error option prog" where
  "chmodIfPermissionMismatch targetPath mode =
     Lstat targetPath (\<lambda>(info, err).
       case err of
         Some e \<Rightarrow> Return (Some e)
       | None \<Rightarrow>
           let perm = info_Mode info AND ModePerm
           in if perm \<noteq> mode then
                Act (Chmod targetPath mode) (\<lambda>err. case err of Some e \<Rightarrow> Return (Some e) | None \<Rightarrow> Return None)
              else Return None)"

text \<open>\<^verbatim>\<open>netutil.IsIPv6String\<close> and \<^verbatim>\<open>mount.IsCorruptedMnt\<close> are parameters.\<close>

definition getServerFromSource :: "(string \<Rightarrow> bool) \<Rightarrow> string \<Rightarrow> string" where
  "getServerFromSource isIPv6 server = (if isIPv6 server then ''['' @ server @ '']'' else server)"

definition IsCorruptedDir :: "(go_error \<Rightarrow> bool) \<Rightarrow> string \<Rightarrow> bool prog" where
  "IsCorruptedDir isCorruptedMnt dir =
     MountQuery (PathExists dir) (\<lambda>(exists, pathErr).
       case pathErr of None \<Rightarrow> Return False | Some e \<Rightarrow> Return (isCorruptedMnt e))"

section \<open>Lemmas\<close>

lemma syscallMode_Perm: "syscallMode m AND ModePerm = m AND ModePerm"
  by (simp add: syscallMode_def ModePerm_def bit.conj_disj_distrib2 and.assoc)

lemma exec_chmod:
  "exec (chmodIfPermissionMismatch p mode) tr (Done r) \<longleftrightarrow>
     (\<exists>info e. tr = [ELstat p (info, Some e)] \<and> r = Some e) \<or>
     (\<exists>info. tr = [ELstat p (info, None)] \<and> info_Mode info AND ModePerm = mode \<and> r = None) \<or>
     (\<exists>info. tr = [ELstat p (info, None), EAct (Chmod p mode) r] \<and> info_Mode info AND ModePerm \<noteq> mode)"
  (is "?run \<longleftrightarrow> ?spec")
proof
  show "?run \<Longrightarrow> ?spec"
    by (auto simp: chmodIfPermissionMismatch_def prog_simps Let_def split: option.splits if_splits)
  show "?spec \<Longrightarrow> ?run"
    by (auto simp: chmodIfPermissionMismatch_def prog_simps Let_def split: option.split if_splits)
qed

lemma chmod_emits:
  "(\<And>r. P (ELstat p r)) \<Longrightarrow> (\<And>r. P (EAct (Chmod p mode) r)) \<Longrightarrow>
     emits P (chmodIfPermissionMismatch p mode)"
  by (auto simp: chmodIfPermissionMismatch_def Let_def split: option.split)

lemma chmod_panic_free: "panic_free C (chmodIfPermissionMismatch p mode)"
  by (auto simp: chmodIfPermissionMismatch_def Let_def split: option.split)

lemma find_fold_None:
  "find (\<lambda>(k, v). equal_fold k key) m = None \<longleftrightarrow> to_lower key \<notin> set (lower_keys m)"
  by (induction m) (auto simp: equal_fold_def)

lemma find_fold_Some:
  "find (\<lambda>(k, v). equal_fold k key) m = Some (k, v) \<Longrightarrow> equal_fold k key \<and> (k, v) \<in> set m"
  by (induction m) (auto split: if_splits)

lemma getMountOptions_param_value:
  "distinct (lower_keys m) \<Longrightarrow> getMountOptions m = param_value mountOptionsField m []"
  by (induction m rule: getMountOptions.induct) (auto simp: param_value_absent)

lemma replaceWithMap_absent:
  "\<forall>(k, v) \<in> set m. k \<noteq> [] \<longrightarrow> \<not> contains str k \<Longrightarrow> replaceWithMap str m = str"
  by (induction m) (auto simp: replace_all_absent)

end
