(* ===== verification/K8utils.thy ===== *)
theory K8utils
  imports Go_Strings Effects
begin

text \<open>
  \<^verbatim>\<open>pkg/nfsexport/k8utils.go\<close>: the conditions the driver polls, the waits built from them, and the
  searches for a volume and a claim.  \<^verbatim>\<open>wait.PollImmediate\<close> is library code: it is the parameter
  \<open>poll\<close> of the waits, and \<^verbatim>\<open>poll_contract\<close> states what its documentation promises (the condition
  is evaluated at once and then again until it holds, fails or the time is up).
\<close>

section \<open>Time and polling\<close>

definition Second :: int where
  "Second = 10 ^ 9"

definition Minute :: int where
  "Minute = 60 * Second"

type_synonym condition_func = "(bool \<times> go_error option) prog"

type_synonym poller = "int \<Rightarrow> int \<Rightarrow> condition_func \<Rightarrow> go_error option prog"

definition ErrWaitTimeout :: go_error where
  "ErrWaitTimeout = errorf ''timed out waiting for the condition''"

definition ErrPodCompleted :: go_error where
  "ErrPodCompleted = errorf ''pod ran to completion''"

definition poll_verdict :: "bool \<Rightarrow> go_error option \<Rightarrow> go_error option" where
  "poll_verdict ok err =
     (case err of Some e \<Rightarrow> Some e | None \<Rightarrow> if ok then None else Some ErrWaitTimeout)"

definition poll_contract :: "poller \<Rightarrow> bool" where
  "poll_contract poll \<longleftrightarrow>
     (\<forall>interval timeout cond tr out. exec (poll interval timeout cond) tr out \<longrightarrow>
        (\<exists>rounds final. tr = concat rounds @ final \<and>
           (\<forall>t \<in> set rounds. exec cond t (Done (False, None))) \<and>
           (case out of
              Panicked \<Rightarrow> exec cond final Panicked
            | Done r \<Rightarrow> \<exists>ok err. exec cond final (Done (ok, err)) \<and> r = poll_verdict ok err)))"

lemma poll_contractE:
  assumes "poll_contract poll" and "exec (poll i t cond) tr (Done r)"
  obtains rounds final ok err where "tr = concat rounds @ final"
    and "\<forall>u \<in> set rounds. exec cond u (Done (False, None))"
    and "exec cond final (Done (ok, err))" and "r = poll_verdict ok err"
  using assms unfolding poll_contract_def by fastforce

text \<open>What a condition's checks can do bounds what the whole wait can do.\<close>

lemma poll_emits:
  assumes "poll_contract poll" and "emits P cond"
  shows "emits P (poll i t cond)"
proof -
  have "list_all P tr" if ex: "exec (poll i t cond) tr out" for tr out
  proof -
    from assms(1) ex obtain rounds final where tr: "tr = concat rounds @ final"
      and rounds: "\<forall>u \<in> set rounds. exec cond u (Done (False, None))"
      and verdict: "case out of Panicked \<Rightarrow> exec cond final Panicked
        | Done r \<Rightarrow> \<exists>ok err. exec cond final (Done (ok, err)) \<and> r = poll_verdict ok err"
      unfolding poll_contract_def by blast
    from verdict have final: "\<exists>o'. exec cond final o'" by (cases out) auto
    from rounds assms(2) have "\<forall>u \<in> set rounds. list_all P u" by (blast dest: emits_exec)
    moreover from final assms(2) have "list_all P final" by (blast dest: emits_exec)
    ultimately show ?thesis by (auto simp: tr list_all_iff)
  qed
  then show ?thesis by (simp add: emits_iff)
qed

lemma poll_panic_free:
  assumes "poll_contract poll" and "panic_free C cond"
  shows "panic_free C (poll i t cond)"
proof -
  have "\<not> exec (poll i t cond) tr Panicked" if "list_all C tr" for tr
  proof
    assume "exec (poll i t cond) tr Panicked"
    with assms(1) obtain rounds final where "tr = concat rounds @ final" and "exec cond final Panicked"
      unfolding poll_contract_def by fastforce
    with that have "list_all C final" and "exec cond final Panicked" by simp_all
    with assms(2) show False by (simp add: panic_free_iff)
  qed
  then show ?thesis by (simp add: panic_free_iff)
qed

text \<open>
  A poller that meets the contract: a first check and one more per elapsed interval.
\<close>

fun poll_tries :: "nat \<Rightarrow> condition_func \<Rightarrow> go_error option prog" where
  "poll_tries 0 cond = bind cond (\<lambda>(ok, err). Return (poll_verdict ok err))"
| "poll_tries (Suc n) cond = bind cond (\<lambda>(ok, err).
     if ok \<or> err \<noteq> None then Return (poll_verdict ok err) else poll_tries n cond)"

definition poll_immediate :: poller where
  "poll_immediate interval timeout cond = poll_tries (nat (timeout div interval)) cond"

lemma poll_tries_contract:
  "exec (poll_tries n cond) tr out \<Longrightarrow>
     \<exists>rounds final. tr = concat rounds @ final \<and>
       (\<forall>t \<in> set rounds. exec cond t (Done (False, None))) \<and>
       (case out of
          Panicked \<Rightarrow> exec cond final Panicked
        | Done r \<Rightarrow> \<exists>ok err. exec cond final (Done (ok, err)) \<and> r = poll_verdict ok err)"
proof (induction n arbitrary: tr)
  case 0
  then show ?case
    by - (rule exI [of _ "[]"], rule exI [of _ tr], fastforce simp: exec_bind prog_simps)
next
  case (Suc n)
  from Suc.prems consider (panic) "out = Panicked" "exec cond tr Panicked"
    | (check) tr1 ok err tr2 where "tr = tr1 @ tr2" "exec cond tr1 (Done (ok, err))"
        "exec (if ok \<or> err \<noteq> None then Return (poll_verdict ok err) else poll_tries n cond) tr2 out"
    by (auto simp: exec_bind)
  then show ?case
  proof cases
    case panic
    then show ?thesis by - (rule exI [of _ "[]"], rule exI [of _ tr], simp)
  next
    case check
    show ?thesis
    proof (cases "ok \<or> err \<noteq> None")
      case True
      with check have "tr2 = []" and "out = Done (poll_verdict ok err)"
        by (simp_all add: prog_simps)
      with check show ?thesis by - (rule exI [of _ "[]"], rule exI [of _ tr], auto)
    next
      case False
      with check Suc.IH [of tr2] obtain rounds final where "tr2 = concat rounds @ final"
        and "\<forall>t \<in> set rounds. exec cond t (Done (False, None))"
        and "case out of Panicked \<Rightarrow> exec cond final Panicked
             | Done r \<Rightarrow> \<exists>ok err. exec cond final (Done (ok, err)) \<and> r = poll_verdict ok err"
        by auto
      with check False show ?thesis
        by - (rule exI [of _ "tr1 # rounds"], rule exI [of _ final], simp)
    qed
  qed
qed

lemma poll_immediate_contract: "poll_contract poll_immediate"
  by (auto simp: poll_contract_def poll_immediate_def dest: poll_tries_contract)

section \<open>The conditions\<close>

definition isPodRunning :: "string \<Rightarrow> string \<Rightarrow> condition_func" where
  "isPodRunning podName namespace =
     PodCall (GetPod namespace podName) (\<lambda>(pod, err).
       case err of
         Some e \<Rightarrow> Return (False, Some e)
       | None \<Rightarrow> deref pod (\<lambda>pod.
           case pod_Phase pod of
             PodRunning \<Rightarrow> Return (True, None)
           | PodFailed \<Rightarrow> Return (False, Some ErrPodCompleted)
           | PodSucceeded \<Rightarrow> Return (False, Some ErrPodCompleted)
           | _ \<Rightarrow> Return (False, None)))"

definition isPodNotRunning :: "string \<Rightarrow> string \<Rightarrow> condition_func" where
  "isPodNotRunning podName namespace =
     PodCall (GetPod namespace podName) (\<lambda>(pod, err).
       case err of
         Some e \<Rightarrow> Return (True, Some e)
       | None \<Rightarrow> deref pod (\<lambda>pod.
           case pod_Phase pod of
             PodRunning \<Rightarrow> Return (False, None)
           | PodFailed \<Rightarrow> Return (True, Some ErrPodCompleted)
           | PodSucceeded \<Rightarrow> Return (True, Some ErrPodCompleted)
           | _ \<Rightarrow> Return (True, None)))"

definition isTcpReady :: "string \<Rightarrow> nat \<Rightarrow> condition_func" where
  "isTcpReady host port =
     TcpProbe (JoinHostPort host (itoa port)) Second (\<lambda>(result, err).
       case err of
         Some e \<Rightarrow> Return (False, Some e)
       | None \<Rightarrow> if result = ProbeSuccess then Return (True, None) else Return (False, None))"

definition waitForPodRunning :: "poller \<Rightarrow> string \<Rightarrow> string \<Rightarrow> int \<Rightarrow> go_error option prog" where
  "waitForPodRunning poll namespace podName timeout =
     poll Second timeout (isPodRunning podName namespace)"

definition waitForPodNotRunning :: "poller \<Rightarrow> string \<Rightarrow> string \<Rightarrow> int \<Rightarrow> go_error option prog" where
  "waitForPodNotRunning poll namespace podName timeout =
     poll Second timeout (isPodNotRunning podName namespace)"

definition waitForTcpReady :: "poller \<Rightarrow> string \<Rightarrow> nat \<Rightarrow> int \<Rightarrow> go_error option prog" where
  "waitForTcpReady poll host port timeout = poll Second timeout (isTcpReady host port)"

text \<open>
  The contract every condition shares: one call decides a check, and a check that holds is
  evidence of the state waited for.  A wait that ends without error then ends with that evidence.
\<close>

locale polled_condition =
  fixes cond :: condition_func
    and evidence :: "event \<Rightarrow> bool"
    and allowed :: "event \<Rightarrow> bool"
  assumes check_evidence: "exec cond tr (Done (True, None)) \<Longrightarrow> \<exists>e. tr = [e] \<and> evidence e"
    and check_allowed: "emits allowed cond"
    and check_answered: "panic_free answered cond"
begin

lemma wait_ok:
  assumes "poll_contract poll" and "exec (poll i t cond) tr (Done None)"
  shows "\<exists>tr' e. tr = tr' @ [e] \<and> evidence e"
proof -
  from assms obtain rounds final ok err where tr: "tr = concat rounds @ final"
    and final: "exec cond final (Done (ok, err))" and verdict: "None = poll_verdict ok err"
    by (elim poll_contractE)
  from verdict have "ok \<and> err = None" by (auto simp: poll_verdict_def split: option.splits if_splits)
  with final obtain e where "final = [e]" and "evidence e" by (auto dest: check_evidence)
  with tr show ?thesis by auto
qed

lemma wait_emits: "poll_contract poll \<Longrightarrow> (\<And>e. allowed e \<Longrightarrow> P e) \<Longrightarrow> emits P (poll i t cond)"
  by (rule poll_emits) (auto intro: emits_mono [OF check_allowed])

lemma wait_panic_free: "poll_contract poll \<Longrightarrow> panic_free answered (poll i t cond)"
  by (rule poll_panic_free [OF _ check_answered])

end

fun saw_running_pod :: "string \<Rightarrow> string \<Rightarrow> event \<Rightarrow> bool" where
  "saw_running_pod namespace podName (EPod c (Some p, None)) =
     (c = GetPod namespace podName \<and> pod_Phase p = PodRunning)"
| "saw_running_pod namespace podName _ = False"

fun saw_stopped_pod :: "string \<Rightarrow> string \<Rightarrow> event \<Rightarrow> bool" where
  "saw_stopped_pod namespace podName (EPod c (Some p, None)) =
     (c = GetPod namespace podName \<and> pod_Phase p \<noteq> PodRunning)"
| "saw_stopped_pod namespace podName _ = False"

fun saw_open_port :: "string \<Rightarrow> nat \<Rightarrow> event \<Rightarrow> bool" where
  "saw_open_port host port (ETcpProbe addr t (res, err)) =
     (addr = JoinHostPort host (itoa port) \<and> res = ProbeSuccess \<and> err = None)"
| "saw_open_port host port _ = False"

fun is_pod_read :: "event \<Rightarrow> bool" where
  "is_pod_read (EPod (GetPod namespace podName) r) = True"
| "is_pod_read _ = False"

fun is_tcp_probe :: "event \<Rightarrow> bool" where
  "is_tcp_probe (ETcpProbe a t r) = True"
| "is_tcp_probe _ = False"

interpretation running: polled_condition
  "isPodRunning podName namespace" "saw_running_pod namespace podName" is_pod_read
  for podName namespace
  by unfold_locales
    (auto simp: isPodRunning_def prog_simps deref_def split: option.splits pod_phase.splits)

interpretation stopped: polled_condition
  "isPodNotRunning podName namespace" "saw_stopped_pod namespace podName" is_pod_read
  for podName namespace
  by unfold_locales
    (auto simp: isPodNotRunning_def prog_simps deref_def split: option.splits pod_phase.splits)

interpretation reachable: polled_condition
  "isTcpReady host port" "saw_open_port host port" is_tcp_probe
  for host port
  by unfold_locales
    (auto simp: isTcpReady_def prog_simps split: option.splits if_splits)


section \<open>Searching volumes and claims\<close>

definition handles_volume :: "string \<Rightarrow> pv \<Rightarrow> bool" where
  "handles_volume vid pv = (case pv_CSI pv of None \<Rightarrow> False | Some csi \<Rightarrow> csi_VolumeHandle csi = vid)"

definition getPvById :: "string \<Rightarrow> (go_error + pv) prog" where
  "getPvById vid =
     ListPVs (\<lambda>(pvList, err).
       case err of
         Some _ \<Rightarrow> Return (Inl (errorf ''Unable to get PV List''))
       | None \<Rightarrow> deref pvList (\<lambda>items.
           case find (handles_volume vid) items of
             Some pv \<Rightarrow> Return (Inr pv)
           | None \<Rightarrow> Return (Inl (errorf (''Unable find the PVC with CSI ID: '' @ vid)))))"

definition zero_meta :: object_meta where
  "zero_meta = \<lparr>meta_Name = [], meta_UID = [], meta_Labels = [], meta_Annotations = None,
                meta_OwnerReferences = []\<rparr>"

definition zero_pvc :: pvc where
  "zero_pvc = \<lparr>pvc_meta = zero_meta, pvc_StorageClassName = None, pvc_AccessModes = [],
               pvc_StorageRequest = None\<rparr>"

text \<open>
  The loop of \<^verbatim>\<open>getPVCByUidStr\<close> assigns its iteration variable, declared before the loop, and
  leaves it at a match: after the loop the variable holds the match, or else the last item.
\<close>

fun pvc_loop :: "pvc \<Rightarrow> pvc list \<Rightarrow> string \<Rightarrow> pvc" where
  "pvc_loop cur [] uid = cur"
| "pvc_loop cur (p # ps) uid = (if meta_UID (pvc_meta p) = uid then p else pvc_loop p ps uid)"

definition getPVCByUidStr :: "string \<Rightarrow> (go_error + pvc) prog" where
  "getPVCByUidStr uid =
     ListPVCs [] (\<lambda>(pvcList, err).
       case err of
         Some _ \<Rightarrow> Return (Inl (errorf ''Unable to get PVC List''))
       | None \<Rightarrow> deref pvcList (\<lambda>items.
           let pvc = pvc_loop zero_pvc items uid
           in if meta_Name (pvc_meta pvc) = [] then
                Return (Inl (errorf (''Unable find the PVC with UID: '' @ uid)))
              else Return (Inr pvc)))"

text \<open>A pointer to a fresh copy of a value.\<close>

definition Ptr :: "'a \<Rightarrow> 'a option" where
  [simp]: "Ptr v = Some v"

definition dirExists :: "string \<Rightarrow> bool prog" where
  "dirExists dirname =
     Stat dirname (\<lambda>(info, err). if err = None \<and> info_IsDir info then Return True else Return False)"

lemma exec_getPvById_trace: "exec (getPvById vid) tr out \<Longrightarrow> \<exists>r. tr = [EListPVs r]"
  by (auto simp: getPvById_def prog_simps exec_deref split: option.splits)

lemma exec_getPvById_Inr:
  "exec (getPvById vid) tr (Done (Inr pv)) \<longleftrightarrow>
     (\<exists>items. tr = [EListPVs (Some items, None)] \<and> find (handles_volume vid) items = Some pv)"
  (is "?found \<longleftrightarrow> ?listed")
proof
  show "?found \<Longrightarrow> ?listed"
    by (auto simp: getPvById_def prog_simps exec_deref split: option.splits)
  show "?listed \<Longrightarrow> ?found"
    by (auto simp: getPvById_def prog_simps)
qed

lemma getPvById_found:
  assumes "exec (getPvById vid) tr (Done (Inr pv))"
  shows "handles_volume vid pv" and "\<exists>csi. pv_CSI pv = Some csi \<and> csi_VolumeHandle csi = vid"
  using assms
  by (auto simp: exec_getPvById_Inr find_Some_iff handles_volume_def split: option.splits)

lemma getPvById_emits: "(\<And>r. P (EListPVs r)) \<Longrightarrow> emits P (getPvById vid)"
  by (auto simp: getPvById_def deref_def split: option.splits)

lemma getPvById_answered: "panic_free answered (getPvById vid)"
  by (auto simp: getPvById_def deref_def split: option.splits)

lemma pvc_loop_match:
  "(\<exists>p \<in> set ps. meta_UID (pvc_meta p) = uid) \<Longrightarrow>
     pvc_loop cur ps uid \<in> set ps \<and> meta_UID (pvc_meta (pvc_loop cur ps uid)) = uid"
  by (induction ps arbitrary: cur) auto

lemma pvc_loop_no_match:
  "\<forall>p \<in> set ps. meta_UID (pvc_meta p) \<noteq> uid \<Longrightarrow> pvc_loop cur ps uid = last (cur # ps)"
  by (induction ps arbitrary: cur) auto

lemma exec_getPVCByUidStr_Inr:
  "exec (getPVCByUidStr uid) tr (Done (Inr pvc)) \<longleftrightarrow>
     (\<exists>items. tr = [EListPVCs [] (Some items, None)] \<and> pvc = pvc_loop zero_pvc items uid \<and>
        meta_Name (pvc_meta pvc) \<noteq> [])"
  (is "?found \<longleftrightarrow> ?listed")
proof
  show "?found \<Longrightarrow> ?listed"
    by (auto simp: getPVCByUidStr_def prog_simps exec_deref Let_def split: option.splits if_splits)
  show "?listed \<Longrightarrow> ?found"
    by (auto simp: getPVCByUidStr_def prog_simps Let_def)
qed

section \<open>Properties\<close>

text \<open>
  A wait for a pod that ends without error ends with a read of that very pod in phase
  Running, whatever the cluster answered before; the library's polling is any poller that meets
  its documented contract.
\<close>

theorem wait_for_pod_running_sound:
  assumes "poll_contract poll"
    and "exec (waitForPodRunning poll namespace podName timeout) tr (Done None)"
  shows "\<exists>tr' p. tr = tr' @ [EPod (GetPod namespace podName) (Some p, None)] \<and> pod_Phase p = PodRunning"
proof -
  from running.wait_ok [OF assms(1) assms(2) [unfolded waitForPodRunning_def]]
  obtain tr' e where "tr = tr' @ [e]" and "saw_running_pod namespace podName e" by blast
  then show ?thesis by (cases "(namespace, podName, e)" rule: saw_running_pod.cases) auto
qed

theorem wait_for_pod_running_sound_witness:
  "\<exists>p. exec (waitForPodRunning poll_immediate ''ns'' ''v-0'' 0)
         [EPod (GetPod ''ns'' ''v-0'') (Some p, None)] (Done None) \<and>
       (\<exists>tr' q. [EPod (GetPod ''ns'' ''v-0'') (Some p, None)] =
          tr' @ [EPod (GetPod ''ns'' ''v-0'') (Some q, None)] \<and> pod_Phase q = PodRunning)"
proof -
  let ?p = "\<lparr>pod_meta = zero_meta, pod_Volumes = [], pod_Phase = PodRunning\<rparr>"
  have ex: "exec (waitForPodRunning poll_immediate ''ns'' ''v-0'' 0)
      [EPod (GetPod ''ns'' ''v-0'') (Some ?p, None)] (Done None)"
    by (simp add: waitForPodRunning_def poll_immediate_def isPodRunning_def prog_simps poll_verdict_def)
  from wait_for_pod_running_sound [OF poll_immediate_contract ex] ex show ?thesis by blast
qed

end
