(* ===== verification/Node_Publish.thy ===== *)
theory Node_Publish
  imports Utils K8utils
begin

text \<open>
  \<^verbatim>\<open>NodePublishVolume\<close> of \<^verbatim>\<open>pkg/nfsexport/nodeserver.go\<close>, cut into the phases of its body: reading
  the volume context, getting or creating the NFS stateful set, waiting for its pod, preparing the
  target, finding the data volume on this node, and mounting it (locally by a bind mount, remotely
  over NFS through the service).
\<close>

section \<open>The request and its parameters\<close>

text \<open>\<open>cap_MountFlags\<close> is \<^verbatim>\<open>GetMount().GetMountFlags()\<close>, empty when the access type is not a mount.\<close>

record volume_capability =
  cap_MountFlags :: "string list"

record publish_request =
  pub_VolumeCapability :: "volume_capability option"
  pub_VolumeId :: string
  pub_TargetPath :: string
  pub_Readonly :: bool
  pub_VolumeContext :: gomap

record publish_params =
  pp_dataPVCName :: string
  pp_dataNamespace :: string
  pp_nfsPodImage :: string
  pp_nfsHostsAllow :: string
  pp_appPodName :: string
  pp_appPodNamespace :: string
  pp_mountOptions :: "string list"
  pp_mountPermissions :: "64 word"

definition publish_defaults :: "driver \<Rightarrow> volume_capability \<Rightarrow> bool \<Rightarrow> publish_params" where
  "publish_defaults drv volCap readonly =
     \<lparr>pp_dataPVCName = [], pp_dataNamespace = [], pp_nfsPodImage = [], pp_nfsHostsAllow = [],
      pp_appPodName = [], pp_appPodNamespace = [],
      pp_mountOptions = (if readonly then cap_MountFlags volCap @ [''ro''] else cap_MountFlags volCap),
      pp_mountPermissions = drv_mountPermissions drv\<rparr>"

text \<open>
  One iteration of the loop over the volume context.  The message of the error is a format string
  (the value is spliced into it and it is then formatted without arguments).
\<close>

definition publish_step :: "string \<Rightarrow> string \<Rightarrow> publish_params \<Rightarrow> status + publish_params" where
  "publish_step k v p =
     (let key = to_lower k in
      if key = podNameKey then Inr (p\<lparr>pp_appPodName := v\<rparr>)
      else if key = podNamespaceKey then Inr (p\<lparr>pp_appPodNamespace := v\<rparr>)
      else if key = paramDataVolumeClaim then Inr (p\<lparr>pp_dataPVCName := v\<rparr>)
      else if key = paramDataNamespace then Inr (p\<lparr>pp_dataNamespace := v\<rparr>)
      else if key = paramNfsServerImage then Inr (p\<lparr>pp_nfsPodImage := v\<rparr>)
      else if key = paramNfsHostsAllow then Inr (p\<lparr>pp_nfsHostsAllow := v\<rparr>)
      else if key = mountOptionsField then
        (if v \<noteq> [] then Inr (p\<lparr>pp_mountOptions := pp_mountOptions p @ [v]\<rparr>) else Inr p)
      else if key = mountPermissionsField then
        (if v \<noteq> [] then
           (case ParseUint_8_32 v of
              Inl _ \<Rightarrow> Inl (Status InvalidArgument (Fmt (''invalid mountPermissions '' @ v) []))
            | Inr w \<Rightarrow> Inr (p\<lparr>pp_mountPermissions := w\<rparr>))
         else Inr p)
      else Inr p)"

definition defaultNfsImage :: string where
  "defaultNfsImage = ''daocloud.io/piraeus/nfs-ganesha:latest''"

section \<open>The objects it creates\<close>

definition idLabel :: string where
  "idLabel = ''nfs-export.csi.k8s.io/id''"

definition pvc_owner :: "string \<Rightarrow> string \<Rightarrow> owner_reference" where
  "pvc_owner dataPVCName dataPVCUID =
     \<lparr>owner_APIVersion = ''v1'', owner_Kind = ''PersistentVolumeClaim'',
      owner_Name = dataPVCName, owner_UID = dataPVCUID\<rparr>"

definition nfsMeta :: "string \<Rightarrow> string \<Rightarrow> string \<Rightarrow> object_meta" where
  "nfsMeta volumeID dataPVCName dataPVCUID =
     \<lparr>meta_Name = volumeID, meta_UID = [], meta_Labels = [(idLabel, volumeID)],
      meta_Annotations = None, meta_OwnerReferences = [pvc_owner dataPVCName dataPVCUID]\<rparr>"

definition nfsContainer :: "string \<Rightarrow> string \<Rightarrow> container" where
  "nfsContainer nfsPodImage nfsHostsAllow =
     \<lparr>ctr_Name = ''export'',
      ctr_Image = nfsPodImage,
      ctr_ImagePullPolicy = PullAlways,
      ctr_AddCapabilities = [''SYS_ADMIN'', ''SETPCAP'', ''DAC_READ_SEARCH''],
      ctr_Env = [\<lparr>env_Name = ''HOSTS_ALLOW'', env_Value = nfsHostsAllow\<rparr>],
      ctr_Ports =
        [\<lparr>cport_Name = ''nfs'', cport_Protocol = ProtocolTCP, cport_ContainerPort = 2049\<rparr>,
         \<lparr>cport_Name = ''rpc-tcp'', cport_Protocol = ProtocolTCP, cport_ContainerPort = 111\<rparr>,
         \<lparr>cport_Name = ''rpc-udp'', cport_Protocol = ProtocolUDP, cport_ContainerPort = 111\<rparr>],
      ctr_ReadinessProbe =
        \<lparr>probe_PortName = ''nfs'', probe_InitialDelaySeconds = 1, probe_PeriodSeconds = 1,
         probe_SuccessThreshold = 3\<rparr>,
      ctr_VolumeMounts = [\<lparr>vm_Name = ''data'', vm_MountPath = ''/export''\<rparr>]\<rparr>"

definition nfsSTSDef :: "string \<Rightarrow> string \<Rightarrow> string \<Rightarrow> string \<Rightarrow> string \<Rightarrow> statefulset" where
  "nfsSTSDef volumeID dataPVCName dataPVCUID nfsPodImage nfsHostsAllow =
     \<lparr>sts_meta = nfsMeta volumeID dataPVCName dataPVCUID,
      sts_Replicas = Ptr 1,
      sts_UpdateStrategy = OnDeleteStrategy,
      sts_ServiceName = volumeID,
      sts_MatchLabels = [(idLabel, volumeID)],
      sts_Template =
        \<lparr>tmpl_Labels = [(idLabel, volumeID)],
         tmpl_Spec =
           \<lparr>spec_RestartPolicy = RestartPolicyAlways,
            spec_TerminationGracePeriodSeconds = Ptr 30,
            spec_Containers = [nfsContainer nfsPodImage nfsHostsAllow],
            spec_Volumes = [\<lparr>vol_Name = ''data'', vol_ClaimName = Some dataPVCName\<rparr>]\<rparr>\<rparr>\<rparr>"

definition nfsSVCDef :: "string \<Rightarrow> string \<Rightarrow> string \<Rightarrow> service" where
  "nfsSVCDef volumeID dataPVCName dataPVCUID =
     \<lparr>svc_meta = nfsMeta volumeID dataPVCName dataPVCUID,
      svc_Selector = [(idLabel, volumeID)],
      svc_Type = ServiceTypeClusterIP,
      svc_Ports =
        [\<lparr>sport_Name = ''nfs'', sport_Protocol = ProtocolTCP, sport_Port = 2049\<rparr>,
         \<lparr>sport_Name = ''rpc-tcp'', sport_Protocol = ProtocolTCP, sport_Port = 111\<rparr>,
         \<lparr>sport_Name = ''rpc-udp'', sport_Protocol = ProtocolUDP, sport_Port = 111\<rparr>],
      svc_ClusterIP = []\<rparr>"

section \<open>The phases\<close>

definition require_data_pvc :: "string \<Rightarrow> string \<Rightarrow> (status + string) prog" where
  "require_data_pvc dataNamespace dataPVCName =
     PvcCall (GetPVC dataNamespace dataPVCName) (\<lambda>(dataPVC, err).
       case err of
         Some e \<Rightarrow> Return (Inl (Status InvalidArgument (Text (err_text e))))
       | None \<Rightarrow> deref dataPVC (\<lambda>pvc. Return (Inr (meta_UID (pvc_meta pvc)))))"

definition ensure_statefulset :: "string \<Rightarrow> string \<Rightarrow> statefulset \<Rightarrow> (status + unit) prog" where
  "ensure_statefulset dataNamespace nfsSTSName def =
     StsCall (GetSTS dataNamespace nfsSTSName) (\<lambda>(_, err).
       case err of
         None \<Rightarrow> Return (Inr ())
       | Some _ \<Rightarrow> StsCall (CreateSTS dataNamespace def) (\<lambda>(_, err).
           case err of
             None \<Rightarrow> Return (Inr ())
           | Some e \<Rightarrow> Return (Inl (Status Canceled (Text (err_text e))))))"

text \<open>The first read's error is dropped; its pod is dereferenced for the UID all the same.\<close>

definition wait_backend_pod :: "poller \<Rightarrow> string \<Rightarrow> string \<Rightarrow> (status + string) prog" where
  "wait_backend_pod poll dataNamespace nfsPodName =
     PodCall (GetPod dataNamespace nfsPodName) (\<lambda>(nfsPod, _).
       deref nfsPod (\<lambda>nfsPod.
         bind (waitForPodRunning poll dataNamespace nfsPodName (5 * Minute)) (\<lambda>err.
           case err of
             Some e \<Rightarrow> Return (Inl (Status Canceled (Text (err_text e))))
           | None \<Rightarrow> Return (Inr (meta_UID (pod_meta nfsPod))))))"

definition prepare_target :: "string \<Rightarrow> 64 word \<Rightarrow> (status + bool) prog" where
  "prepare_target targetPath mountPermissions =
     MountQuery (IsLikelyNotMountPoint targetPath) (\<lambda>(notMnt, err).
       case err of
         None \<Rightarrow> Return (Inr notMnt)
       | Some e \<Rightarrow>
           if IsNotExist e then
             Act (MkdirAll targetPath (ucast mountPermissions)) (\<lambda>err.
               case err of
                 Some e \<Rightarrow> Return (Inl (Status Internal (Text (err_text e))))
               | None \<Rightarrow> Return (Inr True))
           else Return (Inl (Status Internal (Text (err_text e)))))"

text \<open>
  The \<^verbatim>\<open>break\<close> statements of the loop leave the \<^verbatim>\<open>switch\<close>, not the loop, so a later
  subdirectory overrides an earlier one.
\<close>

definition skippedVolumeDirs :: "string list" where
  "skippedVolumeDirs =
     [''kubernetes.io~secret'', ''kubernetes.io~configmap'', ''kubernetes.io~empty-dir'',
      ''kubernetes.io~downward-api'']"

definition dataMountPoint :: "string \<Rightarrow> string \<Rightarrow> string \<Rightarrow> string" where
  "dataMountPoint podVolumeDir dataPVCUID d =
     (let dataPVMountPoint1 = podVolumeDir @ ''/'' @ d @ ''/pvc-'' @ dataPVCUID;
          dataPVMountPoint2 = dataPVMountPoint1 @ ''/mount''
      in if d = ''kubernetes.io~csi'' then dataPVMountPoint2 else dataPVMountPoint1)"

fun source_loop :: "string \<Rightarrow> string \<Rightarrow> string list \<Rightarrow> string \<Rightarrow> string" where
  "source_loop podVolumeDir dataPVCUID [] source = source"
| "source_loop podVolumeDir dataPVCUID (d # ds) source =
     (if d \<in> set skippedVolumeDirs then source_loop podVolumeDir dataPVCUID ds source
      else source_loop podVolumeDir dataPVCUID ds (dataMountPoint podVolumeDir dataPVCUID d))"

definition podVolumesDir :: "string \<Rightarrow> string \<Rightarrow> string" where
  "podVolumesDir kubeletRoot nfsPodUID = kubeletRoot @ ''/pods/'' @ nfsPodUID @ ''/volumes/''"

text \<open>
  The source, and the value the handler's variable \<^verbatim>\<open>err\<close> holds from here on: the outcome of
  \<^verbatim>\<open>os.ReadDir\<close>, which only a local mount overwrites.
\<close>

definition find_source :: "string \<Rightarrow> string \<Rightarrow> (string \<times> go_error option) prog" where
  "find_source nfsPodUID dataPVCUID =
     Getenv ''KUBELET_ROOT'' (\<lambda>kubeletRoot.
       let podVolumeDir = podVolumesDir kubeletRoot nfsPodUID in
       ReadDir podVolumeDir (\<lambda>(subdirs, err).
         case err of
           Some e \<Rightarrow> Return ([], Some e)
         | None \<Rightarrow> Return (source_loop podVolumeDir dataPVCUID subdirs [], None)))"


definition deletionCostKey :: string where
  "deletionCostKey = ''controller.kubernetes.io/pod-deletion-cost''"

definition maxDeletionCost :: string where
  "maxDeletionCost = ''2147483647''"

text \<open>\<^verbatim>\<open>annotations[key] = value\<close> on a copy of the pod, the nil map replaced by an empty one.\<close>

definition annotate_pod :: "pod \<Rightarrow> pod" where
  "annotate_pod p =
     (let annotations = (case meta_Annotations (pod_meta p) of None \<Rightarrow> [] | Some a \<Rightarrow> a)
      in p\<lparr>pod_meta := (pod_meta p)
             \<lparr>meta_Annotations := Some (AList.update deletionCostKey maxDeletionCost annotations)\<rparr>\<rparr>)"

text \<open>
  The local branch, with the handler's \<^verbatim>\<open>err\<close> as its value.  The error of reading the application
  pod is looked at only after the pod has been dereferenced, and the outcome of the annotation is
  only logged.
\<close>

definition mount_local :: "string \<Rightarrow> string \<Rightarrow> string \<Rightarrow> string \<Rightarrow> go_error option prog" where
  "mount_local source targetPath appPodNamespace appPodName =
     Act (Mount source targetPath [] [''bind'']) (\<lambda>err.
       case err of
         Some e \<Rightarrow> Return (Some e)
       | None \<Rightarrow>
           PodCall (GetPod appPodNamespace appPodName) (\<lambda>(appPod, err).
             deref appPod (\<lambda>appPod.
               case err of
                 Some _ \<Rightarrow> Return None
               | None \<Rightarrow> PodCall (UpdatePod appPodNamespace (annotate_pod appPod)) (\<lambda>_. Return None))))"

definition ensure_service :: "string \<Rightarrow> string \<Rightarrow> service \<Rightarrow> (status + service option) prog" where
  "ensure_service dataNamespace nfsSVCName def =
     SvcCall (GetSVC dataNamespace nfsSVCName) (\<lambda>(nfsSVC, err).
       case err of
         None \<Rightarrow> Return (Inr nfsSVC)
       | Some _ \<Rightarrow> SvcCall (CreateSVC dataNamespace def) (\<lambda>(nfsSVC, err).
           case err of
             None \<Rightarrow> Return (Inr nfsSVC)
           | Some e \<Rightarrow> Return (Inl (Status Canceled (Text (err_text e))))))"

text \<open>
  The remote branch.  \<^verbatim>\<open>nfsSVC, err := ...\<close> declares a new \<^verbatim>\<open>err\<close> in the branch's block: the mount's
  error is assigned to that variable and does not leave the block.
\<close>

definition mount_remote ::
  "poller \<Rightarrow> string \<Rightarrow> string \<Rightarrow> service \<Rightarrow> string \<Rightarrow> string list \<Rightarrow> (status + unit) prog" where
  "mount_remote poll dataNamespace nfsSVCName def targetPath mountOptions =
     attempt (ensure_service dataNamespace nfsSVCName def) (\<lambda>nfsSVC.
       deref nfsSVC (\<lambda>nfsSVC.
         let nfsIP = svc_ClusterIP nfsSVC in
         bind (waitForTcpReady poll nfsIP 2049 Minute) (\<lambda>err.
           case err of
             Some e \<Rightarrow> Return (Inl (Status Canceled (Text (err_text e))))
           | None \<Rightarrow> Act (Mount (nfsIP @ '':/'') targetPath ''nfs'' mountOptions) (\<lambda>_. Return (Inr ())))))"

definition mount_status :: "go_error \<Rightarrow> status" where
  "mount_status e =
     (if IsPermission e then Status PermissionDenied (Text (err_text e))
      else if contains (err_text e) ''invalid argument'' then Status InvalidArgument (Text (err_text e))
      else Status Internal (Text (err_text e)))"

definition finish_publish :: "string \<Rightarrow> 64 word \<Rightarrow> go_error option \<Rightarrow> (status + unit) prog" where
  "finish_publish targetPath mountPermissions err =
     (case err of
        Some e \<Rightarrow> Return (Inl (mount_status e))
      | None \<Rightarrow>
          if mountPermissions > 0 then
            bind (chmodIfPermissionMismatch targetPath (ucast mountPermissions)) (\<lambda>err.
              case err of
                Some e \<Rightarrow> Return (Inl (Status Internal (Text (err_text e))))
              | None \<Rightarrow> Return (Inr ()))
          else Return (Inr ()))"

section \<open>The handler\<close>

text \<open>From the test of the source to the answer.\<close>

definition mount_volume ::
  "poller \<Rightarrow> string \<Rightarrow> string \<Rightarrow> publish_params \<Rightarrow> string \<Rightarrow> string \<Rightarrow> (status + unit) prog" where
  "mount_volume poll volumeID targetPath p dataPVCUID nfsPodUID =
     bind (find_source nfsPodUID dataPVCUID) (\<lambda>(source, err).
       MountQuery (IsNotMountPoint source) (\<lambda>(notMnt, _).
         if \<not> notMnt then
           bind (mount_local source targetPath (pp_appPodNamespace p) (pp_appPodName p)) (\<lambda>err.
             finish_publish targetPath (pp_mountPermissions p) err)
         else
           attempt (mount_remote poll (pp_dataNamespace p) volumeID
                      (nfsSVCDef volumeID (pp_dataPVCName p) dataPVCUID) targetPath (pp_mountOptions p)) (\<lambda>_.
             finish_publish targetPath (pp_mountPermissions p) err)))"

text \<open>From the first API call to the answer, once the parameters are known.\<close>

definition publish_volume :: "poller \<Rightarrow> string \<Rightarrow> string \<Rightarrow> publish_params \<Rightarrow> (status + unit) prog" where
  "publish_volume poll volumeID targetPath p =
     attempt (require_data_pvc (pp_dataNamespace p) (pp_dataPVCName p)) (\<lambda>dataPVCUID.
     attempt (ensure_statefulset (pp_dataNamespace p) volumeID
                (nfsSTSDef volumeID (pp_dataPVCName p) dataPVCUID (pp_nfsPodImage p) (pp_nfsHostsAllow p))) (\<lambda>_.
     attempt (wait_backend_pod poll (pp_dataNamespace p) (volumeID @ ''-0'')) (\<lambda>nfsPodUID.
     attempt (prepare_target targetPath (pp_mountPermissions p)) (\<lambda>notMnt.
       if \<not> notMnt then Return (Inr ())
       else mount_volume poll volumeID targetPath p dataPVCUID nfsPodUID))))"

text \<open>The checks before the first call: the parameters, or the status to answer with.\<close>

definition publish_parse :: "driver \<Rightarrow> publish_request \<Rightarrow> status + publish_params" where
  "publish_parse drv req =
     (case pub_VolumeCapability req of
        None \<Rightarrow> Inl (Status InvalidArgument (Text ''Volume capability missing in request''))
      | Some volCap \<Rightarrow>
          if pub_VolumeId req = [] then
            Inl (Status InvalidArgument (Text ''Volume ID missing in request''))
          else if pub_TargetPath req = [] then
            Inl (Status InvalidArgument (Text ''Target path not provided''))
          else
            (case scan publish_step (pub_VolumeContext req)
                    (publish_defaults drv volCap (pub_Readonly req)) of
               Inl e \<Rightarrow> Inl e
             | Inr p \<Rightarrow>
                 if pp_dataPVCName p = [] then
                   Inl (Status InvalidArgument (Text (paramDataVolumeClaim @ '' is a required parameter'')))
                 else if pp_dataNamespace p = [] then
                   Inl (Status InvalidArgument (Text (paramDataNamespace @ '' is a required parameter'')))
                 else if pp_nfsPodImage p = [] then Inr (p\<lparr>pp_nfsPodImage := defaultNfsImage\<rparr>)
                 else Inr p))"

definition NodePublishVolume :: "poller \<Rightarrow> driver \<Rightarrow> publish_request \<Rightarrow> (status + unit) prog" where
  "NodePublishVolume poll drv req =
     (case publish_parse drv req of
        Inl e \<Rightarrow> Return (Inl e)
      | Inr p \<Rightarrow> publish_volume poll (pub_VolumeId req) (pub_TargetPath req) p)"

lemmas publish_defs [handler_defs] =
  NodePublishVolume_def publish_volume_def mount_volume_def require_data_pvc_def
  ensure_statefulset_def wait_backend_pod_def prepare_target_def find_source_def mount_local_def
  ensure_service_def mount_remote_def finish_publish_def

end
