(* ===== verification/Publish_Correct.thy ===== *)
theory Publish_Correct
  imports Node_Publish
begin

text \<open>
  What \<^verbatim>\<open>NodePublishVolume\<close> does, for arbitrary answers of its environment: how it reads its
  parameters, what each phase's traces look like, what must have happened before it mounts or
  creates anything, and how the answer relates to what was mounted.
\<close>

section \<open>The parameters\<close>

text \<open>One iteration, field by field: it fails on a malformed permission text and nothing else.\<close>

definition bad_permissions :: "string \<Rightarrow> string \<Rightarrow> bool" where
  "bad_permissions k v \<longleftrightarrow>
     to_lower k = mountPermissionsField \<and> v \<noteq> [] \<and> (\<exists>e. ParseUint_8_32 v = Inl e)"

definition parsed_permissions :: "string \<Rightarrow> 64 word" where
  "parsed_permissions v = (case ParseUint_8_32 v of Inl _ \<Rightarrow> 0 | Inr w \<Rightarrow> w)"

lemma publish_step_Inr:
  "publish_step k v p = Inr q \<longleftrightarrow> \<not> bad_permissions k v \<and>
     q = \<lparr>pp_dataPVCName = (if to_lower k = paramDataVolumeClaim then v else pp_dataPVCName p),
          pp_dataNamespace = (if to_lower k = paramDataNamespace then v else pp_dataNamespace p),
          pp_nfsPodImage = (if to_lower k = paramNfsServerImage then v else pp_nfsPodImage p),
          pp_nfsHostsAllow = (if to_lower k = paramNfsHostsAllow then v else pp_nfsHostsAllow p),
          pp_appPodName = (if to_lower k = podNameKey then v else pp_appPodName p),
          pp_appPodNamespace = (if to_lower k = podNamespaceKey then v else pp_appPodNamespace p),
          pp_mountOptions =
            (if to_lower k = mountOptionsField \<and> v \<noteq> [] then pp_mountOptions p @ [v] else pp_mountOptions p),
          pp_mountPermissions =
            (if to_lower k = mountPermissionsField \<and> v \<noteq> [] then parsed_permissions v
             else pp_mountPermissions p)\<rparr>"
proof -
  have iff: "Inr a = (Inr q :: status + publish_params) \<longleftrightarrow> q = a" for a by auto
  consider "to_lower k = podNameKey" | "to_lower k = podNamespaceKey"
    | "to_lower k = paramDataVolumeClaim" | "to_lower k = paramDataNamespace"
    | "to_lower k = paramNfsServerImage" | "to_lower k = paramNfsHostsAllow"
    | "to_lower k = mountOptionsField" | "to_lower k = mountPermissionsField"
    | "to_lower k \<notin> {podNameKey, podNamespaceKey, paramDataVolumeClaim, paramDataNamespace,
         paramNfsServerImage, paramNfsHostsAllow, mountOptionsField, mountPermissionsField}"
    by auto
  then show ?thesis
    by cases
      (auto simp: publish_step_def Let_def bad_permissions_def parsed_permissions_def iff split: sum.splits)
qed

lemma publish_step_Inl: "publish_step k v p = Inl e \<Longrightarrow> bad_permissions k v \<and> status_code e = InvalidArgument"
  by (auto simp: publish_step_def Let_def bad_permissions_def split: if_splits sum.splits)

interpretation publish_scan: param_scan publish_step
  by unfold_locales (auto simp: publish_step_Inr)

interpretation pub_claim: param_field publish_step paramDataVolumeClaim pp_dataPVCName
  by unfold_locales (simp_all add: publish_step_Inr)

interpretation pub_namespace: param_field publish_step paramDataNamespace pp_dataNamespace
  by unfold_locales (simp_all add: publish_step_Inr)

interpretation pub_image: param_field publish_step paramNfsServerImage pp_nfsPodImage
  by unfold_locales (simp_all add: publish_step_Inr)

interpretation pub_hosts: param_field publish_step paramNfsHostsAllow pp_nfsHostsAllow
  by unfold_locales (simp_all add: publish_step_Inr)

interpretation pub_pod: param_field publish_step podNameKey pp_appPodName
  by unfold_locales (simp_all add: publish_step_Inr)

interpretation pub_pod_ns: param_field publish_step podNamespaceKey pp_appPodNamespace
  by unfold_locales (simp_all add: publish_step_Inr)

lemmas publish_fields =
  pub_claim.scan_field pub_namespace.scan_field pub_image.scan_field pub_hosts.scan_field
  pub_pod.scan_field pub_pod_ns.scan_field

lemma publish_parse_Inl: "publish_parse drv req = Inl e \<Longrightarrow> status_code e = InvalidArgument"
  by (auto simp: publish_parse_def split: option.splits if_splits sum.splits
      dest!: scan_Inl publish_step_Inl)

lemma publish_parse_InrD:
  assumes "publish_parse drv req = Inr p"
  obtains volCap q where "pub_VolumeCapability req = Some volCap" "pub_VolumeId req \<noteq> []"
    "pub_TargetPath req \<noteq> []"
    "scan publish_step (pub_VolumeContext req) (publish_defaults drv volCap (pub_Readonly req)) = Inr q"
    "pp_dataPVCName q \<noteq> []" "pp_dataNamespace q \<noteq> []"
    "p = (if pp_nfsPodImage q = [] then q\<lparr>pp_nfsPodImage := defaultNfsImage\<rparr> else q)"
  using assms by (auto simp: publish_parse_def split: option.splits if_splits sum.splits)

section \<open>The phases, by their traces\<close>

lemma exec_require_data_pvc:
  "exec (require_data_pvc ns n) tr (Done (Inr uid)) \<longleftrightarrow>
     (\<exists>pvc. tr = [EPvc (GetPVC ns n) (Some pvc, None)] \<and> uid = meta_UID (pvc_meta pvc))"
  (is "?run \<longleftrightarrow> ?spec")
proof
  show "?run \<Longrightarrow> ?spec"
    by (auto simp: require_data_pvc_def prog_simps exec_deref split: option.splits)
  show "?spec \<Longrightarrow> ?run" by (auto simp: require_data_pvc_def prog_simps)
qed

lemma exec_ensure_statefulset:
  assumes "exec (ensure_statefulset ns n def) tr (Done r)"
  shows "(\<exists>obj. tr = [ESts (GetSTS ns n) (obj, None)] \<and> r = Inr ()) \<or>
    (\<exists>obj e reply. tr = [ESts (GetSTS ns n) (obj, Some e), ESts (CreateSTS ns def) reply] \<and>
       (r = Inr ()) = (snd reply = None))"
  using assms by (auto simp: ensure_statefulset_def prog_simps split: option.splits)

lemma exec_wait_backend_pod:
  assumes "poll_contract poll" and "exec (wait_backend_pod poll ns n) tr (Done (Inr uid))"
  shows "\<exists>pod err tr' p. tr = EPod (GetPod ns n) (Some pod, err) # tr' @ [EPod (GetPod ns n) (Some p, None)] \<and>
    pod_Phase p = PodRunning \<and> uid = meta_UID (pod_meta pod)"
proof -
  from assms(2) obtain pod err tr' where tr: "tr = EPod (GetPod ns n) (Some pod, err) # tr'"
    and uid: "uid = meta_UID (pod_meta pod)"
    and wait: "exec (waitForPodRunning poll ns n (5 * Minute)) tr' (Done None)"
    by (auto simp: wait_backend_pod_def prog_simps exec_deref exec_bind split: option.splits)
  from running.wait_ok [OF assms(1) wait [unfolded waitForPodRunning_def]] obtain u e
    where "tr' = u @ [e]" and "saw_running_pod ns n e" by blast
  moreover from this(2) obtain p where "e = EPod (GetPod ns n) (Some p, None)" "pod_Phase p = PodRunning"
    by (cases "(ns, n, e)" rule: saw_running_pod.cases) auto
  ultimately show ?thesis using tr uid by auto
qed

lemma exec_prepare_target:
  "exec (prepare_target t w) tr (Done (Inr b)) \<longleftrightarrow>
     tr = [EMountQuery (IsLikelyNotMountPoint t) (b, None)] \<or>
     (\<exists>e x. tr = [EMountQuery (IsLikelyNotMountPoint t) (x, Some e), EAct (MkdirAll t (ucast w)) None] \<and>
       IsNotExist e \<and> b)"
  (is "?run \<longleftrightarrow> ?spec")
proof
  show "?run \<Longrightarrow> ?spec"
    by (auto simp: prepare_target_def prog_simps split: option.splits if_splits)
  show "?spec \<Longrightarrow> ?run" by (auto simp: prepare_target_def prog_simps)
qed

lemma exec_find_source:
  assumes "exec (find_source podUID pvcUID) tr (Done (source, err))"
  shows "\<exists>root ds. tr = [EGetenv ''KUBELET_ROOT'' root, EReadDir (podVolumesDir root podUID) (ds, err)] \<and>
    source = (if err = None then source_loop (podVolumesDir root podUID) pvcUID ds [] else [])"
  using assms by (auto simp: find_source_def prog_simps Let_def split: option.splits)

lemma exec_mount_local:
  assumes "exec (mount_local s t ns n) tr (Done r)"
  shows "\<exists>tr'. tr = EAct (Mount s t [] [''bind'']) r # tr' \<and>
    (r \<noteq> None \<longrightarrow> tr' = []) \<and>
    (r = None \<longrightarrow> (\<exists>pod err. tr' = [EPod (GetPod ns n) (Some pod, Some err)] \<or>
       (\<exists>reply. tr' = [EPod (GetPod ns n) (Some pod, None), EPod (UpdatePod ns (annotate_pod pod)) reply])))"
  using assms by (auto simp: mount_local_def prog_simps exec_deref split: option.splits)

lemma exec_ensure_service:
  assumes "exec (ensure_service ns n def) tr (Done r)"
  shows "(\<exists>obj. tr = [ESvc (GetSVC ns n) (obj, None)] \<and> r = Inr obj) \<or>
    (\<exists>obj e reply. tr = [ESvc (GetSVC ns n) (obj, Some e), ESvc (CreateSVC ns def) reply] \<and>
       (r = Inr (fst reply)) = (snd reply = None) \<and> (snd reply \<noteq> None \<longrightarrow> (\<exists>s. r = Inl s)))"
  using assms by (auto simp: ensure_service_def prog_simps split: option.splits)

lemma exec_mount_remote:
  assumes "poll_contract poll" and "exec (mount_remote poll ns n def t opts) tr (Done (Inr u))"
  shows "\<exists>tr1 tr2 svc res. tr = tr1 @ tr2 @ [EAct (Mount (svc_ClusterIP svc @ '':/'') t ''nfs'' opts) res] \<and>
    exec (ensure_service ns n def) tr1 (Done (Inr (Some svc))) \<and>
    exec (waitForTcpReady poll (svc_ClusterIP svc) 2049 Minute) tr2 (Done None)"
proof -
  from assms(2) obtain tr1 tr2 res svc where "tr = tr1 @ tr2 @ [EAct (Mount (svc_ClusterIP svc @ '':/'') t ''nfs'' opts) res]"
    "exec (ensure_service ns n def) tr1 (Done (Inr (Some svc)))"
    "exec (waitForTcpReady poll (svc_ClusterIP svc) 2049 Minute) tr2 (Done None)"
    unfolding mount_remote_def exec_attempt_Inr
    by (fastforce simp: exec_deref exec_bind prog_simps Let_def split: option.splits)
  then show ?thesis by blast
qed

lemma exec_wait_tcp:
  assumes "poll_contract poll" and "exec (waitForTcpReady poll host port d) tr (Done None)"
  shows "\<exists>tr' to. tr = tr' @ [ETcpProbe (JoinHostPort host (itoa port)) to (ProbeSuccess, None)]"
proof -
  from reachable.wait_ok [OF assms(1) assms(2) [unfolded waitForTcpReady_def]] obtain u e
    where "tr = u @ [e]" and "saw_open_port host port e" by blast
  then show ?thesis by (cases "(host, port, e)" rule: saw_open_port.cases) auto
qed


section \<open>What must have happened before a call\<close>

text \<open>
  The specification of the handler's effects: each call that changes something, with what the
  history \<open>h\<close> must already show.  A bind mount needs a source known to be a mount point, an NFS
  mount an open port of the very host it mounts from; the stateful set and the service are created
  only after a failed read, for the data claim that was read; the pod is updated only with its own
  annotated copy.  Nothing is ever deleted.
\<close>

definition ready_to_mount :: "publish_params \<Rightarrow> string \<Rightarrow> string \<Rightarrow> event list \<Rightarrow> bool" where
  "ready_to_mount p vid tgt h \<longleftrightarrow>
     (\<exists>pvc. EPvc (GetPVC (pp_dataNamespace p) (pp_dataPVCName p)) (Some pvc, None) \<in> set h) \<and>
     (\<exists>q. EPod (GetPod (pp_dataNamespace p) (vid @ ''-0'')) (Some q, None) \<in> set h \<and> pod_Phase q = PodRunning) \<and>
     (EMountQuery (IsLikelyNotMountPoint tgt) (True, None) \<in> set h \<or>
      (\<exists>w. EAct (MkdirAll tgt w) None \<in> set h))"

fun publish_permits :: "publish_params \<Rightarrow> string \<Rightarrow> string \<Rightarrow> event list \<Rightarrow> event \<Rightarrow> bool" where
  "publish_permits p vid tgt h (EAct (Mount src t fs opts) r) =
     (t = tgt \<and> ready_to_mount p vid tgt h \<and>
      (fs = [] \<and> opts = [''bind''] \<and> (\<exists>x. EMountQuery (IsNotMountPoint src) (False, x) \<in> set h) \<or>
       fs = ''nfs'' \<and> opts = pp_mountOptions p \<and>
         (\<exists>host d. src = host @ '':/'' \<and>
            ETcpProbe (JoinHostPort host (itoa 2049)) d (ProbeSuccess, None) \<in> set h)))"
| "publish_permits p vid tgt h (EAct (MkdirAll t w) r) =
     (t = tgt \<and> w = ucast (pp_mountPermissions p) \<and>
      (\<exists>x e. EMountQuery (IsLikelyNotMountPoint tgt) (x, Some e) \<in> set h \<and> IsNotExist e))"
| "publish_permits p vid tgt h (EAct (Chmod t m) r) =
     (t = tgt \<and> 0 < pp_mountPermissions p \<and> m = ucast (pp_mountPermissions p) \<and>
      (\<exists>info. ELstat tgt (info, None) \<in> set h \<and> info_Mode info AND ModePerm \<noteq> m) \<and>
      (\<exists>src fs opts res. EAct (Mount src tgt fs opts) res \<in> set h))"
| "publish_permits p vid tgt h (EAct _ r) = False"
| "publish_permits p vid tgt h (EPvc (CreatePVC ns def) r) = False"
| "publish_permits p vid tgt h (ESts (CreateSTS ns def) r) =
     (ns = pp_dataNamespace p \<and> (\<exists>x e. ESts (GetSTS ns vid) (x, Some e) \<in> set h) \<and>
      (\<exists>pvc. EPvc (GetPVC ns (pp_dataPVCName p)) (Some pvc, None) \<in> set h \<and>
         def = nfsSTSDef vid (pp_dataPVCName p) (meta_UID (pvc_meta pvc)) (pp_nfsPodImage p) (pp_nfsHostsAllow p)))"
| "publish_permits p vid tgt h (ESvc (CreateSVC ns def) r) =
     (ns = pp_dataNamespace p \<and> (\<exists>x e. ESvc (GetSVC ns vid) (x, Some e) \<in> set h) \<and>
      ready_to_mount p vid tgt h \<and>
      (\<exists>pvc. EPvc (GetPVC ns (pp_dataPVCName p)) (Some pvc, None) \<in> set h \<and>
         def = nfsSVCDef vid (pp_dataPVCName p) (meta_UID (pvc_meta pvc))))"
| "publish_permits p vid tgt h (EPod (UpdatePod ns new) r) =
     (ns = pp_appPodNamespace p \<and>
      (\<exists>q. EPod (GetPod ns (pp_appPodName p)) (Some q, None) \<in> set h \<and> new = annotate_pod q) \<and>
      (\<exists>src. EAct (Mount src tgt [] [''bind'']) None \<in> set h))"
| "publish_permits p vid tgt h _ = True"

lemma permits_pod_read: "is_pod_read e \<Longrightarrow> publish_permits p vid tgt h e"
  by (cases e rule: is_pod_read.cases) simp_all

lemma permits_tcp_probe: "is_tcp_probe e \<Longrightarrow> publish_permits p vid tgt h e"
  by (cases e rule: is_tcp_probe.cases) simp_all

lemma permits_statefulset:
  assumes "EPvc (GetPVC (pp_dataNamespace p) (pp_dataPVCName p)) (Some pvc, None) \<in> set h"
  shows "guarded (publish_permits p vid tgt)
    (ensure_statefulset (pp_dataNamespace p) vid
       (nfsSTSDef vid (pp_dataPVCName p) (meta_UID (pvc_meta pvc)) (pp_nfsPodImage p) (pp_nfsHostsAllow p))) h"
  using assms by (auto simp: ensure_statefulset_def split: option.split)

lemma permits_wait: "poll_contract poll \<Longrightarrow> guarded (publish_permits p vid tgt) (wait_backend_pod poll ns n) h"
  unfolding wait_backend_pod_def waitForPodRunning_def
  by (rule guarded_emits [where P = is_pod_read], simp)
    (auto intro!: emits_deref emits_bind running.wait_emits permits_pod_read split: option.split)

lemma permits_prepare:
  "guarded (publish_permits p vid tgt) (prepare_target tgt (pp_mountPermissions p)) h"
  by (auto simp: prepare_target_def split: option.split)

lemma permits_find: "guarded (publish_permits p vid tgt) (find_source a b) h"
  by (auto simp: find_source_def Let_def split: option.split)

lemma permits_local:
  assumes "ready_to_mount p vid tgt h" and "EMountQuery (IsNotMountPoint src) (False, x) \<in> set h"
  shows "guarded (publish_permits p vid tgt) (mount_local src tgt (pp_appPodNamespace p) (pp_appPodName p)) h"
  using assms by (auto simp: mount_local_def intro!: guarded_deref split: option.split)

lemma ready_to_mount_more: "ready_to_mount p vid tgt h \<Longrightarrow> ready_to_mount p vid tgt (h @ h')"
  by (auto simp: ready_to_mount_def)

lemma permits_remote:
  assumes poll: "poll_contract poll" and ready: "ready_to_mount p vid tgt h"
    and pvc: "EPvc (GetPVC (pp_dataNamespace p) (pp_dataPVCName p)) (Some pvc, None) \<in> set h"
  shows "guarded (publish_permits p vid tgt)
    (mount_remote poll (pp_dataNamespace p) vid (nfsSVCDef vid (pp_dataPVCName p) (meta_UID (pvc_meta pvc)))
       tgt (pp_mountOptions p)) h"
  unfolding mount_remote_def Let_def
proof (intro guarded_intros)
  show "guarded (publish_permits p vid tgt) (ensure_service (pp_dataNamespace p) vid
      (nfsSVCDef vid (pp_dataPVCName p) (meta_UID (pvc_meta pvc)))) h"
    using ready_to_mount_more [OF ready] pvc by (auto simp: ensure_service_def split: option.split)
next
  fix tr a svc
  show "guarded (publish_permits p vid tgt) (waitForTcpReady poll (svc_ClusterIP svc) 2049 Minute) (h @ tr)"
    unfolding waitForTcpReady_def
    by (rule guarded_emits [where P = is_tcp_probe]) (auto intro: reachable.wait_emits [OF poll] permits_tcp_probe)
next
  fix tr a svc tr' err
  assume wait: "exec (waitForTcpReady poll (svc_ClusterIP svc) 2049 Minute) tr' (Done err)"
  show "guarded (publish_permits p vid tgt)
     (case err of None \<Rightarrow> Act (Mount (svc_ClusterIP svc @ '':/'') tgt ''nfs'' (pp_mountOptions p)) (\<lambda>_. Return (Inr ()))
      | Some e \<Rightarrow> Return (Inl (Status Canceled (Text (err_text e))))) ((h @ tr) @ tr')"
  proof (cases err)
    case None
    with exec_wait_tcp [OF poll] wait obtain u d
      where "tr' = u @ [ETcpProbe (JoinHostPort (svc_ClusterIP svc) (itoa 2049)) d (ProbeSuccess, None)]"
      by blast
    with None ready_to_mount_more [OF ready] show ?thesis by auto
  next
    case (Some e)
    then show ?thesis by simp
  qed
qed

lemma permits_finish:
  assumes "EAct (Mount src tgt fs opts) res \<in> set h"
  shows "guarded (publish_permits p vid tgt) (finish_publish tgt (pp_mountPermissions p) err) h"
  using assms
  by (auto simp: finish_publish_def chmodIfPermissionMismatch_def Let_def
      intro!: guarded_bind split: option.split)

end
