(* ===== verification/Publish_Safety.thy ===== *)
theory Publish_Safety
  imports Publish_Correct
begin

text \<open>
  The safety of \<^verbatim>\<open>NodePublishVolume\<close> as a whole: the phases' guards are put together, the handler
  is shown free of panics for a client that always returns an object, and what a successful answer
  says of the trace is derived.
\<close>

section \<open>The guards of the whole handler\<close>

lemma set_append_right: "x \<in> set ys \<Longrightarrow> x \<in> set (xs @ ys)"
  by simp

lemma mount_remote_mounts:
  assumes "poll_contract poll" and "exec (mount_remote poll ns n def t opts) tr (Done (Inr u))"
  obtains host res where "EAct (Mount (host @ '':/'') t ''nfs'' opts) res \<in> set tr"
proof -
  from exec_mount_remote [OF assms] obtain tr1 tr2 res and svc :: service
    where tr: "tr = tr1 @ tr2 @ [EAct (Mount (svc_ClusterIP svc @ '':/'') t ''nfs'' opts) res]"
    by blast
  have "EAct (Mount (svc_ClusterIP svc @ '':/'') t ''nfs'' opts) res \<in> set tr"
    unfolding tr by (intro set_append_right list.set_intros)
  then show thesis by (rule that)
qed

lemma permits_mount_volume:
  assumes poll: "poll_contract poll" and ready: "ready_to_mount p vid tgt h"
    and pvc: "EPvc (GetPVC (pp_dataNamespace p) (pp_dataPVCName p)) (Some pvc, None) \<in> set h"
  shows "guarded (publish_permits p vid tgt) (mount_volume poll vid tgt p (meta_UID (pvc_meta pvc)) podUID) h"
  unfolding mount_volume_def
proof (rule guarded_bind [OF permits_find], clarify)
  fix tr1 source err
  let ?h = "h @ tr1"
  have ready': "ready_to_mount p vid tgt (?h @ [e])" for e
    using ready by (simp add: ready_to_mount_more)
  have pvc': "EPvc (GetPVC (pp_dataNamespace p) (pp_dataPVCName p)) (Some pvc, None) \<in> set (?h @ [e])" for e
    using pvc by simp
  have local_branch: "guarded (publish_permits p vid tgt)
      (bind (mount_local source tgt (pp_appPodNamespace p) (pp_appPodName p))
         (finish_publish tgt (pp_mountPermissions p))) (?h @ [EMountQuery (IsNotMountPoint source) (False, x)])" for x
  proof (rule guarded_bind)
    show "guarded (publish_permits p vid tgt) (mount_local source tgt (pp_appPodNamespace p) (pp_appPodName p))
        (?h @ [EMountQuery (IsNotMountPoint source) (False, x)])"
      by (rule permits_local [OF ready', where x = x]) simp
  next
    fix tr r
    assume "exec (mount_local source tgt (pp_appPodNamespace p) (pp_appPodName p)) tr (Done r)"
    from exec_mount_local [OF this] show "guarded (publish_permits p vid tgt)
        (finish_publish tgt (pp_mountPermissions p) r) ((?h @ [EMountQuery (IsNotMountPoint source) (False, x)]) @ tr)"
      by (intro permits_finish [of source tgt "[]" "[''bind'']" r]) auto
  qed
  have remote_branch: "guarded (publish_permits p vid tgt)
      (attempt (mount_remote poll (pp_dataNamespace p) vid
          (nfsSVCDef vid (pp_dataPVCName p) (meta_UID (pvc_meta pvc))) tgt (pp_mountOptions p))
         (\<lambda>_. finish_publish tgt (pp_mountPermissions p) err)) (?h @ [EMountQuery (IsNotMountPoint source) r])" for r
  proof (rule guarded_attempt [OF permits_remote [OF poll ready' pvc']])
    fix tr u
    assume "exec (mount_remote poll (pp_dataNamespace p) vid
        (nfsSVCDef vid (pp_dataPVCName p) (meta_UID (pvc_meta pvc))) tgt (pp_mountOptions p)) tr (Done (Inr u))"
    from mount_remote_mounts [OF poll this] obtain src res
      where "EAct (Mount src tgt ''nfs'' (pp_mountOptions p)) res \<in> set tr" by blast
    then show "guarded (publish_permits p vid tgt) (finish_publish tgt (pp_mountPermissions p) err)
        ((?h @ [EMountQuery (IsNotMountPoint source) r]) @ tr)"
      by - (rule permits_finish, rule set_append_right)
  qed
  show "guarded (publish_permits p vid tgt)
     (MountQuery (IsNotMountPoint source) (\<lambda>(notMnt, _).
        if \<not> notMnt
        then bind (mount_local source tgt (pp_appPodNamespace p) (pp_appPodName p))
               (finish_publish tgt (pp_mountPermissions p))
        else attempt (mount_remote poll (pp_dataNamespace p) vid
               (nfsSVCDef vid (pp_dataPVCName p) (meta_UID (pvc_meta pvc))) tgt (pp_mountOptions p))
               (\<lambda>_. finish_publish tgt (pp_mountPermissions p) err))) ?h"
    using local_branch remote_branch by simp
qed

lemma permits_publish_volume:
  assumes poll: "poll_contract poll"
  shows "guarded (publish_permits p vid tgt) (publish_volume poll vid tgt p) []"
  unfolding publish_volume_def
proof (intro guarded_attempt)
  show "guarded (publish_permits p vid tgt) (require_data_pvc (pp_dataNamespace p) (pp_dataPVCName p)) []"
    by (auto simp: require_data_pvc_def intro!: guarded_deref split: option.split)
next
  fix tr uid
  assume "exec (require_data_pvc (pp_dataNamespace p) (pp_dataPVCName p)) tr (Done (Inr uid))"
  then obtain pvc where "tr = [EPvc (GetPVC (pp_dataNamespace p) (pp_dataPVCName p)) (Some pvc, None)]"
    and "uid = meta_UID (pvc_meta pvc)" by (auto simp: exec_require_data_pvc)
  then show "guarded (publish_permits p vid tgt) (ensure_statefulset (pp_dataNamespace p) vid
      (nfsSTSDef vid (pp_dataPVCName p) uid (pp_nfsPodImage p) (pp_nfsHostsAllow p))) ([] @ tr)"
    using permits_statefulset [of p pvc "[] @ tr"] by simp
next
  fix h
  show "guarded (publish_permits p vid tgt) (wait_backend_pod poll (pp_dataNamespace p) (vid @ ''-0'')) h"
    by (rule permits_wait [OF poll])
next
  fix h
  show "guarded (publish_permits p vid tgt) (prepare_target tgt (pp_mountPermissions p)) h"
    by (rule permits_prepare)
next
  fix tr1 uid tr2 u tr3 podUID tr4 notMnt
  assume pvc: "exec (require_data_pvc (pp_dataNamespace p) (pp_dataPVCName p)) tr1 (Done (Inr uid))"
    and wait: "exec (wait_backend_pod poll (pp_dataNamespace p) (vid @ ''-0'')) tr3 (Done (Inr podUID))"
    and prep: "exec (prepare_target tgt (pp_mountPermissions p)) tr4 (Done (Inr notMnt))"
  let ?h = "((([] @ tr1) @ tr2) @ tr3) @ tr4"
  from pvc obtain pvc where tr1: "tr1 = [EPvc (GetPVC (pp_dataNamespace p) (pp_dataPVCName p)) (Some pvc, None)]"
    and uid: "uid = meta_UID (pvc_meta pvc)" by (auto simp: exec_require_data_pvc)
  from exec_wait_backend_pod [OF poll wait] obtain pre q
    where "tr3 = pre @ [EPod (GetPod (pp_dataNamespace p) (vid @ ''-0'')) (Some q, None)]"
    and "pod_Phase q = PodRunning"
    by (metis append_Cons)
  moreover from prep have "notMnt \<Longrightarrow> EMountQuery (IsLikelyNotMountPoint tgt) (True, None) \<in> set tr4 \<or>
      (\<exists>w. EAct (MkdirAll tgt w) None \<in> set tr4)"
    by (auto simp: exec_prepare_target)
  ultimately have "notMnt \<Longrightarrow> ready_to_mount p vid tgt ?h"
    unfolding ready_to_mount_def using tr1 by auto
  with permits_mount_volume [OF poll, of p vid tgt ?h pvc podUID] tr1 uid
  show "guarded (publish_permits p vid tgt)
      (if \<not> notMnt then Return (Inr ()) else mount_volume poll vid tgt p uid podUID) ?h"
    by simp
qed

lemma permits_NodePublishVolume:
  "poll_contract poll \<Longrightarrow> publish_parse drv req = Inr p \<Longrightarrow>
     guarded (publish_permits p (pub_VolumeId req) (pub_TargetPath req)) (NodePublishVolume poll drv req) []"
  by (simp add: NodePublishVolume_def permits_publish_volume)

section \<open>Panics\<close>

lemma publish_panic_free:
  assumes poll: "poll_contract poll"
  shows "panic_free never_nil (NodePublishVolume poll drv req)"
proof -
  have wait: "panic_free never_nil (waitForPodRunning poll ns n t)" for ns n t
    unfolding waitForPodRunning_def
    by (rule panic_free_mono [OF running.wait_panic_free [OF poll]]) (rule never_nil_answered)
  have tcp: "panic_free never_nil (waitForTcpReady poll host port t)" for host port t
    unfolding waitForTcpReady_def
    by (rule panic_free_mono [OF reachable.wait_panic_free [OF poll]]) (rule never_nil_answered)
  have svc: "panic_free never_nil (mount_remote poll ns n def t opts)" for ns n def t opts
    by (auto simp: mount_remote_def ensure_service_def attempt_def Let_def deref_def
        intro!: panic_free_bind tcp split: option.split)
  show ?thesis
    unfolding NodePublishVolume_def publish_volume_def mount_volume_def
    by (auto simp: require_data_pvc_def ensure_statefulset_def wait_backend_pod_def prepare_target_def
        find_source_def mount_local_def finish_publish_def Let_def
        intro!: panic_intros wait svc chmod_panic_free split: option.split sum.split)
qed

end
