(* ===== verification/Publish_Runs.thy ===== *)
theory Publish_Runs
  imports Publish_Safety
begin

text \<open>
  Runs of \<^verbatim>\<open>NodePublishVolume\<close> taken apart: the phases a run went through, and which phase can have
  left which event.
\<close>

section \<open>The decomposition of a run\<close>

lemma publish_volume_Inr:
  assumes "exec (publish_volume poll vid tgt p) tr (Done (Inr u))"
  obtains tr1 uid tr2 tr3 podUID tr4 notMnt tr5 where "tr = tr1 @ tr2 @ tr3 @ tr4 @ tr5"
    and "exec (require_data_pvc (pp_dataNamespace p) (pp_dataPVCName p)) tr1 (Done (Inr uid))"
    and "exec (ensure_statefulset (pp_dataNamespace p) vid
        (nfsSTSDef vid (pp_dataPVCName p) uid (pp_nfsPodImage p) (pp_nfsHostsAllow p))) tr2 (Done (Inr ()))"
    and "exec (wait_backend_pod poll (pp_dataNamespace p) (vid @ ''-0'')) tr3 (Done (Inr podUID))"
    and "exec (prepare_target tgt (pp_mountPermissions p)) tr4 (Done (Inr notMnt))"
    and "if notMnt then exec (mount_volume poll vid tgt p uid podUID) tr5 (Done (Inr u)) else tr5 = []"
proof -
  from assms obtain tr1 uid tr2 v tr3 podUID tr4 notMnt tr5 where "tr = tr1 @ tr2 @ tr3 @ tr4 @ tr5"
    and "exec (require_data_pvc (pp_dataNamespace p) (pp_dataPVCName p)) tr1 (Done (Inr uid))"
    and "exec (ensure_statefulset (pp_dataNamespace p) vid
        (nfsSTSDef vid (pp_dataPVCName p) uid (pp_nfsPodImage p) (pp_nfsHostsAllow p))) tr2 (Done (Inr v))"
    and "exec (wait_backend_pod poll (pp_dataNamespace p) (vid @ ''-0'')) tr3 (Done (Inr podUID))"
    and "exec (prepare_target tgt (pp_mountPermissions p)) tr4 (Done (Inr notMnt))"
    and "exec (if \<not> notMnt then Return (Inr ()) else mount_volume poll vid tgt p uid podUID) tr5 (Done (Inr u))"
    unfolding publish_volume_def exec_attempt_Inr by blast
  moreover from this(6) have "if notMnt then exec (mount_volume poll vid tgt p uid podUID) tr5 (Done (Inr u)) else tr5 = []"
    by (cases notMnt) (simp_all add: prog_simps)
  ultimately show thesis by (intro that) simp_all
qed

lemma mount_volume_Done:
  assumes "exec (mount_volume poll vid tgt p uid podUID) tr (Done r)"
  obtains root ds derr source b x rest where
    "tr = EGetenv ''KUBELET_ROOT'' root # EReadDir (podVolumesDir root podUID) (ds, derr) #
       EMountQuery (IsNotMountPoint source) (b, x) # rest"
    and "source = (if derr = None then source_loop (podVolumesDir root podUID) uid ds [] else [])"
    and "if b then exec (attempt (mount_remote poll (pp_dataNamespace p) vid
              (nfsSVCDef vid (pp_dataPVCName p) uid) tgt (pp_mountOptions p))
            (\<lambda>_. finish_publish tgt (pp_mountPermissions p) derr)) rest (Done r)
         else exec (bind (mount_local source tgt (pp_appPodNamespace p) (pp_appPodName p))
            (finish_publish tgt (pp_mountPermissions p))) rest (Done r)"
proof -
  from assms obtain tr1 source derr tr2 where tr: "tr = tr1 @ tr2"
    and find: "exec (find_source podUID uid) tr1 (Done (source, derr))"
    and rest: "exec (MountQuery (IsNotMountPoint source) (\<lambda>(notMnt, _).
        if \<not> notMnt
        then bind (mount_local source tgt (pp_appPodNamespace p) (pp_appPodName p))
               (finish_publish tgt (pp_mountPermissions p))
        else attempt (mount_remote poll (pp_dataNamespace p) vid
               (nfsSVCDef vid (pp_dataPVCName p) uid) tgt (pp_mountOptions p))
               (\<lambda>_. finish_publish tgt (pp_mountPermissions p) derr))) tr2 (Done r)"
    unfolding mount_volume_def exec_bind_Done by auto
  from rest obtain b x rest' where tr2: "tr2 = EMountQuery (IsNotMountPoint source) (b, x) # rest'"
    and "if b then exec (attempt (mount_remote poll (pp_dataNamespace p) vid
              (nfsSVCDef vid (pp_dataPVCName p) uid) tgt (pp_mountOptions p))
            (\<lambda>_. finish_publish tgt (pp_mountPermissions p) derr)) rest' (Done r)
         else exec (bind (mount_local source tgt (pp_appPodNamespace p) (pp_appPodName p))
            (finish_publish tgt (pp_mountPermissions p))) rest' (Done r)"
    by (auto simp: exec_MountQuery_iff split: if_splits)
  then show thesis using exec_find_source [OF find] that unfolding tr tr2 by fastforce
qed

lemma finish_publish_Inr:
  "exec (finish_publish tgt w err) tr (Done (Inr u)) \<longleftrightarrow>
     err = None \<and> (if 0 < w then exec (chmodIfPermissionMismatch tgt (ucast w)) tr (Done None) else tr = [])"
proof (cases err)
  case (Some e)
  then show ?thesis by (simp add: finish_publish_def prog_simps)
next
  case None
  have "exec (finish_publish tgt w None) tr (Done (Inr u)) \<longleftrightarrow>
      exec (chmodIfPermissionMismatch tgt (ucast w)) tr (Done None)" if "0 < w"
  proof
    assume "exec (finish_publish tgt w None) tr (Done (Inr u))"
    with that show "exec (chmodIfPermissionMismatch tgt (ucast w)) tr (Done None)"
      by (auto simp: finish_publish_def exec_bind_Done prog_simps split: option.splits)
  next
    assume "exec (chmodIfPermissionMismatch tgt (ucast w)) tr (Done None)"
    then have "exec (bind (chmodIfPermissionMismatch tgt (ucast w)) (\<lambda>err. case err of
        Some e \<Rightarrow> Return (Inl (Status Internal (Text (err_text e)))) | None \<Rightarrow> Return (Inr ())))
        (tr @ []) (Done (Inr u))"
      by (rule exec_bindI) (simp add: prog_simps)
    with that show "exec (finish_publish tgt w None) tr (Done (Inr u))"
      by (simp add: finish_publish_def)
  qed
  with None show ?thesis by (simp add: finish_publish_def prog_simps)
qed

lemma finish_publish_Some:
  "exec (finish_publish tgt w (Some e)) tr (Done r) \<longleftrightarrow> r = Inl (mount_status e) \<and> tr = []"
  by (auto simp: finish_publish_def prog_simps)

text \<open>How a successful answer was reached once the target was ready.\<close>

lemma mount_volume_Inr:
  assumes poll: "poll_contract poll" and ex: "exec (mount_volume poll vid tgt p uid podUID) tr (Done (Inr u))"
  obtains (bound) src pre post fin x where
      "tr = pre @ EAct (Mount src tgt [] [''bind'']) None # post @ fin"
      "EMountQuery (IsNotMountPoint src) (False, x) \<in> set pre"
      "exec (finish_publish tgt (pp_mountPermissions p) None) fin (Done (Inr u))"
    | (exported) root ds src x tr1 tr2 svc res fin where
      "tr = EGetenv ''KUBELET_ROOT'' root # EReadDir (podVolumesDir root podUID) (ds, None) #
         EMountQuery (IsNotMountPoint src) (True, x) # tr1 @ tr2 @
         EAct (Mount (svc_ClusterIP (svc :: service) @ '':/'') tgt ''nfs'' (pp_mountOptions p)) res # fin"
      "exec (ensure_service (pp_dataNamespace p) vid (nfsSVCDef vid (pp_dataPVCName p) uid)) tr1 (Done (Inr (Some svc)))"
      "exec (waitForTcpReady poll (svc_ClusterIP svc) 2049 Minute) tr2 (Done None)"
      "exec (finish_publish tgt (pp_mountPermissions p) None) fin (Done (Inr u))"
proof -
  from ex obtain root ds derr source b x rest where
    tr: "tr = EGetenv ''KUBELET_ROOT'' root # EReadDir (podVolumesDir root podUID) (ds, derr) #
       EMountQuery (IsNotMountPoint source) (b, x) # rest"
    and rest: "if b then exec (attempt (mount_remote poll (pp_dataNamespace p) vid
              (nfsSVCDef vid (pp_dataPVCName p) uid) tgt (pp_mountOptions p))
            (\<lambda>_. finish_publish tgt (pp_mountPermissions p) derr)) rest (Done (Inr u))
         else exec (bind (mount_local source tgt (pp_appPodNamespace p) (pp_appPodName p))
            (finish_publish tgt (pp_mountPermissions p))) rest (Done (Inr u))"
    by (rule mount_volume_Done)
  show thesis
  proof (cases b)
    case True
    with rest obtain r1 v r2 where r: "rest = r1 @ r2"
      and remote: "exec (mount_remote poll (pp_dataNamespace p) vid
              (nfsSVCDef vid (pp_dataPVCName p) uid) tgt (pp_mountOptions p)) r1 (Done (Inr v))"
      and fin: "exec (finish_publish tgt (pp_mountPermissions p) derr) r2 (Done (Inr u))"
      by (auto simp: exec_attempt_Inr)
    from fin have "derr = None" by (simp add: finish_publish_Inr)
    moreover from exec_mount_remote [OF poll remote] obtain tr1 tr2 res and svc :: service where
      "r1 = tr1 @ tr2 @ [EAct (Mount (svc_ClusterIP svc @ '':/'') tgt ''nfs'' (pp_mountOptions p)) res]"
      "exec (ensure_service (pp_dataNamespace p) vid (nfsSVCDef vid (pp_dataPVCName p) uid)) tr1 (Done (Inr (Some svc)))"
      "exec (waitForTcpReady poll (svc_ClusterIP svc) 2049 Minute) tr2 (Done None)"
      by blast
    ultimately show thesis using fin True exported [of root ds source x tr1 tr2 svc res r2] by (simp add: tr r)
  next
    case False
    with rest obtain r1 err r2 where r: "rest = r1 @ r2"
      and local: "exec (mount_local source tgt (pp_appPodNamespace p) (pp_appPodName p)) r1 (Done err)"
      and fin: "exec (finish_publish tgt (pp_mountPermissions p) err) r2 (Done (Inr u))"
      by (auto simp: exec_bind_Done)
    from fin have "err = None" by (simp add: finish_publish_Inr)
    with exec_mount_local [OF local] obtain post where "r1 = EAct (Mount source tgt [] [''bind'']) None # post"
      by blast
    with fin \<open>err = None\<close> show thesis
      using bound [of "[EGetenv ''KUBELET_ROOT'' root, EReadDir (podVolumesDir root podUID) (ds, derr),
        EMountQuery (IsNotMountPoint source) (b, x)]" source post r2 x] False by (simp add: tr r)
  qed
qed

text \<open>
  In its calls: a bind mount of a mount point that succeeded, or an NFS mount from the cluster
  address of the service, read or created, after that address answered.
\<close>

lemma ensure_service_Some:
  assumes "exec (ensure_service ns n def) tr (Done (Inr (Some svc)))"
  shows "ESvc (GetSVC ns n) (Some svc, None) \<in> set tr \<or> ESvc (CreateSVC ns def) (Some svc, None) \<in> set tr"
  using exec_ensure_service [OF assms] by (auto simp: prod_eq_iff)

lemma mount_volume_mounts:
  assumes "poll_contract poll" and "exec (mount_volume poll vid tgt p uid podUID) tr (Done (Inr u))"
  shows "(\<exists>src x. EMountQuery (IsNotMountPoint src) (False, x) \<in> set tr \<and>
       EAct (Mount src tgt [] [''bind'']) None \<in> set tr) \<or>
    (\<exists>svc d res. (ESvc (GetSVC (pp_dataNamespace p) vid) (Some svc, None) \<in> set tr \<or>
         ESvc (CreateSVC (pp_dataNamespace p) (nfsSVCDef vid (pp_dataPVCName p) uid)) (Some svc, None) \<in> set tr) \<and>
       ETcpProbe (JoinHostPort (svc_ClusterIP svc) (itoa 2049)) d (ProbeSuccess, None) \<in> set tr \<and>
       EAct (Mount (svc_ClusterIP svc @ '':/'') tgt ''nfs'' (pp_mountOptions p)) res \<in> set tr)"
  using assms(2)
proof (cases rule: mount_volume_Inr [OF assms(1), consumes 1, case_names bound exported])
  case (bound src pre post fin x)
  then show ?thesis by auto
next
  case (exported root ds src x u1 u2 svc res fin)
  from exec_wait_tcp [OF assms(1) exported(3)] obtain v d
    where "u2 = v @ [ETcpProbe (JoinHostPort (svc_ClusterIP svc) (itoa 2049)) d (ProbeSuccess, None)]" by blast
  with exported(1) have "EAct (Mount (svc_ClusterIP svc @ '':/'') tgt ''nfs'' (pp_mountOptions p)) res \<in> set tr"
    "ETcpProbe (JoinHostPort (svc_ClusterIP svc) (itoa 2049)) d (ProbeSuccess, None) \<in> set tr"
    "set u1 \<subseteq> set tr"
    by auto
  with ensure_service_Some [OF exported(2)] show ?thesis by blast
qed

text \<open>A publication that succeeded has read its data claim.\<close>

lemma publish_read_claim:
  assumes "exec (NodePublishVolume poll drv req) tr (Done (Inr u))"
  obtains p pvc where "publish_parse drv req = Inr p"
    and "EPvc (GetPVC (pp_dataNamespace p) (pp_dataPVCName p)) (Some pvc, None) \<in> set tr"
proof -
  from assms obtain p where p: "publish_parse drv req = Inr p"
    and ex: "exec (publish_volume poll (pub_VolumeId req) (pub_TargetPath req) p) tr (Done (Inr u))"
    by (auto simp: NodePublishVolume_def prog_simps split: sum.splits)
  from ex obtain tr1 uid tr2 where "tr = tr1 @ tr2"
    and "exec (require_data_pvc (pp_dataNamespace p) (pp_dataPVCName p)) tr1 (Done (Inr uid))"
    unfolding publish_volume_def exec_attempt_Inr by blast
  then have "\<exists>pvc. EPvc (GetPVC (pp_dataNamespace p) (pp_dataPVCName p)) (Some pvc, None) \<in> set tr"
    by (auto simp: exec_require_data_pvc)
  with p show thesis using that by blast
qed

section \<open>Frames of the phases\<close>

text \<open>Events that only the mounting part can leave.\<close>

fun before_mounting :: "event \<Rightarrow> bool" where
  "before_mounting (EAct (MkdirAll t w) r) = True"
| "before_mounting (EAct c r) = False"
| "before_mounting (EReadDir d r) = False"
| "before_mounting (ESvc c r) = False"
| "before_mounting e = True"

lemma pod_read_before_mounting: "is_pod_read e \<Longrightarrow> before_mounting e"
  by (cases e rule: is_pod_read.cases) simp_all

lemma emits_before_mounting:
  "emits before_mounting (require_data_pvc ns n)"
  "emits before_mounting (ensure_statefulset ns n def)"
  "poll_contract poll \<Longrightarrow> emits before_mounting (wait_backend_pod poll ns n)"
  "emits before_mounting (prepare_target t w)"
  by (auto simp: require_data_pvc_def ensure_statefulset_def wait_backend_pod_def prepare_target_def
      waitForPodRunning_def intro!: emits_intros running.wait_emits pod_read_before_mounting split: option.split)

lemma attempt_reaches:
  assumes "exec (attempt q f) tr (Done r)" and "emits P q" and "e \<in> set tr" and "\<not> P e"
  obtains tr1 a tr2 where "tr = tr1 @ tr2" and "exec q tr1 (Done (Inr a))" and "exec (f a) tr2 (Done r)"
    and "e \<in> set tr2" and "\<And>e'. \<not> P e' \<Longrightarrow> e' \<in> set tr \<longleftrightarrow> e' \<in> set tr2"
proof -
  have frame: "\<not> exec q u out" if "e' \<in> set u" "\<not> P e'" for u out e'
    using assms(2) that by (blast dest: emitsD)
  from assms(1,3,4) frame [of e] obtain tr1 a tr2 where tr: "tr = tr1 @ tr2"
    and q: "exec q tr1 (Done (Inr a))" and "exec (f a) tr2 (Done r)"
    unfolding exec_attempt by blast
  moreover from q frame [of _ tr1] have "e' \<notin> set tr1" if "\<not> P e'" for e'
    using that by blast
  ultimately show thesis using that assms(3,4) by auto
qed

text \<open>A run that reads the pod's volume directory got to the mounting part.\<close>

lemma publish_reaches_mount:
  assumes poll: "poll_contract poll" and ex: "exec (NodePublishVolume poll drv req) tr (Done r)"
    and e: "e \<in> set tr" "\<not> before_mounting e"
  obtains p uid podUID tr' where "publish_parse drv req = Inr p"
    and "exec (mount_volume poll (pub_VolumeId req) (pub_TargetPath req) p uid podUID) tr' (Done r)"
    and "\<forall>e'. \<not> before_mounting e' \<longrightarrow> (e' \<in> set tr \<longleftrightarrow> e' \<in> set tr')"
proof -
  from ex e(1) obtain p where p: "publish_parse drv req = Inr p"
    and ex1: "exec (publish_volume poll (pub_VolumeId req) (pub_TargetPath req) p) tr (Done r)"
    by (auto simp: NodePublishVolume_def prog_simps split: sum.splits)
  note frames = emits_before_mounting(1,2) emits_before_mounting(3) [OF poll] emits_before_mounting(4)
  from attempt_reaches [OF ex1 [unfolded publish_volume_def] frames(1) e]
  obtain tr1 uid where ex2: "exec (attempt (ensure_statefulset (pp_dataNamespace p) (pub_VolumeId req)
        (nfsSTSDef (pub_VolumeId req) (pp_dataPVCName p) uid (pp_nfsPodImage p) (pp_nfsHostsAllow p))) (\<lambda>_.
       attempt (wait_backend_pod poll (pp_dataNamespace p) (pub_VolumeId req @ ''-0'')) (\<lambda>nfsPodUID.
       attempt (prepare_target (pub_TargetPath req) (pp_mountPermissions p)) (\<lambda>notMnt.
       if \<not> notMnt then Return (Inr ())
       else mount_volume poll (pub_VolumeId req) (pub_TargetPath req) p uid nfsPodUID)))) tr1 (Done r)"
    and e1: "e \<in> set tr1" and s1: "\<And>e'. \<not> before_mounting e' \<Longrightarrow> e' \<in> set tr \<longleftrightarrow> e' \<in> set tr1"
    by blast
  from attempt_reaches [OF ex2 frames(2) e1 e(2)]
  obtain tr2 where ex3: "exec (attempt (wait_backend_pod poll (pp_dataNamespace p) (pub_VolumeId req @ ''-0'')) (\<lambda>nfsPodUID.
       attempt (prepare_target (pub_TargetPath req) (pp_mountPermissions p)) (\<lambda>notMnt.
       if \<not> notMnt then Return (Inr ())
       else mount_volume poll (pub_VolumeId req) (pub_TargetPath req) p uid nfsPodUID))) tr2 (Done r)"
    and e2: "e \<in> set tr2" and s2: "\<And>e'. \<not> before_mounting e' \<Longrightarrow> e' \<in> set tr1 \<longleftrightarrow> e' \<in> set tr2"
    by blast
  from attempt_reaches [OF ex3 frames(3) e2 e(2)]
  obtain tr3 podUID where ex4: "exec (attempt (prepare_target (pub_TargetPath req) (pp_mountPermissions p)) (\<lambda>notMnt.
       if \<not> notMnt then Return (Inr ())
       else mount_volume poll (pub_VolumeId req) (pub_TargetPath req) p uid podUID)) tr3 (Done r)"
    and e3: "e \<in> set tr3" and s3: "\<And>e'. \<not> before_mounting e' \<Longrightarrow> e' \<in> set tr2 \<longleftrightarrow> e' \<in> set tr3"
    by blast
  from attempt_reaches [OF ex4 frames(4) e3 e(2)]
  obtain tr4 notMnt where ex5: "exec (if \<not> notMnt then Return (Inr ())
       else mount_volume poll (pub_VolumeId req) (pub_TargetPath req) p uid podUID) tr4 (Done r)"
    and e4: "e \<in> set tr4" and s4: "\<And>e'. \<not> before_mounting e' \<Longrightarrow> e' \<in> set tr3 \<longleftrightarrow> e' \<in> set tr4"
    by blast
  from ex5 e4 have "exec (mount_volume poll (pub_VolumeId req) (pub_TargetPath req) p uid podUID) tr4 (Done r)"
    by (auto simp: prog_simps split: if_splits)
  moreover have "\<forall>e'. \<not> before_mounting e' \<longrightarrow> (e' \<in> set tr \<longleftrightarrow> e' \<in> set tr4)"
    by (simp add: s1 s2 s3 s4)
  ultimately show thesis by (rule that [OF p])
qed

text \<open>The mounting part reads one directory only, and a remote branch that fails mounts nothing.\<close>

fun not_a_mount :: "event \<Rightarrow> bool" where
  "not_a_mount (EAct c r) = False"
| "not_a_mount e = True"

lemma tcp_probe_not_a_mount: "is_tcp_probe e \<Longrightarrow> not_a_mount e"
  by (cases e rule: is_tcp_probe.cases) simp_all

lemma ensure_service_not_a_mount: "emits not_a_mount (ensure_service ns n def)"
  by (auto simp: ensure_service_def split: option.split)

lemma wait_tcp_not_a_mount: "poll_contract poll \<Longrightarrow> emits not_a_mount (waitForTcpReady poll host port d)"
  unfolding waitForTcpReady_def by (rule reachable.wait_emits) (simp_all add: tcp_probe_not_a_mount)

lemma mount_remote_Inl:
  assumes "poll_contract poll" and "exec (mount_remote poll ns n def t opts) tr (Done (Inl s))"
  shows "EAct c r \<notin> set tr"
  using assms(2) emitsD [OF ensure_service_not_a_mount] emitsD [OF wait_tcp_not_a_mount [OF assms(1)]]
  unfolding mount_remote_def exec_attempt
  by (fastforce simp: exec_deref exec_bind Let_def prog_simps split: option.splits)

fun not_readdir :: "event \<Rightarrow> bool" where
  "not_readdir (EReadDir d r) = False"
| "not_readdir e = True"

lemma tcp_probe_not_readdir: "is_tcp_probe e \<Longrightarrow> not_readdir e"
  by (cases e rule: is_tcp_probe.cases) simp_all

lemma emits_not_readdir:
  "emits not_readdir (mount_local s t ns n)"
  "emits not_readdir (finish_publish t w err)"
  by (auto simp: mount_local_def finish_publish_def intro!: emits_intros chmod_emits split: option.split)

lemma mount_remote_not_readdir: "poll_contract poll \<Longrightarrow> emits not_readdir (mount_remote poll ns n def t opts)"
  unfolding mount_remote_def ensure_service_def waitForTcpReady_def Let_def
  by (auto intro!: emits_intros reachable.wait_emits tcp_probe_not_readdir split: option.split)

fun not_nfs_mount :: "event \<Rightarrow> bool" where
  "not_nfs_mount (EAct (Mount s t fs opts) r) = (fs = [])"
| "not_nfs_mount e = True"

lemma emits_not_nfs_mount:
  "emits not_nfs_mount (mount_local s t ns n)"
  "emits not_nfs_mount (finish_publish t w err)"
  by (auto simp: mount_local_def finish_publish_def intro!: emits_intros chmod_emits split: option.split)

end
