(* ===== verification/Scenario.thy ===== *)
theory Scenario
  imports Node_Publish
begin

text \<open>
  A small cluster to run the handlers on: the environment of the concrete instances beside the
  properties.  It answers from a record of what exists and keeps no other state.
\<close>

definition poll_once :: poller where
  "poll_once interval timeout cond = poll_tries 0 cond"

lemma poll_once_contract: "poll_contract poll_once"
  by (auto simp: poll_contract_def poll_once_def dest: poll_tries_contract simp del: poll_tries.simps)

text \<open>
  \<^verbatim>\<open>cl_local_dirs\<close> is what \<^verbatim>\<open>os.ReadDir\<close> answers (\<^term>\<open>None\<close>: it fails), \<^verbatim>\<open>cl_bind_source\<close> whether the
  source is a mount point, \<^verbatim>\<open>cl_mount_error\<close> the error of the mount.
\<close>

record cluster =
  cl_local_dirs :: "string list option"
  cl_bind_source :: bool
  cl_mounted :: bool
  cl_mount_error :: "go_error option"
  cl_pvs :: "pv list"
  cl_pods :: "pod list"

definition cluster :: cluster where
  "cluster = \<lparr>cl_local_dirs = Some [''kubernetes.io~csi''], cl_bind_source = True, cl_mounted = False,
     cl_mount_error = None, cl_pvs = [], cl_pods = []\<rparr>"

definition meta_of :: "string \<Rightarrow> string \<Rightarrow> object_meta" where
  "meta_of name uid = zero_meta\<lparr>meta_Name := name, meta_UID := uid\<rparr>"

definition absent :: go_error where
  "absent = GoError NotExistErr ''not found''"

definition demo_pod :: pod where
  "demo_pod = \<lparr>pod_meta = meta_of ''nfs-1-0'' ''pod-uid'', pod_Volumes = [], pod_Phase = PodRunning\<rparr>"

definition demo_env :: "cluster \<Rightarrow> unit environment" where
  "demo_env c =
     \<lparr>env_act = (\<lambda>a w. (case a of Mount s t f o' \<Rightarrow> (cl_mount_error c, w) | _ \<Rightarrow> (None, w))),
      env_pvc = (\<lambda>a w. (case a of
          GetPVC ns n \<Rightarrow> (if ns = [] then (Some zero_pvc, Some absent)
                          else (Some (zero_pvc\<lparr>pvc_meta := meta_of n ''uid''\<rparr>), None), w)
        | CreatePVC ns d \<Rightarrow> ((Some d, None), w))),
      env_sts = (\<lambda>a w. (case a of GetSTS ns n \<Rightarrow> ((Some (nfsSTSDef [] [] [] [] []), Some absent), w)
                              | CreateSTS ns d \<Rightarrow> ((Some d, None), w))),
      env_svc = (\<lambda>a w. (case a of GetSVC ns n \<Rightarrow> ((Some (nfsSVCDef [] [] []), Some absent), w)
                              | CreateSVC ns d \<Rightarrow> ((Some (d\<lparr>svc_ClusterIP := ''10.0.0.9''\<rparr>), None), w))),
      env_pod = (\<lambda>a w. ((Some demo_pod, None), w)),
      env_list_pvcs = (\<lambda>ns w. ((Some [], None), w)),
      env_list_pvs = (\<lambda>w. ((Some (cl_pvs c), None), w)),
      env_list_scs = (\<lambda>w. ((Some [], None), w)),
      env_list_pods = (\<lambda>ns w. ((Some (cl_pods c), None), w)),
      env_mount_query = (\<lambda>q w. ((case q of
          IsLikelyNotMountPoint t \<Rightarrow> (\<not> cl_mounted c, None)
        | IsNotMountPoint t \<Rightarrow> (\<not> cl_bind_source c, None)
        | PathExists t \<Rightarrow> (True, None)), w)),
      env_read_dir = (\<lambda>d w. ((case cl_local_dirs c of None \<Rightarrow> ([], Some absent) | Some ds \<Rightarrow> (ds, None)), w)),
      env_lstat = (\<lambda>d w. ((\<lparr>info_Mode = 448, info_IsDir = True\<rparr>, None), w)),
      env_stat = (\<lambda>d w. ((\<lparr>info_Mode = 448, info_IsDir = True\<rparr>, None), w)),
      env_getenv = (\<lambda>n w. (''/var/lib/kubelet'', w)),
      env_tcp_probe = (\<lambda>a t w. ((ProbeSuccess, None), w)),
      env_statfs = (\<lambda>p w. ((None, Some absent), w))\<rparr>"

definition demo_driver :: driver where
  "demo_driver = NewDriver ''v1'' \<lparr>opt_NodeID = ''node-1'', opt_DriverName = DefaultDriverName,
     opt_Endpoint = ''unix://tmp/csi.sock'', opt_MountPermissions = 511, opt_WorkingMountDir = ''/tmp''\<rparr>"

definition demo_publish :: publish_request where
  "demo_publish = \<lparr>pub_VolumeCapability = Some \<lparr>cap_MountFlags = []\<rparr>, pub_VolumeId = ''nfs-1'',
     pub_TargetPath = ''/t'', pub_Readonly = False,
     pub_VolumeContext = [(''dataVolumeClaim'', ''nfs-1''), (''dataNamespace'', ''ns'')]\<rparr>"

definition demo_run :: "cluster \<Rightarrow> 'a prog \<Rightarrow> 'a outcome \<times> event list" where
  "demo_run c p = (case run (demo_env c) p () of (out, tr, w) \<Rightarrow> (out, tr))"

lemma demo_exec: "fst (demo_run c p) = out \<Longrightarrow> exec p (snd (demo_run c p)) out"
  by (auto simp: demo_run_def split: prod.splits dest: run_execD)

end
