(* ===== verification/Publish_Properties.thy ===== *)
theory Publish_Properties
  imports Publish_Runs Scenario
begin

text \<open>
  The properties of \<^verbatim>\<open>NodePublishVolume\<close>, each with a concrete run where it has hypotheses.
\<close>

section \<open>Concrete runs\<close>

definition demo_publish_trace :: "cluster \<Rightarrow> event list" where
  "demo_publish_trace c = snd (demo_run c (NodePublishVolume poll_once demo_driver demo_publish))"

definition demo_params :: publish_params where
  "demo_params = \<lparr>pp_dataPVCName = ''nfs-1'', pp_dataNamespace = ''ns'', pp_nfsPodImage = defaultNfsImage,
     pp_nfsHostsAllow = [], pp_appPodName = [], pp_appPodNamespace = [], pp_mountOptions = [],
     pp_mountPermissions = 511\<rparr>"

lemma demo_parse: "publish_parse demo_driver demo_publish = Inr demo_params"
  by code_simp

lemma demo_publish_exec:
  "fst (demo_run c (NodePublishVolume poll_once demo_driver demo_publish)) = out \<Longrightarrow>
     exec (NodePublishVolume poll_once demo_driver demo_publish) (demo_publish_trace c) out"
  unfolding demo_publish_trace_def by (rule demo_exec)

lemma demo_publish_ok:
  "exec (NodePublishVolume poll_once demo_driver demo_publish) (demo_publish_trace cluster) (Done (Inr ()))"
  by (rule demo_publish_exec) code_simp

section \<open>Effects\<close>

text \<open>
  C1: every call of \<^verbatim>\<open>NodePublishVolume\<close> that changes something is one the specification permits at
  that point: a bind mount only from a source found to be a mount point and an NFS mount only from
  the host whose port 2049 answered, both on the request's target, with the data claim read, the
  backend pod seen Running and the target prepared before; the stateful set and the service are
  created only after a failed read and owned by the claim that was read; the application pod is
  only rewritten as its own annotated copy after the bind mount; nothing is deleted.
\<close>

theorem publish_effects:
  assumes "poll_contract poll" and "publish_parse drv req = Inr p"
    and "exec (NodePublishVolume poll drv req) (tr1 @ e # tr2) out"
  shows "publish_permits p (pub_VolumeId req) (pub_TargetPath req) tr1 e"
  using guardedD [OF permits_NodePublishVolume [OF assms(1,2)] assms(3)] .

theorem publish_effects_witness:
  "demo_publish_trace cluster ! 9 =
       EAct (Mount ''/var/lib/kubelet/pods/pod-uid/volumes//kubernetes.io~csi/pvc-uid/mount'' ''/t'' [] [''bind'']) None \<and>
     publish_permits demo_params ''nfs-1'' ''/t'' (take 9 (demo_publish_trace cluster)) (demo_publish_trace cluster ! 9)"
proof -
  have "9 < length (demo_publish_trace cluster)" by code_simp
  then have "take 9 (demo_publish_trace cluster) @ demo_publish_trace cluster ! 9 #
      drop (Suc 9) (demo_publish_trace cluster) = demo_publish_trace cluster"
    by (rule id_take_nth_drop [symmetric])
  with demo_publish_ok have "exec (NodePublishVolume poll_once demo_driver demo_publish)
      (take 9 (demo_publish_trace cluster) @ demo_publish_trace cluster ! 9 #
      drop (Suc 9) (demo_publish_trace cluster)) (Done (Inr ()))" by simp
  from publish_effects [OF poll_once_contract demo_parse this]
  have "publish_permits demo_params ''nfs-1'' ''/t'' (take 9 (demo_publish_trace cluster)) (demo_publish_trace cluster ! 9)"
    by (simp add: demo_publish_def)
  moreover have "demo_publish_trace cluster ! 9 =
       EAct (Mount ''/var/lib/kubelet/pods/pod-uid/volumes//kubernetes.io~csi/pvc-uid/mount'' ''/t'' [] [''bind'']) None"
    by code_simp
  ultimately show ?thesis by simp
qed

text \<open>
  C2: a successful answer of \<^verbatim>\<open>NodePublishVolume\<close> means that the data claim was read, the stateful
  set existed or was created, the backend pod was seen Running, and then one of three things: the
  target was mounted already; a source found to be a mount point was bound there; or the volume's
  service was read or created, its cluster address answered on port 2049, and the NFS mount of that
  address was called.  (Whether that NFS mount itself succeeded, \<open>res\<close>, the answer does not tell: C18.)
\<close>

theorem publish_success:
  assumes "poll_contract poll" and "publish_parse drv req = Inr p"
    and "exec (NodePublishVolume poll drv req) tr (Done (Inr ()))"
  shows "\<exists>pvc. EPvc (GetPVC (pp_dataNamespace p) (pp_dataPVCName p)) (Some pvc, None) \<in> set tr \<and>
    ((\<exists>obj. ESts (GetSTS (pp_dataNamespace p) (pub_VolumeId req)) (obj, None) \<in> set tr) \<or>
     (\<exists>obj. ESts (CreateSTS (pp_dataNamespace p) (nfsSTSDef (pub_VolumeId req) (pp_dataPVCName p)
         (meta_UID (pvc_meta pvc)) (pp_nfsPodImage p) (pp_nfsHostsAllow p))) (obj, None) \<in> set tr)) \<and>
    (\<exists>q. EPod (GetPod (pp_dataNamespace p) (pub_VolumeId req @ ''-0'')) (Some q, None) \<in> set tr \<and>
       pod_Phase q = PodRunning) \<and>
    (EMountQuery (IsLikelyNotMountPoint (pub_TargetPath req)) (False, None) \<in> set tr \<or>
     (\<exists>src x. EMountQuery (IsNotMountPoint src) (False, x) \<in> set tr \<and>
        EAct (Mount src (pub_TargetPath req) [] [''bind'']) None \<in> set tr) \<or>
     (\<exists>svc d res. (ESvc (GetSVC (pp_dataNamespace p) (pub_VolumeId req)) (Some svc, None) \<in> set tr \<or>
          ESvc (CreateSVC (pp_dataNamespace p) (nfsSVCDef (pub_VolumeId req) (pp_dataPVCName p)
            (meta_UID (pvc_meta pvc)))) (Some svc, None) \<in> set tr) \<and>
        ETcpProbe (JoinHostPort (svc_ClusterIP svc) (itoa 2049)) d (ProbeSuccess, None) \<in> set tr \<and>
        EAct (Mount (svc_ClusterIP svc @ '':/'') (pub_TargetPath req) ''nfs'' (pp_mountOptions p)) res \<in> set tr))"
proof -
  let ?vid = "pub_VolumeId req" and ?tgt = "pub_TargetPath req"
  from assms(2,3) have "exec (publish_volume poll ?vid ?tgt p) tr (Done (Inr ()))"
    by (simp add: NodePublishVolume_def)
  then obtain tr1 uid tr2 tr3 podUID tr4 notMnt tr5 where tr: "tr = tr1 @ tr2 @ tr3 @ tr4 @ tr5"
    and 1: "exec (require_data_pvc (pp_dataNamespace p) (pp_dataPVCName p)) tr1 (Done (Inr uid))"
    and 2: "exec (ensure_statefulset (pp_dataNamespace p) ?vid
        (nfsSTSDef ?vid (pp_dataPVCName p) uid (pp_nfsPodImage p) (pp_nfsHostsAllow p))) tr2 (Done (Inr ()))"
    and 3: "exec (wait_backend_pod poll (pp_dataNamespace p) (?vid @ ''-0'')) tr3 (Done (Inr podUID))"
    and 4: "exec (prepare_target ?tgt (pp_mountPermissions p)) tr4 (Done (Inr notMnt))"
    and 5: "if notMnt then exec (mount_volume poll ?vid ?tgt p uid podUID) tr5 (Done (Inr ())) else tr5 = []"
    by (rule publish_volume_Inr)
  from 1 obtain pvc where pvc: "EPvc (GetPVC (pp_dataNamespace p) (pp_dataPVCName p)) (Some pvc, None) \<in> set tr1"
    and uid: "uid = meta_UID (pvc_meta pvc)" by (auto simp: exec_require_data_pvc)
  from exec_ensure_statefulset [OF 2] have sts:
    "(\<exists>obj. ESts (GetSTS (pp_dataNamespace p) ?vid) (obj, None) \<in> set tr2) \<or>
     (\<exists>obj. ESts (CreateSTS (pp_dataNamespace p) (nfsSTSDef ?vid (pp_dataPVCName p)
         uid (pp_nfsPodImage p) (pp_nfsHostsAllow p))) (obj, None) \<in> set tr2)"
    by (metis list.set_intros prod.collapse)
  from exec_wait_backend_pod [OF assms(1) 3] have pod:
    "\<exists>q. EPod (GetPod (pp_dataNamespace p) (?vid @ ''-0'')) (Some q, None) \<in> set tr3 \<and> pod_Phase q = PodRunning"
    by (metis append_Cons in_set_conv_decomp)
  show ?thesis
  proof (cases notMnt)
    case True
    with 5 have "exec (mount_volume poll ?vid ?tgt p uid podUID) tr5 (Done (Inr ()))" by simp
    from mount_volume_mounts [OF assms(1) this] pvc sts pod show ?thesis
      unfolding tr set_append Un_iff uid by - (rule exI [of _ pvc], intro conjI, blast+)
  next
    case False
    with 4 have "EMountQuery (IsLikelyNotMountPoint ?tgt) (False, None) \<in> set tr4"
      by (auto simp: exec_prepare_target)
    with pvc sts pod show ?thesis
      unfolding tr set_append Un_iff uid by - (rule exI [of _ pvc], intro conjI, blast+)
  qed
qed

text \<open>The demo cluster with no local source for the bind mount: the volume is mounted over NFS.\<close>

definition remote_cluster :: cluster where
  "remote_cluster = cluster\<lparr>cl_bind_source := False\<rparr>"

theorem publish_success_witness:
  "(\<exists>svc d res. (ESvc (GetSVC ''ns'' ''nfs-1'') (Some svc, None) \<in> set (demo_publish_trace remote_cluster) \<or>
        (\<exists>uid. ESvc (CreateSVC ''ns'' (nfsSVCDef ''nfs-1'' ''nfs-1'' uid)) (Some svc, None)
          \<in> set (demo_publish_trace remote_cluster))) \<and>
      ETcpProbe (JoinHostPort (svc_ClusterIP svc) (itoa 2049)) d (ProbeSuccess, None)
        \<in> set (demo_publish_trace remote_cluster) \<and>
      EAct (Mount (svc_ClusterIP svc @ '':/'') ''/t'' ''nfs'' []) res \<in> set (demo_publish_trace remote_cluster))"
proof -
  let ?tr = "demo_publish_trace remote_cluster"
  have ok: "exec (NodePublishVolume poll_once demo_driver demo_publish) ?tr (Done (Inr ()))"
    by (rule demo_publish_exec) code_simp
  have "list_all (\<lambda>e. case e of EMountQuery (IsLikelyNotMountPoint t) (b, x) \<Rightarrow> b
      | EMountQuery (IsNotMountPoint t) (b, x) \<Rightarrow> b | _ \<Rightarrow> True) ?tr"
    by code_simp
  then have none: "EMountQuery (IsLikelyNotMountPoint t) (False, x) \<notin> set ?tr"
    "EMountQuery (IsNotMountPoint t) (False, x) \<notin> set ?tr" for t x
    by (auto simp: list_all_iff)
  from publish_success [OF poll_once_contract demo_parse ok] none show ?thesis
    unfolding demo_params_def demo_publish_def by (simp, elim exE conjE disjE, blast+)
qed

section \<open>What the answer says of the mount\<close>

text \<open>
  C18: the answer of \<^verbatim>\<open>NodePublishVolume\<close>, and everything it does after the NFS mount, do not
  depend on whether that mount succeeded: every run with one outcome of the mount is also a run
  with any other outcome.  (The mount's error is assigned to a variable of the inner block, where
  \<^verbatim>\<open>nfsSVC, err :=\<close> declared it anew.)
\<close>

theorem nfs_mount_error_ignored:
  assumes "poll_contract poll"
    and "exec (NodePublishVolume poll drv req) (tr1 @ EAct (Mount src tgt ''nfs'' opts) res # tr2) out"
  shows "exec (NodePublishVolume poll drv req) (tr1 @ EAct (Mount src tgt ''nfs'' opts) res' # tr2) out"
proof -
  let ?N = "\<lambda>c. \<exists>s t o'. c = Mount s t ''nfs'' o'"
  have pod: "ignores ?N (waitForPodRunning poll ns n d)" for ns n d
    unfolding waitForPodRunning_def
    by (rule ignores_emits [OF running.wait_emits [OF assms(1), where P = before_mounting]])
      (auto simp: pod_read_before_mounting)
  have tcp: "ignores ?N (waitForTcpReady poll host port d)" for host port d
    by (rule ignores_emits [OF wait_tcp_not_a_mount [OF assms(1)]]) auto
  have "ignores ?N (NodePublishVolume poll drv req)"
    unfolding NodePublishVolume_def publish_volume_def mount_volume_def
    by (auto simp: require_data_pvc_def ensure_statefulset_def wait_backend_pod_def prepare_target_def
        find_source_def mount_local_def mount_remote_def ensure_service_def finish_publish_def
        chmodIfPermissionMismatch_def Let_def
        intro!: ignores_intros pod tcp split: option.split sum.split)
  then show ?thesis by (rule ignores_exec [OF assms(2)]) auto
qed

theorem nfs_mount_error_ignored_witness:
  "\<exists>tr1 tr2. exec (NodePublishVolume poll_once demo_driver demo_publish)
     (tr1 @ EAct (Mount ''10.0.0.9:/'' ''/t'' ''nfs'' []) (Some (errorf ''access denied by server'')) # tr2)
     (Done (Inr ()))"
proof -
  let ?tr = "demo_publish_trace remote_cluster"
  have "exec (NodePublishVolume poll_once demo_driver demo_publish) ?tr (Done (Inr ()))"
    by (rule demo_publish_exec) code_simp
  moreover have "case drop 12 ?tr of [] \<Rightarrow> False | e # _ \<Rightarrow> e = EAct (Mount ''10.0.0.9:/'' ''/t'' ''nfs'' []) None"
    by code_simp
  then obtain tr2 where "drop 12 ?tr = EAct (Mount ''10.0.0.9:/'' ''/t'' ''nfs'' []) None # tr2"
    by (auto split: list.splits)
  then have "?tr = take 12 ?tr @ EAct (Mount ''10.0.0.9:/'' ''/t'' ''nfs'' []) None # tr2"
    by (metis append_take_drop_id)
  ultimately have "exec (NodePublishVolume poll_once demo_driver demo_publish)
      (take 12 ?tr @ EAct (Mount ''10.0.0.9:/'' ''/t'' ''nfs'' []) None # tr2) (Done (Inr ()))"
    by metis
  from nfs_mount_error_ignored [OF poll_once_contract this] show ?thesis by blast
qed

text \<open>
  C17: when \<^verbatim>\<open>os.ReadDir\<close> of the backend pod's volume directory fails, as it does on every node the
  pod does not run on, a volume that was then mounted over NFS is answered with the status of that
  directory error, not with success (the handler's \<^verbatim>\<open>err\<close> still holds it after the remote branch).
\<close>

theorem readdir_failure_fails_remote_publish:
  assumes poll: "poll_contract poll" and ex: "exec (NodePublishVolume poll drv req) tr (Done r)"
    and dir: "EReadDir d (ds, Some e) \<in> set tr"
    and mnt: "EAct (Mount src tgt ''nfs'' opts) res \<in> set tr"
  shows "r = Inl (mount_status e)"
proof -
  have late: "\<not> before_mounting (EReadDir d (ds, Some e))" by simp
  obtain p uid podUID tr' where "publish_parse drv req = Inr p"
    and m: "exec (mount_volume poll (pub_VolumeId req) (pub_TargetPath req) p uid podUID) tr' (Done r)"
    and s: "\<forall>e'. \<not> before_mounting e' \<longrightarrow> (e' \<in> set tr \<longleftrightarrow> e' \<in> set tr')"
    using publish_reaches_mount [OF poll ex dir late] by blast
  from m obtain root ds' derr source b x rest where
    tr': "tr' = EGetenv ''KUBELET_ROOT'' root # EReadDir (podVolumesDir root podUID) (ds', derr) #
       EMountQuery (IsNotMountPoint source) (b, x) # rest"
    and rest: "if b then exec (attempt (mount_remote poll (pp_dataNamespace p) (pub_VolumeId req)
              (nfsSVCDef (pub_VolumeId req) (pp_dataPVCName p) uid) (pub_TargetPath req) (pp_mountOptions p))
            (\<lambda>_. finish_publish (pub_TargetPath req) (pp_mountPermissions p) derr)) rest (Done r)
         else exec (bind (mount_local source (pub_TargetPath req) (pp_appPodNamespace p) (pp_appPodName p))
            (finish_publish (pub_TargetPath req) (pp_mountPermissions p))) rest (Done r)"
    by (rule mount_volume_Done)
  from s mnt have mnt': "EAct (Mount src tgt ''nfs'' opts) res \<in> set rest"
    by (auto simp: tr')
  have b: b
  proof (rule ccontr)
    assume "\<not> b"
    with rest have "exec (bind (mount_local source (pub_TargetPath req) (pp_appPodNamespace p) (pp_appPodName p))
            (finish_publish (pub_TargetPath req) (pp_mountPermissions p))) rest (Done r)" by simp
    from emitsD [OF emits_bind [OF emits_not_nfs_mount] this mnt'] show False by simp
  qed
  with rest have rem: "exec (attempt (mount_remote poll (pp_dataNamespace p) (pub_VolumeId req)
              (nfsSVCDef (pub_VolumeId req) (pp_dataPVCName p) uid) (pub_TargetPath req) (pp_mountOptions p))
            (\<lambda>_. finish_publish (pub_TargetPath req) (pp_mountPermissions p) derr)) rest (Done r)" by simp
  from emitsD [OF emits_attempt [OF mount_remote_not_readdir [OF poll] emits_not_readdir(2)] this]
  have "EReadDir d (ds, Some e) \<notin> set rest" by fastforce
  with s dir have derr: "derr = Some e" by (auto simp: tr')
  from rem mnt' mount_remote_Inl [OF poll] obtain u v where
    "exec (finish_publish (pub_TargetPath req) (pp_mountPermissions p) derr) v (Done r)"
    unfolding exec_attempt by blast
  then show ?thesis by (simp add: derr finish_publish_Some)
qed

definition other_node :: cluster where
  "other_node = cluster\<lparr>cl_bind_source := False, cl_local_dirs := None\<rparr>"

theorem readdir_failure_fails_remote_publish_witness:
  "EAct (Mount ''10.0.0.9:/'' ''/t'' ''nfs'' []) None \<in> set (demo_publish_trace other_node) \<and>
   exec (NodePublishVolume poll_once demo_driver demo_publish) (demo_publish_trace other_node)
     (Done (Inl (mount_status absent))) \<and> mount_status absent = Status Internal (Text ''not found'')"
proof -
  let ?tr = "demo_publish_trace other_node"
  have ex: "exec (NodePublishVolume poll_once demo_driver demo_publish) ?tr
      (Done (Inl (Status Internal (Text ''not found''))))"
    by (rule demo_publish_exec) code_simp
  have "list_all (\<lambda>e. e \<in> set ?tr) [EReadDir ''/var/lib/kubelet/pods/pod-uid/volumes/'' ([], Some absent),
      EAct (Mount ''10.0.0.9:/'' ''/t'' ''nfs'' []) None]"
    by code_simp
  then have dir: "EReadDir ''/var/lib/kubelet/pods/pod-uid/volumes/'' ([], Some absent) \<in> set ?tr"
    and mnt: "EAct (Mount ''10.0.0.9:/'' ''/t'' ''nfs'' []) None \<in> set ?tr" by simp_all
  from readdir_failure_fails_remote_publish [OF poll_once_contract ex dir mnt] ex mnt
  show ?thesis by simp
qed

end
