(* ===== verification/Publish_Inputs.thy ===== *)
theory Publish_Inputs
  imports Publish_Properties
begin

text \<open>
  How \<^verbatim>\<open>NodePublishVolume\<close> reads its request: which requests it rejects, what its parameters are
  worth, and that the order in which Go visits the volume context does not matter.
\<close>

section \<open>The scan of the volume context\<close>

lemma publish_step_bad:
  "publish_step k v s = Inl e \<longleftrightarrow>
     bad_permissions k v \<and> e = Status InvalidArgument (Fmt (''invalid mountPermissions '' @ v) [])"
  by (auto simp: publish_step_def Let_def bad_permissions_def split: sum.splits)

lemma publish_scan_fails_iff:
  "(\<exists>e. scan publish_step m s = Inl e) \<longleftrightarrow> (\<exists>(k, v) \<in> set m. bad_permissions k v)"
proof (induction m arbitrary: s)
  case Nil
  then show ?case by simp
next
  case (Cons p m)
  obtain k v where p: "p = (k, v)" by (cases p)
  show ?case
  proof (cases "publish_step k v s")
    case (Inl e)
    then have "bad_permissions k v" by (simp add: publish_step_bad)
    with Inl show ?thesis by (auto simp: p)
  next
    case (Inr t)
    then have "\<not> bad_permissions k v" by (simp add: publish_step_Inr)
    with Inr Cons.IH [of t] show ?thesis by (simp add: p)
  qed
qed

lemma publish_scan_error:
  assumes "scan publish_step m s = Inl e"
  shows "\<exists>(k, v) \<in> set m. to_lower k = mountPermissionsField \<and>
    e = Status InvalidArgument (Fmt (''invalid mountPermissions '' @ v) [])"
  using scan_Inl [OF assms] by (auto simp: publish_step_bad bad_permissions_def)

lemma distinct_lower_keys_value:
  "distinct (lower_keys m) \<Longrightarrow> (k, v) \<in> set m \<Longrightarrow> (k', v') \<in> set m \<Longrightarrow> to_lower k = to_lower k' \<Longrightarrow> v = v'"
  using param_value_unique [of m k v "to_lower k"] param_value_unique [of m k' v' "to_lower k"] by metis

lemma publish_scan_order:
  assumes "mset m = mset n" and "distinct (lower_keys m)"
  shows "scan publish_step m s = scan publish_step n s"
proof (cases "scan publish_step m s")
  case (Inr r)
  with publish_scan.scan_order [OF assms, of s r] show ?thesis by simp
next
  case (Inl e)
  have same: "set n = set m" using assms(1) by (metis set_mset_mset)
  from Inl publish_scan_fails_iff [of m s] have "\<exists>(k, v) \<in> set m. bad_permissions k v" by blast
  with publish_scan_fails_iff [of n s] same obtain e' where n: "scan publish_step n s = Inl e'" by auto
  from publish_scan_error [OF Inl] publish_scan_error [OF n] distinct_lower_keys_value [OF assms(2)]
  have "e' = e" by (auto simp: same)
  with Inl n show ?thesis by simp
qed

text \<open>The mount options and the permissions after the loop.\<close>

definition context_options :: "gomap \<Rightarrow> string list" where
  "context_options m = map snd (filter (\<lambda>(k, v). to_lower k = mountOptionsField \<and> v \<noteq> []) m)"

definition permission_texts :: "gomap \<Rightarrow> string list" where
  "permission_texts m = map snd (filter (\<lambda>(k, v). to_lower k = mountPermissionsField \<and> v \<noteq> []) m)"

lemma publish_scan_options:
  "scan publish_step m s = Inr r \<Longrightarrow> pp_mountOptions r = pp_mountOptions s @ context_options m"
proof (induction m arbitrary: s)
  case Nil
  then show ?case by (simp add: context_options_def)
next
  case (Cons p m)
  obtain k v where p: "p = (k, v)" by (cases p)
  with Cons.prems obtain t where t: "publish_step k v s = Inr t" and r: "scan publish_step m t = Inr r"
    by (auto simp: sum_eq_iff_Inr)
  show ?case using Cons.IH [OF r] t by (auto simp: p publish_step_Inr context_options_def)
qed

lemma publish_scan_permissions:
  "scan publish_step m s = Inr r \<Longrightarrow>
     pp_mountPermissions r =
       (if permission_texts m = [] then pp_mountPermissions s else parsed_permissions (last (permission_texts m)))"
proof (induction m arbitrary: s)
  case Nil
  then show ?case by (simp add: permission_texts_def)
next
  case (Cons p m)
  obtain k v where p: "p = (k, v)" by (cases p)
  with Cons.prems obtain t where t: "publish_step k v s = Inr t" and r: "scan publish_step m t = Inr r"
    by (auto simp: sum_eq_iff_Inr)
  show ?case using Cons.IH [OF r] t by (auto simp: p publish_step_Inr permission_texts_def)
qed

lemma permission_texts_parse:
  assumes "scan publish_step m s = Inr r" and "t \<in> set (permission_texts m)"
  shows "is_octal t \<and> octal_value t < 2 ^ 32 \<and> parsed_permissions t = of_nat (octal_value t)"
proof -
  from assms(2) obtain k where k: "(k, t) \<in> set m" "to_lower k = mountPermissionsField" "t \<noteq> []"
    by (auto simp: permission_texts_def)
  with assms(1) publish_scan_fails_iff [of m s] have "\<not> bad_permissions k t" by auto
  with k obtain w where "ParseUint_8_32 t = Inr w"
    by (cases "ParseUint_8_32 t") (auto simp: bad_permissions_def)
  then show ?thesis using ParseUint_8_32_Inr [of t w] by (simp add: parsed_permissions_def)
qed

section \<open>Properties\<close>

text \<open>
  C24: \<^verbatim>\<open>NodePublishVolume\<close> answers without a single call exactly when the capability, the volume ID or
  the target path is missing, some non-empty \<^verbatim>\<open>mountPermissions\<close> is not an octal numeral of 32 bits,
  or the context names no data claim or no data namespace; every such answer is InvalidArgument.
\<close>

theorem publish_rejects:
  "((\<exists>s. exec (NodePublishVolume poll drv req) [] (Done (Inl s))) \<longleftrightarrow>
      pub_VolumeCapability req = None \<or> pub_VolumeId req = [] \<or> pub_TargetPath req = [] \<or>
      (\<exists>(k, v) \<in> set (pub_VolumeContext req). bad_permissions k v) \<or>
      param_value paramDataVolumeClaim (pub_VolumeContext req) [] = [] \<or>
      param_value paramDataNamespace (pub_VolumeContext req) [] = []) \<and>
   {s. exec (NodePublishVolume poll drv req) [] (Done (Inl s))} \<subseteq> {s. status_code s = InvalidArgument}"
proof -
  have calls: "\<not> exec (publish_volume poll vid tgt p) [] out" for vid tgt p out
    by (auto simp: publish_volume_def require_data_pvc_def attempt_def prog_simps)
  have iff: "exec (NodePublishVolume poll drv req) [] (Done (Inl s)) \<longleftrightarrow> publish_parse drv req = Inl s" for s
    by (auto simp: NodePublishVolume_def calls prog_simps split: sum.splits)
  have "(\<exists>s. publish_parse drv req = Inl s) \<longleftrightarrow>
      pub_VolumeCapability req = None \<or> pub_VolumeId req = [] \<or> pub_TargetPath req = [] \<or>
      (\<exists>(k, v) \<in> set (pub_VolumeContext req). bad_permissions k v) \<or>
      param_value paramDataVolumeClaim (pub_VolumeContext req) [] = [] \<or>
      param_value paramDataNamespace (pub_VolumeContext req) [] = []" (is "?fails \<longleftrightarrow> ?bad")
  proof (cases "pub_VolumeCapability req")
    case None
    then show ?thesis by (simp add: publish_parse_def)
  next
    case (Some volCap)
    show ?thesis
    proof (cases "scan publish_step (pub_VolumeContext req) (publish_defaults drv volCap (pub_Readonly req))")
      case (Inl e)
      with publish_scan_fails_iff have "\<exists>(k, v) \<in> set (pub_VolumeContext req). bad_permissions k v" by blast
      with Some Inl show ?thesis by (auto simp: publish_parse_def)
    next
      case (Inr p)
      with publish_scan_fails_iff [of "pub_VolumeContext req" "publish_defaults drv volCap (pub_Readonly req)"]
      have ok: "\<not> (\<exists>(k, v) \<in> set (pub_VolumeContext req). bad_permissions k v)" by simp
      from publish_fields(1,2) [OF Inr] have
        "pp_dataPVCName p = param_value paramDataVolumeClaim (pub_VolumeContext req) []"
        "pp_dataNamespace p = param_value paramDataNamespace (pub_VolumeContext req) []"
        by (simp_all add: publish_defaults_def)
      with Some Inr ok show ?thesis by (auto simp: publish_parse_def)
    qed
  qed
  with iff publish_parse_Inl show ?thesis by blast
qed

text \<open>
  The order in which Go visits the entries of the volume context has no influence on
  \<^verbatim>\<open>NodePublishVolume\<close>, when no two keys differ only in case: the handler behaves in the same way,
  its error messages included, for every permutation.
\<close>

theorem publish_context_order:
  assumes "mset ctx = mset (pub_VolumeContext req)" and "distinct (lower_keys (pub_VolumeContext req))"
  shows "NodePublishVolume poll drv (req\<lparr>pub_VolumeContext := ctx\<rparr>) = NodePublishVolume poll drv req"
proof -
  have "scan publish_step ctx s = scan publish_step (pub_VolumeContext req) s" for s
    using publish_scan_order [OF assms(1) [symmetric] assms(2)] by simp
  then show ?thesis
    by (simp add: NodePublishVolume_def publish_parse_def
        cong del: if_weak_cong option.case_cong_weak sum.case_cong_weak)
qed

theorem publish_context_order_witness:
  "NodePublishVolume poll_once demo_driver
     (demo_publish\<lparr>pub_VolumeContext := [(''dataNamespace'', ''ns''), (''dataVolumeClaim'', ''nfs-1'')]\<rparr>) =
   NodePublishVolume poll_once demo_driver demo_publish"
  by (rule publish_context_order) (simp_all add: demo_publish_def to_lower_def lower_char_def add.commute)

text \<open>
  C25: the parameters of an accepted request: each name's value is that of the matching context
  entry (whatever the case of its key), the image has a default, the mount options are the
  capability's flags, \<^verbatim>\<open>ro\<close> for a read-only request and the context's options; the permissions are
  the last non-empty octal text of the context, or else the driver's.
\<close>

theorem publish_parameters:
  assumes "publish_parse drv req = Inr p"
  shows "pp_dataPVCName p = param_value paramDataVolumeClaim (pub_VolumeContext req) [] \<and>
    pp_dataNamespace p = param_value paramDataNamespace (pub_VolumeContext req) [] \<and>
    pp_nfsHostsAllow p = param_value paramNfsHostsAllow (pub_VolumeContext req) [] \<and>
    pp_appPodName p = param_value podNameKey (pub_VolumeContext req) [] \<and>
    pp_appPodNamespace p = param_value podNamespaceKey (pub_VolumeContext req) [] \<and>
    pp_nfsPodImage p =
      (let image = param_value paramNfsServerImage (pub_VolumeContext req) []
       in if image = [] then defaultNfsImage else image) \<and>
    pp_mountOptions p = cap_MountFlags (the (pub_VolumeCapability req)) @
      (if pub_Readonly req then [''ro''] else []) @ context_options (pub_VolumeContext req) \<and>
    (if permission_texts (pub_VolumeContext req) = [] then pp_mountPermissions p = drv_mountPermissions drv
     else is_octal (last (permission_texts (pub_VolumeContext req))) \<and>
       unat (pp_mountPermissions p) = octal_value (last (permission_texts (pub_VolumeContext req))))"
proof -
  from assms obtain volCap q where cap: "pub_VolumeCapability req = Some volCap"
    and q: "scan publish_step (pub_VolumeContext req) (publish_defaults drv volCap (pub_Readonly req)) = Inr q"
    and p: "p = (if pp_nfsPodImage q = [] then q\<lparr>pp_nfsPodImage := defaultNfsImage\<rparr> else q)"
    by (rule publish_parse_InrD)
  have perm: "is_octal t \<and> unat (parsed_permissions t) = octal_value t"
    if "t \<in> set (permission_texts (pub_VolumeContext req))" for t
    using permission_texts_parse [OF q that] by (auto simp: unat_of_nat)
  show ?thesis
    using publish_fields [OF q] publish_scan_options [OF q] publish_scan_permissions [OF q]
      perm [OF last_in_set] cap
    by (auto simp: p publish_defaults_def Let_def)
qed

theorem publish_parameters_witness:
  "publish_parse demo_driver (demo_publish\<lparr>pub_Readonly := True, pub_VolumeContext :=
      (''mountPermissions'', ''0750'') # pub_VolumeContext demo_publish\<rparr>) =
     Inr (demo_params\<lparr>pp_mountOptions := [''ro''], pp_mountPermissions := 488\<rparr>) \<and>
   unat (488 :: 64 word) = octal_value ''0750''"
proof -
  let ?req = "demo_publish\<lparr>pub_Readonly := True, pub_VolumeContext :=
      (''mountPermissions'', ''0750'') # pub_VolumeContext demo_publish\<rparr>"
  let ?p = "demo_params\<lparr>pp_mountOptions := [''ro''], pp_mountPermissions := 488\<rparr>"
  have lower: "to_lower ''mountPermissions'' = mountPermissionsField"
    "to_lower ''dataVolumeClaim'' = paramDataVolumeClaim" "to_lower ''dataNamespace'' = paramDataNamespace"
    by code_simp+
  have octal: "ParseUint_8_32 ''0750'' = Inr 488"
    by (simp add: ParseUint_8_32_def octal_digit_def)
  have parse: "publish_parse demo_driver ?req = Inr ?p"
    by (simp add: publish_parse_def demo_publish_def demo_params_def publish_defaults_def publish_step_def
        octal lower Let_def)
  have texts: "permission_texts (pub_VolumeContext ?req) = [''0750'']" by code_simp
  from publish_parameters [OF parse] have "unat (pp_mountPermissions ?p) = octal_value ''0750''"
    unfolding texts by simp
  with parse show ?thesis by simp
qed

end
