(* ===== verification/Publish_Outcomes.thy ===== *)
theory Publish_Outcomes
  imports Publish_Properties
begin

text \<open>
  Further properties of \<^verbatim>\<open>NodePublishVolume\<close>: repeated requests, failed bind mounts, permissions,
  panics, and the objects and names it builds.
\<close>

section \<open>Frames\<close>

fun quiet :: "event \<Rightarrow> bool" where
  "quiet (EAct c r) = False"
| "quiet (EMountQuery (IsLikelyNotMountPoint t) r) = False"
| "quiet e = True"

lemma pod_read_quiet: "is_pod_read e \<Longrightarrow> quiet e"
  by (cases e rule: is_pod_read.cases) simp_all

lemma emits_quiet:
  "emits quiet (require_data_pvc ns n)"
  "emits quiet (ensure_statefulset ns n def)"
  by (auto simp: require_data_pvc_def ensure_statefulset_def intro!: emits_intros split: option.split)

lemma wait_backend_quiet: "poll_contract poll \<Longrightarrow> emits quiet (wait_backend_pod poll ns n)"
  unfolding wait_backend_pod_def waitForPodRunning_def
  by (auto intro!: emits_intros running.wait_emits pod_read_quiet split: option.split)

fun no_target_query :: "event \<Rightarrow> bool" where
  "no_target_query (EMountQuery (IsLikelyNotMountPoint t) r) = False"
| "no_target_query e = True"

lemma tcp_probe_no_target_query: "is_tcp_probe e \<Longrightarrow> no_target_query e"
  by (cases e rule: is_tcp_probe.cases) simp_all

lemma emits_no_target_query:
  "emits no_target_query (find_source podUID uid)"
  "emits no_target_query (mount_local s t ns n)"
  "emits no_target_query (finish_publish t w err)"
  by (auto simp: find_source_def mount_local_def finish_publish_def Let_def
      intro!: emits_intros chmod_emits split: option.split)

lemma mount_remote_no_target_query:
  "poll_contract poll \<Longrightarrow> emits no_target_query (mount_remote poll ns n def t opts)"
  unfolding mount_remote_def ensure_service_def waitForTcpReady_def Let_def
  by (auto intro!: emits_intros reachable.wait_emits tcp_probe_no_target_query split: option.split)

lemma mount_volume_no_target_query:
  assumes "poll_contract poll"
  shows "emits no_target_query (mount_volume poll vid tgt p uid podUID)"
proof -
  have "emits no_target_query (bind (mount_local s tgt ns n) (finish_publish tgt w))" for s ns n w
    by (rule emits_bind) (rule emits_no_target_query)+
  moreover have "emits no_target_query (attempt (mount_remote poll ns n def tgt opts)
      (\<lambda>_. finish_publish tgt w err))" for ns n def opts w err
    by (rule emits_attempt [OF mount_remote_no_target_query [OF assms]]) (rule emits_no_target_query)
  ultimately show ?thesis
    unfolding mount_volume_def
    by (intro emits_bind [OF emits_no_target_query(1)]) (simp split: prod.split)
qed

lemma prepare_target_mounted:
  assumes ex: "exec (prepare_target tgt w) tr out"
    and q: "EMountQuery (IsLikelyNotMountPoint t) (False, None) \<in> set tr"
  shows "out = Done (Inr False) \<and> tr = [EMountQuery (IsLikelyNotMountPoint t) (False, None)]"
proof -
  from ex obtain b err rest where tr: "tr = EMountQuery (IsLikelyNotMountPoint tgt) (b, err) # rest"
    and k: "exec (case err of None \<Rightarrow> Return (Inr b)
        | Some e \<Rightarrow> if IsNotExist e then Act (MkdirAll tgt (ucast w)) (\<lambda>err.
              case err of Some e \<Rightarrow> Return (Inl (Status Internal (Text (err_text e)))) | None \<Rightarrow> Return (Inr True))
            else Return (Inl (Status Internal (Text (err_text e))))) rest out"
    unfolding prepare_target_def exec_MountQuery_iff by fastforce
  show ?thesis
  proof (cases err)
    case None
    with k q tr show ?thesis by (simp add: prog_simps)
  next
    case (Some e)
    with k have "EMountQuery (IsLikelyNotMountPoint t) (False, None) \<notin> set rest"
      by (auto simp: prog_simps split: if_splits option.splits)
    with q tr Some show ?thesis by simp
  qed
qed

text \<open>Only the remote branch mounts with a type, and it never bind-mounts.\<close>

fun not_bind_mount :: "event \<Rightarrow> bool" where
  "not_bind_mount (EAct (Mount s t fs opts) r) = (fs \<noteq> [])"
| "not_bind_mount e = True"

lemma tcp_probe_not_bind: "is_tcp_probe e \<Longrightarrow> not_bind_mount e"
  by (cases e rule: is_tcp_probe.cases) simp_all

lemma emits_not_bind_mount:
  "emits not_bind_mount (finish_publish t w err)"
  by (auto simp: finish_publish_def intro!: emits_intros chmod_emits split: option.split)

lemma mount_remote_not_bind: "poll_contract poll \<Longrightarrow> emits not_bind_mount (mount_remote poll ns n def t opts)"
  unfolding mount_remote_def ensure_service_def waitForTcpReady_def Let_def
  by (auto intro!: emits_intros reachable.wait_emits tcp_probe_not_bind split: option.split)

section \<open>Repeated requests\<close>

text \<open>
  When the target is already a mount point, \<^verbatim>\<open>NodePublishVolume\<close> answers success at once and
  has mounted, created a directory, changed a mode or deleted nothing: repeating a request that
  succeeded is harmless.
\<close>

theorem publish_already_mounted:
  assumes poll: "poll_contract poll" and ex: "exec (NodePublishVolume poll drv req) tr (Done r)"
    and q: "EMountQuery (IsLikelyNotMountPoint t) (False, None) \<in> set tr"
  shows "r = Inr () \<and> EAct c x \<notin> set tr"
proof -
  let ?q = "EMountQuery (IsLikelyNotMountPoint t) (False, None)"
  let ?vid = "pub_VolumeId req" and ?tgt = "pub_TargetPath req"
  have nq: "\<not> quiet ?q" and na: "\<not> quiet (EAct c x)" by simp_all
  from ex q obtain p where "exec (publish_volume poll ?vid ?tgt p) tr (Done r)"
    by (auto simp: NodePublishVolume_def prog_simps split: sum.splits)
  from attempt_reaches [OF this [unfolded publish_volume_def] emits_quiet(1) q nq]
  obtain tr1 uid where ex1: "exec (attempt (ensure_statefulset (pp_dataNamespace p) ?vid
        (nfsSTSDef ?vid (pp_dataPVCName p) uid (pp_nfsPodImage p) (pp_nfsHostsAllow p))) (\<lambda>_.
       attempt (wait_backend_pod poll (pp_dataNamespace p) (?vid @ ''-0'')) (\<lambda>nfsPodUID.
       attempt (prepare_target ?tgt (pp_mountPermissions p)) (\<lambda>notMnt.
       if \<not> notMnt then Return (Inr ()) else mount_volume poll ?vid ?tgt p uid nfsPodUID)))) tr1 (Done r)"
    and q1: "?q \<in> set tr1" and s1: "\<And>e'. \<not> quiet e' \<Longrightarrow> e' \<in> set tr \<longleftrightarrow> e' \<in> set tr1"
    by blast
  from attempt_reaches [OF ex1 emits_quiet(2) q1 nq]
  obtain tr2 where ex2: "exec (attempt (wait_backend_pod poll (pp_dataNamespace p) (?vid @ ''-0'')) (\<lambda>nfsPodUID.
       attempt (prepare_target ?tgt (pp_mountPermissions p)) (\<lambda>notMnt.
       if \<not> notMnt then Return (Inr ()) else mount_volume poll ?vid ?tgt p uid nfsPodUID))) tr2 (Done r)"
    and q2: "?q \<in> set tr2" and s2: "\<And>e'. \<not> quiet e' \<Longrightarrow> e' \<in> set tr1 \<longleftrightarrow> e' \<in> set tr2"
    by blast
  from attempt_reaches [OF ex2 wait_backend_quiet [OF poll] q2 nq]
  obtain tr3 podUID where ex3: "exec (attempt (prepare_target ?tgt (pp_mountPermissions p)) (\<lambda>notMnt.
       if \<not> notMnt then Return (Inr ()) else mount_volume poll ?vid ?tgt p uid podUID)) tr3 (Done r)"
    and q3: "?q \<in> set tr3" and s3: "\<And>e'. \<not> quiet e' \<Longrightarrow> e' \<in> set tr2 \<longleftrightarrow> e' \<in> set tr3"
    by blast
  have later: "?q \<notin> set u" if "exec (if \<not> notMnt then Return (Inr ())
      else mount_volume poll ?vid ?tgt p uid podUID) u (Done r)" for u notMnt
    using that emitsD [OF mount_volume_no_target_query [OF poll], of ?vid ?tgt p uid podUID u _ ?q]
    by (auto simp: prog_simps split: if_splits)
  from ex3 obtain u v notMnt where tr3: "tr3 = u @ v"
    and prep: "exec (prepare_target ?tgt (pp_mountPermissions p)) u (Done (Inr notMnt))"
    and rest: "exec (if \<not> notMnt then Return (Inr ())
      else mount_volume poll ?vid ?tgt p uid podUID) v (Done r)"
    unfolding exec_attempt using q3 prepare_target_mounted [of ?tgt "pp_mountPermissions p" tr3 _ t] by blast
  from later [OF rest] q3 tr3 have "?q \<in> set u" by simp
  from prepare_target_mounted [OF prep this] have "notMnt = False" and "u = [?q]" by simp_all
  with rest tr3 have "r = Inr () \<and> tr3 = [?q]" by (simp add: prog_simps)
  with s1 [OF na] s2 [OF na] s3 [OF na] show ?thesis by simp
qed

theorem publish_already_mounted_witness:
  "exec (NodePublishVolume poll_once demo_driver demo_publish)
     (demo_publish_trace (cluster\<lparr>cl_mounted := True\<rparr>)) (Done (Inr ())) \<and>
   EAct (Mount [] ''/t'' [] []) None \<notin> set (demo_publish_trace (cluster\<lparr>cl_mounted := True\<rparr>))"
proof -
  let ?tr = "demo_publish_trace (cluster\<lparr>cl_mounted := True\<rparr>)"
  have ex: "exec (NodePublishVolume poll_once demo_driver demo_publish) ?tr (Done (Inr ()))"
    by (rule demo_publish_exec) code_simp
  have q: "EMountQuery (IsLikelyNotMountPoint ''/t'') (False, None) \<in> set ?tr" by code_simp
  from publish_already_mounted [OF poll_once_contract ex q] ex show ?thesis by blast
qed

section \<open>Failed bind mounts\<close>

text \<open>
  When the bind mount of the local source fails, \<^verbatim>\<open>NodePublishVolume\<close> answers the status of that
  error (PermissionDenied, InvalidArgument for a text with "invalid argument", Internal otherwise).
\<close>

theorem bind_mount_failure:
  assumes poll: "poll_contract poll" and ex: "exec (NodePublishVolume poll drv req) tr (Done r)"
    and mnt: "EAct (Mount src tgt [] opts) (Some e) \<in> set tr"
  shows "r = Inl (mount_status e)"
proof -
  have late: "\<not> before_mounting (EAct (Mount src tgt [] opts) (Some e))" by simp
  obtain p uid podUID tr' where "publish_parse drv req = Inr p"
    and m: "exec (mount_volume poll (pub_VolumeId req) (pub_TargetPath req) p uid podUID) tr' (Done r)"
    and s: "\<forall>e'. \<not> before_mounting e' \<longrightarrow> (e' \<in> set tr \<longleftrightarrow> e' \<in> set tr')"
    using publish_reaches_mount [OF poll ex mnt late] by blast
  from m obtain root ds derr source b x rest where
    tr': "tr' = EGetenv ''KUBELET_ROOT'' root # EReadDir (podVolumesDir root podUID) (ds, derr) #
       EMountQuery (IsNotMountPoint source) (b, x) # rest"
    and rest: "if b then exec (attempt (mount_remote poll (pp_dataNamespace p) (pub_VolumeId req)
              (nfsSVCDef (pub_VolumeId req) (pp_dataPVCName p) uid) (pub_TargetPath req) (pp_mountOptions p))
            (\<lambda>_. finish_publish (pub_TargetPath req) (pp_mountPermissions p) derr)) rest (Done r)
         else exec (bind (mount_local source (pub_TargetPath req) (pp_appPodNamespace p) (pp_appPodName p))
            (finish_publish (pub_TargetPath req) (pp_mountPermissions p))) rest (Done r)"
    by (rule mount_volume_Done)
  from s mnt late have mnt': "EAct (Mount src tgt [] opts) (Some e) \<in> set rest" by (auto simp: tr')
  have "\<not> b"
  proof
    assume b
    with rest have "exec (attempt (mount_remote poll (pp_dataNamespace p) (pub_VolumeId req)
              (nfsSVCDef (pub_VolumeId req) (pp_dataPVCName p) uid) (pub_TargetPath req) (pp_mountOptions p))
            (\<lambda>_. finish_publish (pub_TargetPath req) (pp_mountPermissions p) derr)) rest (Done r)" by simp
    from emitsD [OF emits_attempt [OF mount_remote_not_bind [OF poll] emits_not_bind_mount] this mnt']
    show False by simp
  qed
  with rest obtain r1 err r2 where r: "rest = r1 @ r2"
    and l: "exec (mount_local source (pub_TargetPath req) (pp_appPodNamespace p) (pp_appPodName p)) r1 (Done err)"
    and fin: "exec (finish_publish (pub_TargetPath req) (pp_mountPermissions p) err) r2 (Done r)"
    by (auto simp: exec_bind_Done)
  have "EAct (Mount src tgt [] opts) (Some e) \<notin> set r2"
    using emitsD [OF emits_not_bind_mount fin] by fastforce
  with mnt' r have "EAct (Mount src tgt [] opts) (Some e) \<in> set r1" by simp
  with exec_mount_local [OF l] have "err = Some e" by (cases err) auto
  with fin show ?thesis by (simp add: finish_publish_Some)
qed

theorem bind_mount_failure_witness:
  "exec (NodePublishVolume poll_once demo_driver demo_publish)
     (demo_publish_trace (cluster\<lparr>cl_mount_error := Some (GoError PermissionErr ''denied'')\<rparr>))
     (Done (Inl (mount_status (GoError PermissionErr ''denied'')))) \<and>
   mount_status (GoError PermissionErr ''denied'') = Status PermissionDenied (Text ''denied'')"
proof -
  let ?e = "GoError PermissionErr ''denied''"
  let ?tr = "demo_publish_trace (cluster\<lparr>cl_mount_error := Some ?e\<rparr>)"
  have ex: "exec (NodePublishVolume poll_once demo_driver demo_publish) ?tr
      (Done (Inl (Status PermissionDenied (Text ''denied''))))"
    by (rule demo_publish_exec) code_simp
  have "EAct (Mount ''/var/lib/kubelet/pods/pod-uid/volumes//kubernetes.io~csi/pvc-uid/mount''
      ''/t'' [] [''bind'']) (Some ?e) \<in> set ?tr" by code_simp
  from bind_mount_failure [OF poll_once_contract ex this] ex show ?thesis by simp
qed

end
