(* ===== verification/Publish_Objects.thy ===== *)
theory Publish_Objects
  imports Publish_Properties
begin

text \<open>
  Further properties of \<^verbatim>\<open>NodePublishVolume\<close>: permissions and panics, and the objects, paths and
  annotations it builds.
\<close>

section \<open>Permissions\<close>

text \<open>The permission bits of a path as the calls so far have shown or set them.\<close>

fun bits_after :: "string \<Rightarrow> event \<Rightarrow> 32 word option \<Rightarrow> 32 word option" where
  "bits_after t (ELstat t' (info, err)) old = (if t' = t \<and> err = None then Some (info_Mode info AND ModePerm) else old)"
| "bits_after t (EAct (Chmod t' m) err) old = (if t' = t \<and> err = None then Some (syscallMode m AND ModePerm) else old)"
| "bits_after t e old = old"

definition permission_bits :: "string \<Rightarrow> event list \<Rightarrow> 32 word option" where
  "permission_bits t tr = fold (bits_after t) tr None"

text \<open>
  C27: when a request with non-zero permissions has mounted something and was answered with success,
  the permission bits of the target are the low nine bits of those permissions.  Either they were
  read back and equal the permissions (as 32 bits), and no \<^verbatim>\<open>chmod\<close> was needed, or a last \<^verbatim>\<open>chmod\<close>
  succeeded, whose argument is the low 32 bits; of that argument \<^verbatim>\<open>os.Chmod\<close> only takes the nine
  permission bits (and Go's own three mode flags), so octal 1777 leaves 0777, without the sticky bit.
\<close>

theorem publish_sets_permissions:
  assumes poll: "poll_contract poll" and parse: "publish_parse drv req = Inr p"
    and ex: "exec (NodePublishVolume poll drv req) tr (Done (Inr ()))"
    and mnt: "EAct (Mount src tgt fs opts) res \<in> set tr" and w: "0 < pp_mountPermissions p"
  shows "permission_bits (pub_TargetPath req) tr = Some (ucast (pp_mountPermissions p) AND 511) \<and>
    (\<exists>info pre. tr = pre @ [ELstat (pub_TargetPath req) (info, None)] \<and>
        info_Mode info AND ModePerm = ucast (pp_mountPermissions p) \<or>
      tr = pre @ [ELstat (pub_TargetPath req) (info, None),
        EAct (Chmod (pub_TargetPath req) (ucast (pp_mountPermissions p))) None])"
proof -
  let ?vid = "pub_VolumeId req" and ?tgt = "pub_TargetPath req"
  from parse ex have "exec (publish_volume poll ?vid ?tgt p) tr (Done (Inr ()))"
    by (simp add: NodePublishVolume_def)
  then obtain tr1 uid tr2 tr3 podUID tr4 notMnt tr5 where tr: "tr = tr1 @ tr2 @ tr3 @ tr4 @ tr5"
    and 1: "exec (require_data_pvc (pp_dataNamespace p) (pp_dataPVCName p)) tr1 (Done (Inr uid))"
    and 2: "exec (ensure_statefulset (pp_dataNamespace p) ?vid
        (nfsSTSDef ?vid (pp_dataPVCName p) uid (pp_nfsPodImage p) (pp_nfsHostsAllow p))) tr2 (Done (Inr ()))"
    and 3: "exec (wait_backend_pod poll (pp_dataNamespace p) (?vid @ ''-0'')) tr3 (Done (Inr podUID))"
    and 4: "exec (prepare_target ?tgt (pp_mountPermissions p)) tr4 (Done (Inr notMnt))"
    and 5: "if notMnt then exec (mount_volume poll ?vid ?tgt p uid podUID) tr5 (Done (Inr ())) else tr5 = []"
    by (rule publish_volume_Inr)
  note frames = emits_before_mounting(1) emits_before_mounting(2) emits_before_mounting(3) [OF poll]
    emits_before_mounting(4)
  from emitsD [OF frames(1) 1] emitsD [OF frames(2) 2] emitsD [OF frames(3) 3] emitsD [OF frames(4) 4] mnt tr
  have "EAct (Mount src tgt fs opts) res \<in> set tr5" by fastforce
  with 5 have "exec (mount_volume poll ?vid ?tgt p uid podUID) tr5 (Done (Inr ()))"
    by (cases notMnt) simp_all
  then obtain pre fin where tr5: "tr5 = pre @ fin"
    and fin: "exec (finish_publish ?tgt (pp_mountPermissions p) None) fin (Done (Inr ()))"
  proof (cases rule: mount_volume_Inr [OF poll, consumes 1, case_names bound exported])
    case (bound src pre post fin x)
    then show thesis using that [of "pre @ EAct (Mount src ?tgt [] [''bind'']) None # post" fin] by simp
  next
    case (exported root ds src x u1 u2 svc res fin)
    then show thesis using that [of "EGetenv ''KUBELET_ROOT'' root # EReadDir (podVolumesDir root podUID) (ds, None) #
         EMountQuery (IsNotMountPoint src) (True, x) # u1 @ u2 @
         [EAct (Mount (svc_ClusterIP (svc :: service) @ '':/'') ?tgt ''nfs'' (pp_mountOptions p)) res]" fin]
      by simp
  qed
  from fin w have "exec (chmodIfPermissionMismatch ?tgt (ucast (pp_mountPermissions p))) fin (Done None)"
    by (simp add: finish_publish_Inr)
  then have "\<exists>info. fin = [ELstat ?tgt (info, None)] \<and> info_Mode info AND ModePerm = ucast (pp_mountPermissions p) \<or>
      fin = [ELstat ?tgt (info, None), EAct (Chmod ?tgt (ucast (pp_mountPermissions p))) None]"
    by (auto simp: exec_chmod)
  then obtain info pre where ends: "tr = pre @ [ELstat ?tgt (info, None)] \<and>
        info_Mode info AND ModePerm = ucast (pp_mountPermissions p) \<or>
      tr = pre @ [ELstat ?tgt (info, None), EAct (Chmod ?tgt (ucast (pp_mountPermissions p))) None]"
    unfolding tr tr5 by (metis append_assoc)
  have "(ucast (pp_mountPermissions p) :: 32 word) AND ModePerm = ucast (pp_mountPermissions p)"
    if "info_Mode info AND ModePerm = ucast (pp_mountPermissions p)"
    unfolding that [symmetric] by (simp add: and.assoc)
  with ends have "permission_bits ?tgt tr = Some (ucast (pp_mountPermissions p) AND ModePerm)"
    by (auto simp: permission_bits_def syscallMode_Perm)
  with ends show ?thesis by (auto simp: ModePerm_def)
qed

text \<open>A driver started for the permissions 1777, octal.\<close>

definition sticky_driver :: driver where
  "sticky_driver = demo_driver\<lparr>drv_mountPermissions := 1023\<rparr>"

theorem publish_sets_permissions_witness:
  "permission_bits ''/t'' (snd (demo_run cluster (NodePublishVolume poll_once sticky_driver demo_publish))) = Some 511"
proof -
  let ?tr = "snd (demo_run cluster (NodePublishVolume poll_once sticky_driver demo_publish))"
  have parse: "publish_parse sticky_driver demo_publish = Inr (demo_params\<lparr>pp_mountPermissions := 1023\<rparr>)" by code_simp
  have ok: "exec (NodePublishVolume poll_once sticky_driver demo_publish) ?tr (Done (Inr ()))"
    by (rule demo_exec) code_simp
  have mnt: "EAct (Mount ''/var/lib/kubelet/pods/pod-uid/volumes//kubernetes.io~csi/pvc-uid/mount''
      ''/t'' [] [''bind'']) None \<in> set ?tr" by code_simp
  have w: "0 < pp_mountPermissions (demo_params\<lparr>pp_mountPermissions := 1023\<rparr>)" by simp
  from publish_sets_permissions [OF poll_once_contract parse ok mnt w]
  show ?thesis by (simp add: demo_publish_def)
qed

text \<open>
  The mode \<^verbatim>\<open>chmod\<close> is called with after a mount is the 64-bit permissions modulo 2^32
  (\<^verbatim>\<open>os.FileMode\<close> has 32 bits), and it is called for non-zero permissions only; permissions of
  2^32, which the command line accepts, thus make the target inaccessible (mode 0).
\<close>

theorem chmod_mode_truncated:
  "{unat m | m tr r out. exec (finish_publish tgt w None) tr out \<and> EAct (Chmod tgt m) r \<in> set tr} =
     (if 0 < w then {unat w mod 2 ^ 32} else {}) \<and>
   unat (2 ^ 32 :: 64 word) mod 2 ^ 32 = 0"
proof -
  let ?m = "ucast w :: 32 word"
  have only: "m = ?m \<and> 0 < w" if "exec (finish_publish tgt w None) tr out" "EAct (Chmod tgt m) r \<in> set tr" for tr out m r
  proof -
    have "emits (\<lambda>e. \<forall>m r. e = EAct (Chmod tgt m) r \<longrightarrow> m = ?m \<and> 0 < w) (finish_publish tgt w None)"
      by (auto simp: finish_publish_def intro!: emits_intros chmod_emits split: option.split)
    from emitsD [OF this that] show ?thesis by blast
  qed
  have some: "\<exists>tr r out. exec (finish_publish tgt w None) tr out \<and> EAct (Chmod tgt ?m) r \<in> set tr" if "0 < w"
  proof -
    obtain info :: file_info where info: "info_Mode info AND ModePerm \<noteq> ?m"
    proof (cases "?m = 0")
      case True
      then show thesis using that [of "\<lparr>info_Mode = 511, info_IsDir = True\<rparr>"] by (simp add: ModePerm_def)
    next
      case False
      then show thesis using that [of "\<lparr>info_Mode = 0, info_IsDir = True\<rparr>"] by simp
    qed
    then have "exec (chmodIfPermissionMismatch tgt ?m) [ELstat tgt (info, None), EAct (Chmod tgt ?m) None] (Done None)"
      by (auto simp: exec_chmod)
    with that have "exec (finish_publish tgt w None) [ELstat tgt (info, None), EAct (Chmod tgt ?m) None] (Done (Inr ()))"
      by (simp add: finish_publish_Inr)
    then show ?thesis by (meson list.set_intros)
  qed
  have "{unat m | m tr r out. exec (finish_publish tgt w None) tr out \<and> EAct (Chmod tgt m) r \<in> set tr} =
     (if 0 < w then {unat ?m} else {})" using only some by auto
  moreover have "unat ?m = unat w mod 2 ^ 32" by (simp add: unsigned_ucast_eq take_bit_eq_mod)
  ultimately show ?thesis by simp
qed

section \<open>Panics\<close>

text \<open>
  \<^verbatim>\<open>NodePublishVolume\<close> never panics as long as the Kubernetes client returns an object with every
  answer, also beside an error (the handler dereferences two pods before it looks at the error).
\<close>

theorem publish_no_panic:
  assumes "poll_contract poll" and "exec (NodePublishVolume poll drv req) tr out" and "list_all never_nil tr"
  shows "out \<noteq> Panicked"
  using panic_free_exec [OF assms(2) publish_panic_free [OF assms(1)] assms(3)] .

theorem publish_no_panic_witness:
  "exec (NodePublishVolume poll_once demo_driver demo_publish) (demo_publish_trace cluster) (Done (Inr ())) \<and>
   Done (Inr () :: status + unit) \<noteq> Panicked"
proof -
  have "list_all never_nil (demo_publish_trace cluster)" by code_simp
  from publish_no_panic [OF poll_once_contract demo_publish_ok this] demo_publish_ok
  show ?thesis by blast
qed

section \<open>Objects, annotations and paths\<close>

text \<open>
  The stateful set and the service \<^verbatim>\<open>NodePublishVolume\<close> creates fit together: the set's
  selector and the service's select the pods of the template, the service has the set's governing
  name and exposes only ports and protocols the container opens (2049 among them), the readiness
  probe dials one of them, every mount has its volume, which is the data claim, and both are owned
  by that claim.
\<close>

theorem nfs_objects_fit:
  "let sts = nfsSTSDef vid claim uid img hosts; svc = nfsSVCDef vid claim uid;
       spec = tmpl_Spec (sts_Template sts); labels = tmpl_Labels (sts_Template sts)
   in selects (sts_MatchLabels sts) labels \<and> selects (svc_Selector svc) labels \<and>
      sts_ServiceName sts = meta_Name (svc_meta svc) \<and> meta_Name (sts_meta sts) = vid \<and> sts_Replicas sts = Some 1 \<and>
      (\<exists>c. spec_Containers spec = [c] \<and> ctr_Image c = img \<and>
         (\<lambda>p. (sport_Name p, sport_Protocol p, sport_Port p)) ` set (svc_Ports svc) =
           (\<lambda>p. (cport_Name p, cport_Protocol p, cport_ContainerPort p)) ` set (ctr_Ports c) \<and>
         2049 \<in> sport_Port ` set (svc_Ports svc) \<and>
         probe_PortName (ctr_ReadinessProbe c) \<in> cport_Name ` set (ctr_Ports c) \<and>
         vm_Name ` set (ctr_VolumeMounts c) \<subseteq> vol_Name ` set (spec_Volumes spec)) \<and>
      vol_ClaimName ` set (spec_Volumes spec) = {Some claim} \<and>
      map (\<lambda>r. (owner_Kind r, owner_Name r, owner_UID r)) (meta_OwnerReferences (sts_meta sts)) =
        [(''PersistentVolumeClaim'', claim, uid)] \<and>
      meta_OwnerReferences (svc_meta svc) = meta_OwnerReferences (sts_meta sts)"
  by (simp add: nfsSTSDef_def nfsSVCDef_def nfsMeta_def nfsContainer_def pvc_owner_def selects_def Let_def)

text \<open>
  The annotated copy of the application pod carries the highest deletion cost, keeps every
  other annotation (from none at all to any map) and everything else of the pod.
\<close>

theorem annotate_pod_frame:
  "(\<exists>a. meta_Annotations (pod_meta (annotate_pod p)) = Some a \<and>
      map_of a = (map_of (case meta_Annotations (pod_meta p) of None \<Rightarrow> [] | Some a \<Rightarrow> a))
        (deletionCostKey \<mapsto> maxDeletionCost)) \<and>
   (annotate_pod p)\<lparr>pod_meta := pod_meta p\<rparr> = p \<and>
   (pod_meta (annotate_pod p))\<lparr>meta_Annotations := meta_Annotations (pod_meta p)\<rparr> = pod_meta p"
  by (simp add: annotate_pod_def Let_def update_conv')

text \<open>
  The local source the loop over the pod's volume directories settles on is the path of the
  last directory that is not one of the four ephemeral kinds, although the loop means to stop at
  the first (its \<^verbatim>\<open>break\<close> leaves the \<^verbatim>\<open>switch\<close>); without such a directory the source stays what it was.
\<close>

theorem source_loop_last:
  "source_loop dir uid ds source =
     (let candidates = filter (\<lambda>d. d \<notin> set skippedVolumeDirs) ds
      in if candidates = [] then source else dataMountPoint dir uid (last candidates))"
proof (induction ds arbitrary: source)
  case Nil
  then show ?case by simp
next
  case (Cons d ds)
  then show ?case by (simp add: Let_def)
qed

end
