(* ===== verification/Node_Unpublish.thy ===== *)
theory Node_Unpublish
  imports Utils K8utils
begin

text \<open>
  \<^verbatim>\<open>NodeUnpublishVolume\<close> of \<^verbatim>\<open>pkg/nfsexport/nodeserver.go\<close>: clean the target up, find the volume,
  stop when a pod still uses its claim, and otherwise delete the backend.
\<close>

record unpublish_request =
  unpub_VolumeId :: string
  unpub_TargetPath :: string

definition uses_claim :: "string \<Rightarrow> pod \<Rightarrow> bool" where
  "uses_claim nfsPVCName p = list_ex (\<lambda>v. vol_ClaimName v = Some nfsPVCName) (pod_Volumes p)"

text \<open>The error of listing the pods is dropped; the list is dereferenced all the same.\<close>

definition still_used :: "claim_ref \<Rightarrow> bool prog" where
  "still_used ref =
     (if ref_Name ref \<noteq> [] \<and> ref_Namespace ref \<noteq> [] then
        ListPods (ref_Namespace ref) (\<lambda>(podList, _).
          deref podList (\<lambda>items. Return (list_ex (uses_claim (ref_Name ref)) items)))
      else Return False)"

text \<open>The loop over the volume's attributes: the data claim's name and namespace.\<close>

fun attributes_loop :: "gomap \<Rightarrow> string \<Rightarrow> string \<Rightarrow> string \<times> string" where
  "attributes_loop [] dataPVCName dataNamespace = (dataPVCName, dataNamespace)"
| "attributes_loop ((k, v) # m) dataPVCName dataNamespace =
     (if to_lower k = paramDataVolumeClaim then attributes_loop m v dataNamespace
      else if to_lower k = paramDataNamespace then attributes_loop m dataPVCName v
      else attributes_loop m dataPVCName dataNamespace)"

definition delete_backend :: "poller \<Rightarrow> string \<Rightarrow> pv \<Rightarrow> (status + unit) prog" where
  "delete_backend poll volumeID nfsPV =
     deref (pv_CSI nfsPV) (\<lambda>csi.
       let (dataPVCName, dataNamespace) = attributes_loop (csi_VolumeAttributes csi) [] []
       in Act (DeleteSTS dataNamespace volumeID) (\<lambda>_.
          Act (DeleteSVC dataNamespace volumeID) (\<lambda>_.
          bind (waitForPodRunning poll dataNamespace (volumeID @ ''-0'') (5 * Minute)) (\<lambda>_.
          Return (Inr ())))))"

text \<open>\<^verbatim>\<open>Spec.ClaimRef\<close> is a pointer: reading its name panics on a volume that is not bound.\<close>

definition release_volume :: "poller \<Rightarrow> string \<Rightarrow> (status + unit) prog" where
  "release_volume poll volumeID =
     bind (getPvById volumeID) (\<lambda>r.
       case r of
         Inl _ \<Rightarrow> Return (Inr ())
       | Inr nfsPV \<Rightarrow>
           deref (pv_ClaimRef nfsPV) (\<lambda>ref.
             bind (still_used ref) (\<lambda>used.
               if used then Return (Inr ()) else delete_backend poll volumeID nfsPV)))"

definition NodeUnpublishVolume :: "poller \<Rightarrow> unpublish_request \<Rightarrow> (status + unit) prog" where
  "NodeUnpublishVolume poll req =
     (if unpub_VolumeId req = [] then
        Return (Inl (Status InvalidArgument (Text ''Volume ID missing in request'')))
      else if unpub_TargetPath req = [] then
        Return (Inl (Status InvalidArgument (Text ''Target path missing in request'')))
      else
        Act (CleanupMountPoint (unpub_TargetPath req) True) (\<lambda>err.
          case err of
            Some e \<Rightarrow> Return (Inl (Status Internal
                (Fmt ''failed to unmount target %q: %v'' [unpub_TargetPath req, err_text e])))
          | None \<Rightarrow> release_volume poll (unpub_VolumeId req)))"

section \<open>Lemmas\<close>

lemma attributes_loop_values:
  "attributes_loop m c n = (param_value paramDataVolumeClaim m c, param_value paramDataNamespace m n)"
  by (induction m c n rule: attributes_loop.induct) auto

lemma exec_still_used:
  "exec (still_used ref) tr (Done used) \<longleftrightarrow>
     (if ref_Name ref \<noteq> [] \<and> ref_Namespace ref \<noteq> []
      then (\<exists>items err. tr = [EListPods (ref_Namespace ref) (Some items, err)] \<and>
              used = list_ex (uses_claim (ref_Name ref)) items)
      else tr = [] \<and> \<not> used)"
  by (auto simp: still_used_def prog_simps exec_deref split: option.splits)

text \<open>The specification of its effects, in the style of \<^verbatim>\<open>publish_permits\<close>.\<close>

definition volume_released :: "string \<Rightarrow> string \<Rightarrow> event list \<Rightarrow> bool" where
  "volume_released vid ns h \<longleftrightarrow>
     (\<exists>items pv csi ref. EListPVs (Some items, None) \<in> set h \<and>
        find (handles_volume vid) items = Some pv \<and> pv_CSI pv = Some csi \<and> pv_ClaimRef pv = Some ref \<and>
        ns = param_value paramDataNamespace (csi_VolumeAttributes csi) [] \<and>
        (ref_Name ref = [] \<or> ref_Namespace ref = [] \<or>
         (\<exists>pods err. EListPods (ref_Namespace ref) (Some pods, err) \<in> set h \<and>
            \<not> list_ex (uses_claim (ref_Name ref)) pods)))"

fun unpublish_permits :: "unpublish_request \<Rightarrow> event list \<Rightarrow> event \<Rightarrow> bool" where
  "unpublish_permits req h (EAct (CleanupMountPoint t ext) r) = (t = unpub_TargetPath req \<and> ext \<and> h = [])"
| "unpublish_permits req h (EAct (DeleteSTS ns n) r) =
     (n = unpub_VolumeId req \<and> EAct (CleanupMountPoint (unpub_TargetPath req) True) None \<in> set h \<and>
      volume_released n ns h)"
| "unpublish_permits req h (EAct (DeleteSVC ns n) r) =
     (n = unpub_VolumeId req \<and> (\<exists>x. EAct (DeleteSTS ns n) x \<in> set h) \<and> volume_released n ns h)"
| "unpublish_permits req h (EAct c r) = False"
| "unpublish_permits req h (EPvc (CreatePVC ns d) r) = False"
| "unpublish_permits req h (ESts c r) = False"
| "unpublish_permits req h (ESvc c r) = False"
| "unpublish_permits req h (EPod (UpdatePod ns p) r) = False"
| "unpublish_permits req h e = True"

lemma unpublish_permits_pod_read: "is_pod_read e \<Longrightarrow> unpublish_permits req h e"
  by (cases e rule: is_pod_read.cases) simp_all

lemma volume_released_more: "volume_released vid ns h \<Longrightarrow> volume_released vid ns (h @ h')"
  unfolding volume_released_def by (auto; blast)

lemma permits_delete_backend:
  assumes "poll_contract poll" and "pv_CSI pv = Some csi"
    and "EAct (CleanupMountPoint (unpub_TargetPath req) True) None \<in> set h"
    and rel: "volume_released (unpub_VolumeId req) (param_value paramDataNamespace (csi_VolumeAttributes csi) []) h"
  shows "guarded (unpublish_permits req) (delete_backend poll (unpub_VolumeId req) pv) h"
proof -
  have "guarded (unpublish_permits req) (bind (waitForPodRunning poll ns n t) (\<lambda>_. Return (Inr ()))) h'" for ns n t h'
    unfolding waitForPodRunning_def
    by (intro guarded_bind guarded_emits [OF running.wait_emits [OF assms(1), where P = is_pod_read]])
      (simp_all add: unpublish_permits_pod_read)
  with assms(2,3) volume_released_more [OF rel] rel show ?thesis
    by (auto simp: delete_backend_def attributes_loop_values)
qed

lemma permits_NodeUnpublishVolume:
  assumes "poll_contract poll"
  shows "guarded (unpublish_permits req) (NodeUnpublishVolume poll req) []"
proof -
  let ?clean = "EAct (CleanupMountPoint (unpub_TargetPath req) True) None"
  have "guarded (unpublish_permits req) (release_volume poll (unpub_VolumeId req)) [?clean]"
    unfolding release_volume_def
  proof (rule guarded_bind)
    show "guarded (unpublish_permits req) (getPvById (unpub_VolumeId req)) [?clean]"
      by (rule guarded_emits [OF getPvById_emits [where P = "\<lambda>e. \<exists>r. e = EListPVs r"]]) auto
  next
    fix tr r
    assume get: "exec (getPvById (unpub_VolumeId req)) tr (Done r)"
    show "guarded (unpublish_permits req) (case r of Inl _ \<Rightarrow> Return (Inr ())
       | Inr nfsPV \<Rightarrow> deref (pv_ClaimRef nfsPV) (\<lambda>ref. bind (still_used ref) (\<lambda>used.
             if used then Return (Inr ()) else delete_backend poll (unpub_VolumeId req) nfsPV))) ([?clean] @ tr)"
    proof (cases r)
      case (Inl e)
      then show ?thesis by simp
    next
      case (Inr pv)
      with get obtain items where tr: "tr = [EListPVs (Some items, None)]"
        and found: "find (handles_volume (unpub_VolumeId req)) items = Some pv"
        by (auto simp: exec_getPvById_Inr)
      then obtain csi where csi: "pv_CSI pv = Some csi"
        by (auto simp: find_Some_iff handles_volume_def split: option.splits)
      have "guarded (unpublish_permits req) (bind (still_used ref) (\<lambda>used.
          if used then Return (Inr ()) else delete_backend poll (unpub_VolumeId req) pv)) ([?clean] @ tr)"
        if ref: "pv_ClaimRef pv = Some ref" for ref
      proof (rule guarded_bind)
        show "guarded (unpublish_permits req) (still_used ref) ([?clean] @ tr)"
          by (auto simp: still_used_def deref_def split: option.split)
      next
        fix u used
        assume "exec (still_used ref) u (Done used)"
        then have "volume_released (unpub_VolumeId req)
            (param_value paramDataNamespace (csi_VolumeAttributes csi) []) (([?clean] @ tr) @ u)" if "\<not> used"
          using that found csi ref unfolding volume_released_def exec_still_used tr
          by (auto split: if_splits)
        then show "guarded (unpublish_permits req) (if used then Return (Inr ())
            else delete_backend poll (unpub_VolumeId req) pv) (([?clean] @ tr) @ u)"
          using permits_delete_backend [OF assms csi, of req "([?clean] @ tr) @ u"] by simp
      qed
      then show ?thesis by (auto simp: Inr intro: guarded_deref)
    qed
  qed
  then show ?thesis by (auto simp: NodeUnpublishVolume_def split: option.split)
qed

end
