(* ===== verification/Get_Or_Create.thy ===== *)
theory Get_Or_Create
  imports Node_Publish
begin

text \<open>
  The idiom the driver makes objects exist with: read the object and create it when the read
  fails.  The contract is shared by the stateful set, the service and (in the controller) the data
  claim.
\<close>

text \<open>
  \<open>got\<close> is a read that found the object, \<open>missing\<close> a read that failed, \<open>created\<close> and \<open>refused\<close> the
  two outcomes of the creation.
\<close>

locale get_or_create =
  fixes ensure :: "('e + 'a) prog"
    and got :: "event \<Rightarrow> bool"
    and missing :: "event \<Rightarrow> bool"
    and created :: "event \<Rightarrow> bool"
    and refused :: "event \<Rightarrow> bool"
  assumes ensure_trace: "exec ensure tr (Done r) \<Longrightarrow>
      (\<exists>e. tr = [e] \<and> got e \<and> (\<exists>a. r = Inr a)) \<or>
      (\<exists>e1 e2. tr = [e1, e2] \<and> missing e1 \<and> ((\<exists>a. r = Inr a) \<and> created e2 \<or> (\<exists>s. r = Inl s) \<and> refused e2))"
    and no_panic: "\<not> exec ensure tr Panicked"
    and got_not_refused: "got e \<Longrightarrow> \<not> refused e"
    and missing_not_refused: "missing e \<Longrightarrow> \<not> refused e"
    and created_not_refused: "created e \<Longrightarrow> \<not> refused e"
begin

text \<open>After success the object was read or created; failure means that creating it was refused.\<close>

lemma ensured: "exec ensure tr (Done (Inr a)) \<Longrightarrow> \<exists>e \<in> set tr. got e \<or> created e"
  by (fastforce dest: ensure_trace)

lemma failed_iff_refused: "exec ensure tr (Done r) \<Longrightarrow> (\<exists>s. r = Inl s) \<longleftrightarrow> (\<exists>e \<in> set tr. refused e)"
  by (auto dest!: ensure_trace dest: got_not_refused missing_not_refused created_not_refused)

lemma created_after_missing:
  "exec ensure (tr1 @ e # tr2) (Done r) \<Longrightarrow> \<not> got e \<Longrightarrow> \<not> missing e \<Longrightarrow> \<exists>e0. tr1 = [e0] \<and> missing e0"
  by (fastforce dest!: ensure_trace simp: append_eq_Cons_conv)

lemma at_most_two_calls: "exec ensure tr (Done r) \<Longrightarrow> length tr \<le> 2"
  by (fastforce dest!: ensure_trace)

end

fun sts_got :: "string \<Rightarrow> string \<Rightarrow> event \<Rightarrow> bool" where
  "sts_got ns n (ESts c (obj, err)) = (c = GetSTS ns n \<and> err = None)"
| "sts_got ns n e = False"

fun sts_missing :: "string \<Rightarrow> string \<Rightarrow> event \<Rightarrow> bool" where
  "sts_missing ns n (ESts c (obj, err)) = (c = GetSTS ns n \<and> err \<noteq> None)"
| "sts_missing ns n e = False"

fun sts_created :: "string \<Rightarrow> statefulset \<Rightarrow> bool \<Rightarrow> event \<Rightarrow> bool" where
  "sts_created ns def ok (ESts c (obj, err)) = (c = CreateSTS ns def \<and> ok = (err = None))"
| "sts_created ns def ok e = False"

fun svc_got :: "string \<Rightarrow> string \<Rightarrow> event \<Rightarrow> bool" where
  "svc_got ns n (ESvc c (obj, err)) = (c = GetSVC ns n \<and> err = None)"
| "svc_got ns n e = False"

fun svc_missing :: "string \<Rightarrow> string \<Rightarrow> event \<Rightarrow> bool" where
  "svc_missing ns n (ESvc c (obj, err)) = (c = GetSVC ns n \<and> err \<noteq> None)"
| "svc_missing ns n e = False"

fun svc_created :: "string \<Rightarrow> service \<Rightarrow> bool \<Rightarrow> event \<Rightarrow> bool" where
  "svc_created ns def ok (ESvc c (obj, err)) = (c = CreateSVC ns def \<and> ok = (err = None))"
| "svc_created ns def ok e = False"

lemma sts_event_cases:
  "sts_got ns n e \<longleftrightarrow> (\<exists>obj. e = ESts (GetSTS ns n) (obj, None))"
  "sts_missing ns n e \<longleftrightarrow> (\<exists>obj x. e = ESts (GetSTS ns n) (obj, Some x))"
  "sts_created ns def ok e \<longleftrightarrow> (\<exists>obj err. e = ESts (CreateSTS ns def) (obj, err) \<and> ok = (err = None))"
  by (cases "(ns, n, e)" rule: sts_got.cases; auto)+

lemma svc_event_cases:
  "svc_got ns n e \<longleftrightarrow> (\<exists>obj. e = ESvc (GetSVC ns n) (obj, None))"
  "svc_missing ns n e \<longleftrightarrow> (\<exists>obj x. e = ESvc (GetSVC ns n) (obj, Some x))"
  "svc_created ns def ok e \<longleftrightarrow> (\<exists>obj err. e = ESvc (CreateSVC ns def) (obj, err) \<and> ok = (err = None))"
  by (cases "(ns, n, e)" rule: svc_got.cases; auto)+

interpretation nfs_sts: get_or_create "ensure_statefulset ns n def" "sts_got ns n" "sts_missing ns n"
  "sts_created ns def True" "sts_created ns def False"
  for ns n def
  by unfold_locales
    (auto simp: ensure_statefulset_def sts_event_cases prog_simps split: option.splits)

interpretation nfs_svc: get_or_create "ensure_service ns n def" "svc_got ns n" "svc_missing ns n"
  "svc_created ns def True" "svc_created ns def False"
  for ns n def
  by unfold_locales
    (auto simp: ensure_service_def svc_event_cases prog_simps split: option.splits)

end
