(* ===== verification/Controller_Server.thy ===== *)
theory Controller_Server
  imports Utils K8utils Get_Or_Create
begin

text \<open>
  \<^verbatim>\<open>pkg/nfsexport/controllerserver.go\<close>: the controller service.  \<^verbatim>\<open>CreateVolume\<close> reads the storage
  class parameters, picks a storage class, gets or creates the data claim and answers the volume
  whose context the node service reads; \<^verbatim>\<open>DeleteVolume\<close> looks the volume up and deletes a claim.
\<close>

section \<open>Requests and answers\<close>

record controller_server =
  cs_Driver :: driver

definition NewControllerServer :: "driver \<Rightarrow> controller_server" where
  "NewControllerServer d = \<lparr>cs_Driver = d\<rparr>"

record create_request =
  req_Name :: string
  req_VolumeCapabilities :: "volume_capability list"
  req_Parameters :: "gomap option"
  req_RequiredBytes :: "64 word"

record csi_volume =
  vol_VolumeId :: string
  vol_CapacityBytes :: "64 word"
  vol_VolumeContext :: gomap

definition isValidVolumeCapabilities :: "volume_capability list \<Rightarrow> go_error option" where
  "isValidVolumeCapabilities volCaps =
     (if volCaps = [] then Some (errorf ''volume capabilities missing in request'') else None)"

section \<open>The parameters of a storage class\<close>

record create_params =
  cp_dataSC :: string
  cp_nfsServerImage :: string
  cp_nfsHostsAllow :: string
  cp_nfsPVCName :: string
  cp_nfsPVCNamespace :: string

definition create_defaults :: create_params where
  "create_defaults = \<lparr>cp_dataSC = [], cp_nfsServerImage = [], cp_nfsHostsAllow = [],
     cp_nfsPVCName = [], cp_nfsPVCNamespace = []\<rparr>"

text \<open>One iteration; the error's text is formatted a second time, without arguments.\<close>

definition create_step :: "string \<Rightarrow> string \<Rightarrow> create_params \<Rightarrow> status + create_params" where
  "create_step k v p =
     (let key = to_lower k in
      if key = paramDataStorageClass then Inr (p\<lparr>cp_dataSC := v\<rparr>)
      else if key = paramNfsServerImage then Inr (p\<lparr>cp_nfsServerImage := v\<rparr>)
      else if key = paramNfsHostsAllow then Inr (p\<lparr>cp_nfsHostsAllow := v\<rparr>)
      else if key = pvcNameKey then Inr (p\<lparr>cp_nfsPVCName := v\<rparr>)
      else if key = pvcNamespaceKey then Inr (p\<lparr>cp_nfsPVCNamespace := v\<rparr>)
      else if key = pvNameKey then Inr p
      else if key = mountPermissionsField then Inr p
      else Inl (Status InvalidArgument (Refmt ''invalid parameter %q in storage class'' [k])))"

definition create_keys :: "string list" where
  "create_keys = [paramDataStorageClass, paramNfsServerImage, paramNfsHostsAllow, pvcNameKey,
     pvcNamespaceKey, pvNameKey, mountPermissionsField]"

section \<open>The storage class and the data claim\<close>

definition defaultClassKey :: string where
  "defaultClassKey = ''storageclass.kubernetes.io/is-default-class''"

definition is_default_class :: "storage_class \<Rightarrow> bool" where
  "is_default_class sc =
     (case meta_Annotations (sc_meta sc) of
        None \<Rightarrow> False
      | Some a \<Rightarrow> map_of a defaultClassKey = Some ''true'')"

definition choose_storage_class :: "string \<Rightarrow> string prog" where
  "choose_storage_class dataSC =
     (if dataSC = [] then
        ListSCs (\<lambda>(scList, err).
          case err of
            None \<Rightarrow> deref scList (\<lambda>items.
              case find is_default_class items of
                Some sc \<Rightarrow> Return (meta_Name (sc_meta sc))
              | None \<Rightarrow> Return dataSC)
          | Some _ \<Rightarrow> Return dataSC)
      else Return dataSC)"

definition dataPVCDef :: "string \<Rightarrow> string \<Rightarrow> 64 word \<Rightarrow> pvc" where
  "dataPVCDef volumeID dataSC bytes =
     \<lparr>pvc_meta = \<lparr>meta_Name = volumeID, meta_UID = [], meta_Labels = [(idLabel, volumeID)],
                 meta_Annotations = None, meta_OwnerReferences = []\<rparr>,
      pvc_StorageClassName = Some dataSC,
      pvc_AccessModes = [ReadWriteOnce],
      pvc_StorageRequest = Some (NewQuantity bytes BinarySI)\<rparr>"

definition ensure_data_pvc :: "string \<Rightarrow> string \<Rightarrow> pvc \<Rightarrow> (status + pvc option) prog" where
  "ensure_data_pvc dataNamespace dataPVCName def =
     PvcCall (GetPVC dataNamespace dataPVCName) (\<lambda>(dataPVC, err).
       case err of
         None \<Rightarrow> Return (Inr dataPVC)
       | Some _ \<Rightarrow> PvcCall (CreatePVC dataNamespace def) (\<lambda>(dataPVC, err).
           case err of
             None \<Rightarrow> Return (Inr dataPVC)
           | Some e \<Rightarrow> Return (Inl (Status Canceled (Text (err_text e))))))"

section \<open>CreateVolume and DeleteVolume\<close>

definition volume_id :: "string \<Rightarrow> string" where
  "volume_id nfsPVName = replace1 nfsPVName ''pvc-'' ''nfs-''"

definition volume_context :: "string \<Rightarrow> string \<Rightarrow> string \<Rightarrow> string \<Rightarrow> gomap" where
  "volume_context dataPVCName dataNamespace nfsServerImage nfsHostsAllow =
     [(paramDataVolumeClaim, dataPVCName), (paramDataNamespace, dataNamespace),
      (paramNfsServerImage, nfsServerImage), (paramNfsHostsAllow, nfsHostsAllow)]"

text \<open>The checks before the first call: the parameters, or the status to answer with.\<close>

definition create_parse :: "create_request \<Rightarrow> status + create_params" where
  "create_parse req =
     (if req_Name req = [] then
        Inl (Status InvalidArgument (Text ''CreateVolume name must be provided''))
      else
        (case isValidVolumeCapabilities (req_VolumeCapabilities req) of
           Some e \<Rightarrow> Inl (Status InvalidArgument (Text (err_text e)))
         | None \<Rightarrow>
             (let parameters = (case req_Parameters req of None \<Rightarrow> [] | Some m \<Rightarrow> m)
              in scan create_step parameters create_defaults)))"

definition create_volume :: "string \<Rightarrow> 64 word \<Rightarrow> create_params \<Rightarrow> (status + csi_volume) prog" where
  "create_volume nfsPVName bytes p =
     (let volumeID = volume_id nfsPVName;
          dataPVCName = volumeID;
          dataNamespace = cp_nfsPVCNamespace p
      in bind (choose_storage_class (cp_dataSC p)) (\<lambda>dataSC.
         let nfsServerImage = (if cp_nfsServerImage p = [] then defaultNfsImage else cp_nfsServerImage p)
         in attempt (ensure_data_pvc dataNamespace dataPVCName (dataPVCDef volumeID dataSC bytes)) (\<lambda>dataPVC.
            deref dataPVC (\<lambda>dataPVC.
              Return (Inr \<lparr>vol_VolumeId = volumeID, vol_CapacityBytes = 0,
                vol_VolumeContext =
                  volume_context dataPVCName dataNamespace nfsServerImage (cp_nfsHostsAllow p)\<rparr>)))))"

definition CreateVolume :: "create_request \<Rightarrow> (status + csi_volume) prog" where
  "CreateVolume req =
     (case create_parse req of
        Inl e \<Rightarrow> Return (Inl e)
      | Inr p \<Rightarrow> create_volume (req_Name req) (req_RequiredBytes req) p)"

text \<open>The volume found has a CSI source, or \<^verbatim>\<open>getPvById\<close> would not have found it.\<close>

definition DeleteVolume :: "string \<Rightarrow> (status + unit) prog" where
  "DeleteVolume volumeID =
     (if volumeID = [] then Return (Inl (Status InvalidArgument (Text ''volume id is empty'')))
      else
        bind (getPvById volumeID) (\<lambda>r.
          case r of
            Inl _ \<Rightarrow> Return (Inr ())
          | Inr nfsPV \<Rightarrow> deref (pv_CSI nfsPV) (\<lambda>csi.
              let dataPVCName = map_index (csi_VolumeAttributes csi) ''nfsVolumeClaim'';
                  dataNamespace = map_index (csi_VolumeAttributes csi) ''nfsNamespace''
              in Act (DeletePVC dataNamespace dataPVCName) (\<lambda>_. Return (Inr ())))))"

section \<open>The other calls\<close>

definition unimplemented :: status where
  "unimplemented = Status Unimplemented (Text [])"

text \<open>The calls the controller answers with \<^verbatim>\<open>Unimplemented\<close>, whatever the request.\<close>

datatype controller_stub =
    ControllerPublishVolume | ControllerUnpublishVolume | ControllerGetVolume | ListVolumes | GetCapacity
  | CreateSnapshot | DeleteSnapshot | ListSnapshots | ControllerExpandVolume

definition controller_unimplemented :: "controller_stub \<Rightarrow> status" where
  "controller_unimplemented rpc = unimplemented"

definition ValidateVolumeCapabilities ::
  "string \<Rightarrow> volume_capability list \<Rightarrow> status + volume_capability list" where
  "ValidateVolumeCapabilities volumeId volCaps =
     (if volumeId = [] then Inl (Status InvalidArgument (Text ''Volume ID missing in request''))
      else (case isValidVolumeCapabilities volCaps of
              Some e \<Rightarrow> Inl (Status InvalidArgument (Text (err_text e)))
            | None \<Rightarrow> Inr volCaps))"

definition ControllerGetCapabilities :: "controller_server \<Rightarrow> controller_capability list" where
  "ControllerGetCapabilities cs = drv_cscap (cs_Driver cs)"

end
