(* ===== verification/Controller_Properties.thy ===== *)
theory Controller_Properties
  imports Controller_Server Scenario
begin

text \<open>
  What the controller service guarantees: which requests it rejects, what it creates and deletes,
  and what it answers.
\<close>

section \<open>Getting or creating the data claim\<close>

fun pvc_got :: "string \<Rightarrow> string \<Rightarrow> event \<Rightarrow> bool" where
  "pvc_got ns n (EPvc c (obj, err)) = (c = GetPVC ns n \<and> err = None)"
| "pvc_got ns n e = False"

fun pvc_missing :: "string \<Rightarrow> string \<Rightarrow> event \<Rightarrow> bool" where
  "pvc_missing ns n (EPvc c (obj, err)) = (c = GetPVC ns n \<and> err \<noteq> None)"
| "pvc_missing ns n e = False"

fun pvc_created :: "string \<Rightarrow> pvc \<Rightarrow> bool \<Rightarrow> event \<Rightarrow> bool" where
  "pvc_created ns def ok (EPvc c (obj, err)) = (c = CreatePVC ns def \<and> ok = (err = None))"
| "pvc_created ns def ok e = False"

lemma pvc_event_cases:
  "pvc_got ns n e \<longleftrightarrow> (\<exists>obj. e = EPvc (GetPVC ns n) (obj, None))"
  "pvc_missing ns n e \<longleftrightarrow> (\<exists>obj x. e = EPvc (GetPVC ns n) (obj, Some x))"
  "pvc_created ns def ok e \<longleftrightarrow> (\<exists>obj err. e = EPvc (CreatePVC ns def) (obj, err) \<and> ok = (err = None))"
  by (cases "(ns, n, e)" rule: pvc_got.cases; auto)+

interpretation data_pvc: get_or_create "ensure_data_pvc ns n def" "pvc_got ns n" "pvc_missing ns n"
  "pvc_created ns def True" "pvc_created ns def False"
  for ns n def
  by unfold_locales
    (auto simp: ensure_data_pvc_def pvc_event_cases prog_simps split: option.splits)

section \<open>The scan of the parameters\<close>

lemma create_step_Inr:
  "create_step k v p = Inr q \<longleftrightarrow> to_lower k \<in> set create_keys \<and>
     q = \<lparr>cp_dataSC = (if to_lower k = paramDataStorageClass then v else cp_dataSC p),
          cp_nfsServerImage = (if to_lower k = paramNfsServerImage then v else cp_nfsServerImage p),
          cp_nfsHostsAllow = (if to_lower k = paramNfsHostsAllow then v else cp_nfsHostsAllow p),
          cp_nfsPVCName = (if to_lower k = pvcNameKey then v else cp_nfsPVCName p),
          cp_nfsPVCNamespace = (if to_lower k = pvcNamespaceKey then v else cp_nfsPVCNamespace p)\<rparr>"
proof -
  have iff: "Inr a = (Inr q :: status + create_params) \<longleftrightarrow> q = a" for a by auto
  show ?thesis by (cases p) (auto simp: create_step_def create_keys_def Let_def iff)
qed

lemma create_step_Inl: "create_step k v p = Inl e \<Longrightarrow> to_lower k \<notin> set create_keys \<and> status_code e = InvalidArgument"
  by (auto simp: create_step_def Let_def create_keys_def split: if_splits)

interpretation create_scan: param_scan create_step
  by unfold_locales (auto simp: create_step_Inr)

interpretation create_sc: param_field create_step paramDataStorageClass cp_dataSC
  by unfold_locales (simp_all add: create_step_Inr)

interpretation create_image: param_field create_step paramNfsServerImage cp_nfsServerImage
  by unfold_locales (simp_all add: create_step_Inr)

interpretation create_hosts: param_field create_step paramNfsHostsAllow cp_nfsHostsAllow
  by unfold_locales (simp_all add: create_step_Inr)

interpretation create_pvc_ns: param_field create_step pvcNamespaceKey cp_nfsPVCNamespace
  by unfold_locales (simp_all add: create_step_Inr)

lemmas create_fields =
  create_sc.scan_field create_image.scan_field create_hosts.scan_field create_pvc_ns.scan_field

definition request_parameters :: "create_request \<Rightarrow> gomap" where
  "request_parameters req = (case req_Parameters req of None \<Rightarrow> [] | Some m \<Rightarrow> m)"

lemma create_scan_fails_iff:
  "(\<exists>e. scan create_step m s = Inl e) \<longleftrightarrow> (\<exists>k \<in> set (lower_keys m). k \<notin> set create_keys)"
proof (induction m arbitrary: s)
  case Nil
  then show ?case by simp
next
  case (Cons p m)
  obtain k v where p: "p = (k, v)" by (cases p)
  show ?case
  proof (cases "create_step k v s")
    case (Inl e)
    then have "to_lower k \<notin> set create_keys" by (simp add: create_step_Inl)
    with Inl show ?thesis by (simp add: p)
  next
    case (Inr t)
    then have "to_lower k \<in> set create_keys" by (simp add: create_step_Inr)
    with Inr Cons.IH [of t] show ?thesis by (simp add: p)
  qed
qed

lemma create_parse_iff:
  "create_parse req = Inr p \<longleftrightarrow> req_Name req \<noteq> [] \<and> req_VolumeCapabilities req \<noteq> [] \<and>
     scan create_step (request_parameters req) create_defaults = Inr p"
  by (simp add: create_parse_def isValidVolumeCapabilities_def request_parameters_def Let_def)

lemma create_parse_Inl: "create_parse req = Inl e \<Longrightarrow> status_code e = InvalidArgument"
  by (auto simp: create_parse_def isValidVolumeCapabilities_def Let_def
      split: if_splits option.splits dest!: scan_Inl create_step_Inl)

lemma create_parse_fails_iff:
  "(\<exists>e. create_parse req = Inl e) \<longleftrightarrow> req_Name req = [] \<or> req_VolumeCapabilities req = [] \<or>
     (\<exists>k \<in> set (lower_keys (request_parameters req)). k \<notin> set create_keys)"
  using create_scan_fails_iff [of "request_parameters req" create_defaults]
  by (auto simp: create_parse_def isValidVolumeCapabilities_def request_parameters_def Let_def)

section \<open>Runs of CreateVolume\<close>

text \<open>The class asked for, or the first default class listed, or none.\<close>

definition class_from :: "string \<Rightarrow> event list \<Rightarrow> string \<Rightarrow> bool" where
  "class_from asked tr sc \<longleftrightarrow>
     asked \<noteq> [] \<and> tr = [] \<and> sc = asked \<or>
     asked = [] \<and> (\<exists>e obj. tr = [EListSCs (obj, Some e)] \<and> sc = []) \<or>
     asked = [] \<and> (\<exists>items. tr = [EListSCs (Some items, None)] \<and>
       sc = (case find is_default_class items of Some c \<Rightarrow> meta_Name (sc_meta c) | None \<Rightarrow> []))"

lemma exec_choose_storage_class:
  "exec (choose_storage_class asked) tr (Done sc) \<Longrightarrow> class_from asked tr sc"
proof (cases "asked = []")
  case True
  assume "exec (choose_storage_class asked) tr (Done sc)"
  then obtain obj err where tr: "tr = [EListSCs (obj, err)]"
    and sc: "case err of None \<Rightarrow> (\<exists>items. obj = Some items \<and>
        sc = (case find is_default_class items of Some c \<Rightarrow> meta_Name (sc_meta c) | None \<Rightarrow> []))
      | Some e \<Rightarrow> sc = []"
    by (auto simp: choose_storage_class_def True prog_simps exec_deref split: option.splits)
  with True show ?thesis by (cases err) (auto simp: class_from_def)
next
  case False
  assume "exec (choose_storage_class asked) tr (Done sc)"
  with False show ?thesis by (simp add: choose_storage_class_def class_from_def prog_simps)
qed

definition create_answer :: "string \<Rightarrow> create_params \<Rightarrow> csi_volume" where
  "create_answer name p =
     \<lparr>vol_VolumeId = volume_id name, vol_CapacityBytes = 0,
      vol_VolumeContext = volume_context (volume_id name) (cp_nfsPVCNamespace p)
        (if cp_nfsServerImage p = [] then defaultNfsImage else cp_nfsServerImage p) (cp_nfsHostsAllow p)\<rparr>"

lemma exec_create_volume:
  assumes "exec (create_volume name bytes p) tr (Done r)"
  obtains sc tr1 tr2 where "tr = tr1 @ tr2" and "class_from (cp_dataSC p) tr1 sc"
    and "(\<exists>s. r = Inl s \<and> exec (ensure_data_pvc (cp_nfsPVCNamespace p) (volume_id name)
            (dataPVCDef (volume_id name) sc bytes)) tr2 (Done (Inl s))) \<or>
         (\<exists>pvc. r = Inr (create_answer name p) \<and> exec (ensure_data_pvc (cp_nfsPVCNamespace p) (volume_id name)
            (dataPVCDef (volume_id name) sc bytes)) tr2 (Done (Inr (Some pvc))))"
proof -
  from assms obtain tr1 sc tr2 where tr: "tr = tr1 @ tr2"
    and sc: "exec (choose_storage_class (cp_dataSC p)) tr1 (Done sc)"
    and rest: "exec (attempt (ensure_data_pvc (cp_nfsPVCNamespace p) (volume_id name)
        (dataPVCDef (volume_id name) sc bytes)) (\<lambda>dataPVC. deref dataPVC (\<lambda>dataPVC.
          Return (Inr (create_answer name p))))) tr2 (Done r)"
    unfolding create_volume_def Let_def exec_bind_Done create_answer_def by blast
  from rest have "(\<exists>s. r = Inl s \<and> exec (ensure_data_pvc (cp_nfsPVCNamespace p) (volume_id name)
            (dataPVCDef (volume_id name) sc bytes)) tr2 (Done (Inl s))) \<or>
         (\<exists>pvc. r = Inr (create_answer name p) \<and> exec (ensure_data_pvc (cp_nfsPVCNamespace p) (volume_id name)
            (dataPVCDef (volume_id name) sc bytes)) tr2 (Done (Inr (Some pvc))))"
    unfolding exec_attempt by (auto simp: exec_deref prog_simps split: option.splits)
  with tr exec_choose_storage_class [OF sc] show thesis by (rule that)
qed

lemma exec_CreateVolume:
  "exec (CreateVolume req) tr (Done r) \<longleftrightarrow>
     (case create_parse req of
        Inl e \<Rightarrow> tr = [] \<and> r = Inl e
      | Inr p \<Rightarrow> exec (create_volume (req_Name req) (req_RequiredBytes req) p) tr (Done r))"
  by (auto simp: CreateVolume_def prog_simps split: sum.split)

lemma create_volume_calls: "exec (create_volume name bytes p) tr (Done r) \<Longrightarrow> tr \<noteq> []"
  by (erule exec_create_volume) (auto dest!: data_pvc.ensure_trace)

lemma class_from_lists: "class_from asked tr sc \<Longrightarrow> EPvc c reply \<notin> set tr"
  by (auto simp: class_from_def)

lemma create_ensured:
  assumes "create_parse req = Inr p" and "exec (CreateVolume req) tr (Done (Inr vol))"
  shows "vol = create_answer (req_Name req) p \<and>
    ((\<exists>pvc. EPvc (GetPVC (cp_nfsPVCNamespace p) (volume_id (req_Name req))) (pvc, None) \<in> set tr) \<or>
     (\<exists>sc pvc. EPvc (CreatePVC (cp_nfsPVCNamespace p) (dataPVCDef (volume_id (req_Name req)) sc (req_RequiredBytes req)))
        (pvc, None) \<in> set tr))"
proof -
  from assms have "exec (create_volume (req_Name req) (req_RequiredBytes req) p) tr (Done (Inr vol))"
    by (simp add: exec_CreateVolume)
  then obtain sc tr1 tr2 pvc where "tr = tr1 @ tr2" and "vol = create_answer (req_Name req) p"
    and ens: "exec (ensure_data_pvc (cp_nfsPVCNamespace p) (volume_id (req_Name req))
        (dataPVCDef (volume_id (req_Name req)) sc (req_RequiredBytes req))) tr2 (Done (Inr (Some pvc)))"
    by (rule exec_create_volume) auto
  with data_pvc.ensured [OF ens] show ?thesis by (auto simp: pvc_event_cases)
qed

section \<open>Properties\<close>

text \<open>
  C29: \<^verbatim>\<open>CreateVolume\<close> answers without a single call exactly when the name or the capabilities are
  missing or some storage class parameter is none of the seven names (in any case); every such
  answer is InvalidArgument.
\<close>

theorem create_rejects:
  "((\<exists>s. exec (CreateVolume req) [] (Done (Inl s))) \<longleftrightarrow>
      req_Name req = [] \<or> req_VolumeCapabilities req = [] \<or>
      (\<exists>k \<in> set (lower_keys (request_parameters req)). k \<notin> set create_keys)) \<and>
   {s. exec (CreateVolume req) [] (Done (Inl s))} \<subseteq> {s. status_code s = InvalidArgument}"
proof -
  have "exec (CreateVolume req) [] (Done (Inl s)) \<longleftrightarrow> create_parse req = Inl s" for s
    by (auto simp: exec_CreateVolume dest: create_volume_calls split: sum.splits)
  with create_parse_fails_iff [of req] create_parse_Inl [of req] show ?thesis by auto
qed

text \<open>
  C30: a successful \<^verbatim>\<open>CreateVolume\<close> answers the volume ID, capacity 0 and the four context entries
  that its request determines, after having read the data claim of that name in the claim's
  namespace or created it with the requested size.
\<close>

theorem create_success:
  assumes "create_parse req = Inr p" and "exec (CreateVolume req) tr (Done (Inr vol))"
  shows "vol = create_answer (req_Name req) p \<and>
    ((\<exists>pvc. EPvc (GetPVC (cp_nfsPVCNamespace p) (vol_VolumeId vol)) (pvc, None) \<in> set tr) \<or>
     (\<exists>sc pvc. EPvc (CreatePVC (cp_nfsPVCNamespace p) (dataPVCDef (vol_VolumeId vol) sc (req_RequiredBytes req)))
        (pvc, None) \<in> set tr))"
  using create_ensured [OF assms] by (auto simp: create_answer_def)

definition demo_create :: create_request where
  "demo_create = \<lparr>req_Name = ''pvc-1'', req_VolumeCapabilities = [\<lparr>cap_MountFlags = []\<rparr>],
     req_Parameters = Some [(''csi.storage.k8s.io/pvc/namespace'', ''ns'')], req_RequiredBytes = 1073741824\<rparr>"

definition demo_create_params :: create_params where
  "demo_create_params = create_defaults\<lparr>cp_nfsPVCNamespace := ''ns''\<rparr>"

lemma demo_create_parse: "create_parse demo_create = Inr demo_create_params"
  by code_simp

lemma demo_create_exec:
  "exec (CreateVolume demo_create) (snd (demo_run cluster (CreateVolume demo_create)))
     (Done (Inr (create_answer ''pvc-1'' demo_create_params)))"
  by (rule demo_exec) code_simp

theorem create_success_witness:
  "vol_VolumeId (create_answer ''pvc-1'' demo_create_params) = ''nfs-1'' \<and>
   ((\<exists>pvc. EPvc (GetPVC ''ns'' ''nfs-1'') (pvc, None) \<in> set (snd (demo_run cluster (CreateVolume demo_create)))) \<or>
    (\<exists>sc pvc. EPvc (CreatePVC ''ns'' (dataPVCDef ''nfs-1'' sc 1073741824)) (pvc, None)
       \<in> set (snd (demo_run cluster (CreateVolume demo_create)))))"
proof -
  have vid: "vol_VolumeId (create_answer ''pvc-1'' demo_create_params) = ''nfs-1''" by code_simp
  have req: "cp_nfsPVCNamespace demo_create_params = ''ns''" "req_RequiredBytes demo_create = 1073741824" by code_simp+
  from create_success [OF demo_create_parse demo_create_exec] show ?thesis
    unfolding vid req by simp
qed

text \<open>
  C8: the only thing \<^verbatim>\<open>CreateVolume\<close> ever changes is to create one claim, in the namespace of the
  requesting claim, after reading the claim named after the volume there failed.  The object it
  creates is spelled out: the volume ID as name and in the ID label, \<^verbatim>\<open>ReadWriteOnce\<close>, exactly the
  requested bytes, no owner and no annotation, and the storage class asked for, or else the first
  default class of the listing, or the empty name when there is none or the listing failed.
\<close>

theorem create_effects:
  assumes "create_parse req = Inr p" and "exec (CreateVolume req) tr (Done r)"
  shows "(\<exists>tr1 sc obj. tr = tr1 @ [EPvc (GetPVC (cp_nfsPVCNamespace p) (volume_id (req_Name req))) (obj, None)] \<and>
        class_from (cp_dataSC p) tr1 sc) \<or>
    (\<exists>tr1 sc obj e claim reply. tr = tr1 @ [EPvc (GetPVC (cp_nfsPVCNamespace p) (volume_id (req_Name req))) (obj, Some e),
        EPvc (CreatePVC (cp_nfsPVCNamespace p) claim) reply] \<and>
        class_from (cp_dataSC p) tr1 sc \<and>
        pvc_meta claim = \<lparr>meta_Name = volume_id (req_Name req), meta_UID = [],
          meta_Labels = [(''nfs-export.csi.k8s.io/id'', volume_id (req_Name req))],
          meta_Annotations = None, meta_OwnerReferences = []\<rparr> \<and>
        pvc_StorageClassName claim = Some sc \<and> pvc_AccessModes claim = [ReadWriteOnce] \<and>
        pvc_StorageRequest claim = Some (NewQuantity (req_RequiredBytes req) BinarySI))"
proof -
  let ?id = "volume_id (req_Name req)" and ?ns = "cp_nfsPVCNamespace p"
  from assms have "exec (create_volume (req_Name req) (req_RequiredBytes req) p) tr (Done r)"
    by (simp add: exec_CreateVolume)
  then have "(\<exists>tr1 sc obj. tr = tr1 @ [EPvc (GetPVC ?ns ?id) (obj, None)] \<and> class_from (cp_dataSC p) tr1 sc) \<or>
    (\<exists>tr1 sc obj e reply. tr = tr1 @ [EPvc (GetPVC ?ns ?id) (obj, Some e),
        EPvc (CreatePVC ?ns (dataPVCDef ?id sc (req_RequiredBytes req))) reply] \<and> class_from (cp_dataSC p) tr1 sc)"
    by (rule exec_create_volume) (fastforce dest!: data_pvc.ensure_trace simp: pvc_event_cases)
  then show ?thesis
  proof (elim disjE exE conjE)
    fix tr1 sc obj e reply
    assume "tr = tr1 @ [EPvc (GetPVC ?ns ?id) (obj, Some e),
        EPvc (CreatePVC ?ns (dataPVCDef ?id sc (req_RequiredBytes req))) reply]" "class_from (cp_dataSC p) tr1 sc"
    then show ?thesis
      by (intro disjI2 exI [of _ tr1] exI [of _ sc] exI [of _ obj] exI [of _ e] exI [of _ reply]
          exI [of _ "dataPVCDef ?id sc (req_RequiredBytes req)"]) (simp add: dataPVCDef_def idLabel_def)
  qed blast
qed

text \<open>A cluster without the claim and with two storage classes, the second of them the default one.\<close>

definition empty_env :: "unit environment" where
  "empty_env = (demo_env cluster)\<lparr>
     env_pvc := (\<lambda>a w. (case a of GetPVC ns n \<Rightarrow> (Some zero_pvc, Some absent) | CreatePVC ns d \<Rightarrow> (Some d, None), w)),
     env_list_scs := (\<lambda>w. ((Some [\<lparr>sc_meta = meta_of ''slow'' []\<rparr>,
       \<lparr>sc_meta = (meta_of ''fast'' [])\<lparr>meta_Annotations := Some [(defaultClassKey, ''true'')]\<rparr>\<rparr>], None), w))\<rparr>"

definition created_claim_trace :: "event list" where
  "created_claim_trace = fst (snd (run empty_env (CreateVolume demo_create) ()))"

theorem create_effects_witness:
  "\<exists>tr1 claim reply. created_claim_trace = tr1 @ [EPvc (CreatePVC ''ns'' claim) reply] \<and>
     meta_Name (pvc_meta claim) = ''nfs-1'' \<and> pvc_StorageClassName claim = Some ''fast'' \<and>
     pvc_StorageRequest claim = Some (NewQuantity 1073741824 BinarySI)"
proof -
  have out: "fst (run empty_env (CreateVolume demo_create) ()) = Done (Inr (create_answer ''pvc-1'' demo_create_params))"
    by code_simp
  have ex: "exec (CreateVolume demo_create) created_claim_trace (Done (Inr (create_answer ''pvc-1'' demo_create_params)))"
    unfolding created_claim_trace_def
    by (rule run_execD [of empty_env _ "()" _ _ "snd (snd (run empty_env (CreateVolume demo_create) ()))"])
      (simp add: out prod_eq_iff)
  have last: "case last created_claim_trace of EPvc (CreatePVC ns d) r \<Rightarrow> pvc_StorageClassName d = Some ''fast'' | _ \<Rightarrow> False"
    by code_simp
  have id: "volume_id (req_Name demo_create) = ''nfs-1''" by code_simp
  have ns: "cp_nfsPVCNamespace demo_create_params = ''ns''" "cp_dataSC demo_create_params = []" by code_simp+
  have bytes: "req_RequiredBytes demo_create = 1073741824" by code_simp
  from create_effects [OF demo_create_parse ex] last show ?thesis
    unfolding id ns bytes
  proof (elim disjE exE conjE)
    fix tr1 sc obj e claim reply
    assume tr: "created_claim_trace = tr1 @ [EPvc (GetPVC ''ns'' ''nfs-1'') (obj, Some e), EPvc (CreatePVC ''ns'' claim) reply]"
    assume "pvc_meta claim = \<lparr>meta_Name = ''nfs-1'', meta_UID = [],
          meta_Labels = [(''nfs-export.csi.k8s.io/id'', ''nfs-1'')],
          meta_Annotations = None, meta_OwnerReferences = []\<rparr>"
      "pvc_StorageRequest claim = Some (NewQuantity 1073741824 BinarySI)"
    moreover have "last created_claim_trace = EPvc (CreatePVC ''ns'' claim) reply" unfolding tr by simp
    with last have "pvc_StorageClassName claim = Some ''fast''" by simp
    ultimately show ?thesis using tr
      by (intro exI [of _ "tr1 @ [EPvc (GetPVC ''ns'' ''nfs-1'') (obj, Some e)]"] exI [of _ claim] exI [of _ reply]) simp
  next
    fix tr1 sc obj
    assume tr: "created_claim_trace = tr1 @ [EPvc (GetPVC ''ns'' ''nfs-1'') (obj, None)]"
    have "last created_claim_trace = EPvc (GetPVC ''ns'' ''nfs-1'') (obj, None)" unfolding tr by simp
    with last show ?thesis by simp
  qed
qed

text \<open>
  \<^verbatim>\<open>CreateVolume\<close> is idempotent in its answer: two successful calls with the same request,
  whatever the cluster answered each of them, return the same volume.
\<close>

theorem create_same_answer:
  assumes "exec (CreateVolume req) tr (Done (Inr vol))" and "exec (CreateVolume req) tr' (Done (Inr vol'))"
  shows "vol = vol'"
proof -
  from assms(1) obtain p where "create_parse req = Inr p"
    by (auto simp: exec_CreateVolume split: sum.splits)
  with assms show ?thesis
    unfolding exec_CreateVolume by (auto elim!: exec_create_volume)
qed

text \<open>
  The order in which Go visits the storage class parameters has no influence on whether a
  request is accepted and with which values, when no two keys differ only in case.
\<close>

theorem create_parameter_order:
  assumes "mset m = mset (request_parameters req)" and "distinct (lower_keys m)"
  shows "create_parse (req\<lparr>req_Parameters := Some m\<rparr>) = Inr p \<longleftrightarrow> create_parse req = Inr p"
proof -
  have "request_parameters (req\<lparr>req_Parameters := Some m\<rparr>) = m" by (simp add: request_parameters_def)
  then show ?thesis
    using create_scan.scan_order [OF assms, of create_defaults p] by (simp add: create_parse_iff)
qed

theorem create_parameter_order_witness:
  "create_parse (demo_create\<lparr>req_Parameters := Some [(''nfsHostsAllow'', ''*''), (''DataStorageClass'', ''sc'')]\<rparr>) =
     Inr (create_defaults\<lparr>cp_dataSC := ''sc'', cp_nfsHostsAllow := ''*''\<rparr>)"
proof -
  let ?n = "[(''DataStorageClass'', ''sc''), (''nfsHostsAllow'', ''*'')]"
  let ?m = "[(''nfsHostsAllow'', ''*''), (''DataStorageClass'', ''sc'')]"
  let ?req = "demo_create\<lparr>req_Parameters := Some ?n\<rparr>"
  have "mset ?m = mset (request_parameters ?req)" by (simp add: request_parameters_def)
  moreover have "distinct (lower_keys ?m)" by code_simp
  ultimately have "create_parse (?req\<lparr>req_Parameters := Some ?m\<rparr>) =
      Inr (create_defaults\<lparr>cp_dataSC := ''sc'', cp_nfsHostsAllow := ''*''\<rparr>) \<longleftrightarrow>
      create_parse ?req = Inr (create_defaults\<lparr>cp_dataSC := ''sc'', cp_nfsHostsAllow := ''*''\<rparr>)"
    by (rule create_parameter_order)
  moreover have "create_parse ?req = Inr (create_defaults\<lparr>cp_dataSC := ''sc'', cp_nfsHostsAllow := ''*''\<rparr>)"
    by code_simp
  ultimately show ?thesis by simp
qed

text \<open>
  C31: volume IDs are unique among the names the provisioner generates (\<^verbatim>\<open>pvc-\<close> and a suffix), and
  keep the suffix; but a volume named \<^verbatim>\<open>nfs-\<close> and the same suffix gets the same ID, and with it the
  same data claim, stateful set and service.
\<close>

theorem volume_id_unique:
  "inj_on volume_id {n. has_prefix n ''pvc-''} \<and> volume_id (''pvc-'' @ s) = ''nfs-'' @ s \<and>
   (contains (''nfs-'' @ s) ''pvc-'' \<or> volume_id (''nfs-'' @ s) = volume_id (''pvc-'' @ s))"
proof -
  have pvc: "volume_id (''pvc-'' @ s) = ''nfs-'' @ s" for s
    unfolding volume_id_def by (rule replace1_prefix)
  have "inj_on volume_id {n. has_prefix n ''pvc-''}"
  proof (rule inj_onI)
    fix m n
    assume "m \<in> {n. has_prefix n ''pvc-''}" "n \<in> {n. has_prefix n ''pvc-''}" and eq: "volume_id m = volume_id n"
    then obtain s t where "m = ''pvc-'' @ s" and "n = ''pvc-'' @ t"
      unfolding has_prefix_def prefix_def by blast
    with eq show "m = n" by (simp only: pvc) simp
  qed
  moreover have "contains (''nfs-'' @ s) ''pvc-'' \<or> volume_id (''nfs-'' @ s) = volume_id (''pvc-'' @ s)"
    unfolding pvc by (simp only: volume_id_def) (metis replace1_absent)
  ultimately show ?thesis using pvc by blast
qed

lemma exec_DeleteVolume:
  assumes "exec (DeleteVolume vid) tr (Done r)" and "vid \<noteq> []"
  shows "r = Inr () \<and> ((\<exists>reply. tr = [EListPVs reply]) \<or>
    (\<exists>items pv csi x. find (handles_volume vid) items = Some pv \<and> pv_CSI pv = Some csi \<and>
       tr = [EListPVs (Some items, None),
         EAct (DeletePVC (map_index (csi_VolumeAttributes csi) ''nfsNamespace'')
                         (map_index (csi_VolumeAttributes csi) ''nfsVolumeClaim'')) x]))"
proof -
  from assms obtain tr1 res tr2 where tr: "tr = tr1 @ tr2" and get: "exec (getPvById vid) tr1 (Done res)"
    and rest: "exec (case res of Inl _ \<Rightarrow> Return (Inr ())
      | Inr nfsPV \<Rightarrow> deref (pv_CSI nfsPV) (\<lambda>csi.
          Act (DeletePVC (map_index (csi_VolumeAttributes csi) ''nfsNamespace'')
                (map_index (csi_VolumeAttributes csi) ''nfsVolumeClaim'')) (\<lambda>_. Return (Inr ())))) tr2 (Done r)"
    by (auto simp: DeleteVolume_def exec_bind_Done Let_def)
  show ?thesis
  proof (cases res)
    case (Inl e)
    with rest exec_getPvById_trace [OF get] show ?thesis by (auto simp: tr prog_simps)
  next
    case (Inr pv)
    with get obtain items where "tr1 = [EListPVs (Some items, None)]" "find (handles_volume vid) items = Some pv"
      by (auto simp: exec_getPvById_Inr)
    with rest Inr show ?thesis by (auto simp: tr exec_deref prog_simps split: option.splits)
  qed
qed

text \<open>
  C32: \<^verbatim>\<open>DeleteVolume\<close> with an ID always answers success: without any change when no listed volume has
  that handle (or the listing failed), and otherwise after deleting exactly one claim, the one the
  volume's attributes \<^verbatim>\<open>nfsVolumeClaim\<close> and \<^verbatim>\<open>nfsNamespace\<close> name, whatever the deletion answered.
\<close>

theorem delete_volume_result:
  assumes "exec (DeleteVolume vid) tr (Done r)" and "vid \<noteq> []"
  shows "r = Inr () \<and>
    ((\<exists>reply. tr = [EListPVs reply] \<and> (\<forall>items. reply = (Some items, None) \<longrightarrow> find (handles_volume vid) items = None)) \<or>
     (\<exists>items pv csi x. find (handles_volume vid) items = Some pv \<and> pv_CSI pv = Some csi \<and>
       tr = [EListPVs (Some items, None),
         EAct (DeletePVC (map_index (csi_VolumeAttributes csi) ''nfsNamespace'')
                         (map_index (csi_VolumeAttributes csi) ''nfsVolumeClaim'')) x]))"
proof -
  have "find (handles_volume vid) items = None" if "tr = [EListPVs (Some items, None)]" for items
  proof (rule ccontr)
    assume "find (handles_volume vid) items \<noteq> None"
    with that assms show False
      by (auto simp: DeleteVolume_def getPvById_def exec_deref prog_simps Let_def split: option.splits)
  qed
  with exec_DeleteVolume [OF assms] show ?thesis by blast
qed

definition demo_pv :: pv where
  "demo_pv = \<lparr>pv_meta = meta_of ''pvc-1'' ''pv-uid'',
     pv_CSI = Some \<lparr>csi_VolumeHandle = ''nfs-1'', csi_VolumeAttributes =
       vol_VolumeContext (create_answer ''pvc-1'' demo_create_params) @ [(''identity'', ''prov'')]\<rparr>,
     pv_ClaimRef = Some \<lparr>ref_Name = ''app'', ref_Namespace = ''ns''\<rparr>\<rparr>"

definition demo_pv_cluster :: cluster where
  "demo_pv_cluster = cluster\<lparr>cl_pvs := [demo_pv]\<rparr>"

definition demo_delete_trace :: "event list" where
  "demo_delete_trace = snd (demo_run demo_pv_cluster (DeleteVolume ''nfs-1''))"

lemma demo_delete_exec: "exec (DeleteVolume ''nfs-1'') demo_delete_trace (Done (Inr ()))"
  unfolding demo_delete_trace_def by (rule demo_exec) code_simp

lemma demo_delete_trace_eq:
  "demo_delete_trace = [EListPVs (Some [demo_pv], None), EAct (DeletePVC [] []) None]"
  by code_simp

theorem delete_volume_result_witness:
  "\<exists>ns n x. EAct (DeletePVC ns n) x \<in> set demo_delete_trace"
proof -
  from delete_volume_result [OF demo_delete_exec] show ?thesis
    by (auto simp: demo_delete_trace_eq)
qed

text \<open>
  C21: deleting a volume that \<^verbatim>\<open>CreateVolume\<close> made does not delete its data claim: the attributes
  \<^verbatim>\<open>CreateVolume\<close> hands over are named \<^verbatim>\<open>datavolumeclaim\<close> and \<^verbatim>\<open>datanamespace\<close>, \<^verbatim>\<open>DeleteVolume\<close> reads
  two other names, and so it deletes the claim with the empty name in the empty namespace.
\<close>

theorem delete_misses_data_claim:
  assumes "exec (CreateVolume req) tr0 (Done (Inr vol))"
    and "exec (DeleteVolume (vol_VolumeId vol)) tr (Done r)"
    and "EAct (DeletePVC ns n) x \<in> set tr"
    and attrs: "\<And>items pv csi. EListPVs (Some items, None) \<in> set tr \<Longrightarrow> pv \<in> set items \<Longrightarrow>
      pv_CSI pv = Some csi \<Longrightarrow> csi_VolumeHandle csi = vol_VolumeId vol \<Longrightarrow>
      csi_VolumeAttributes csi = vol_VolumeContext vol @ extra"
    and extra: "map_index extra ''nfsVolumeClaim'' = []" "map_index extra ''nfsNamespace'' = []"
  shows "ns = [] \<and> n = []"
proof -
  from assms(1) obtain p where vol: "vol = create_answer (req_Name req) p"
    by (auto simp: exec_CreateVolume elim!: exec_create_volume split: sum.splits)
  have vid: "vol_VolumeId vol \<noteq> []"
    using assms(2,3) by (auto simp: DeleteVolume_def prog_simps split: if_splits)
  from exec_DeleteVolume [OF assms(2) vid] assms(3) obtain items pv csi where
    tr: "tr = [EListPVs (Some items, None),
         EAct (DeletePVC (map_index (csi_VolumeAttributes csi) ''nfsNamespace'')
                         (map_index (csi_VolumeAttributes csi) ''nfsVolumeClaim'')) x]"
    and found: "find (handles_volume (vol_VolumeId vol)) items = Some pv" and csi: "pv_CSI pv = Some csi"
    and names: "ns = map_index (csi_VolumeAttributes csi) ''nfsNamespace''"
      "n = map_index (csi_VolumeAttributes csi) ''nfsVolumeClaim''"
    by auto
  from found csi have "pv \<in> set items" "csi_VolumeHandle csi = vol_VolumeId vol"
    by (auto simp: find_Some_iff handles_volume_def)
  with attrs [of items pv csi] tr csi have "csi_VolumeAttributes csi = vol_VolumeContext vol @ extra" by simp
  moreover have "map_index (vol_VolumeContext vol @ extra) ''nfsNamespace'' = map_index extra ''nfsNamespace''"
    "map_index (vol_VolumeContext vol @ extra) ''nfsVolumeClaim'' = map_index extra ''nfsVolumeClaim''"
    by (simp_all add: vol create_answer_def volume_context_def map_index_def key_defs)
  ultimately show ?thesis using extra by (simp add: names)
qed

theorem delete_misses_data_claim_witness:
  "EAct (DeletePVC [] []) None \<in> set demo_delete_trace \<and> vol_VolumeContext (create_answer ''pvc-1'' demo_create_params) =
     [(''datavolumeclaim'', ''nfs-1''), (''datanamespace'', ''ns''),
      (''nfsserverimage'', defaultNfsImage), (''nfshostsallow'', [])]"
proof -
  have vid: "vol_VolumeId (create_answer ''pvc-1'' demo_create_params) = ''nfs-1''" by code_simp
  have del: "exec (DeleteVolume (vol_VolumeId (create_answer ''pvc-1'' demo_create_params))) demo_delete_trace (Done (Inr ()))"
    unfolding vid by (rule demo_delete_exec)
  obtain ns n where act: "EAct (DeletePVC ns n) None \<in> set demo_delete_trace"
    by (simp add: demo_delete_trace_eq)
  have "ns = [] \<and> n = []"
  proof (rule delete_misses_data_claim [OF demo_create_exec del act, of "[(''identity'', ''prov'')]"])
    fix items pv csi
    assume "EListPVs (Some items, None) \<in> set demo_delete_trace" "pv \<in> set items" "pv_CSI pv = Some csi"
    then show "csi_VolumeAttributes csi =
        vol_VolumeContext (create_answer ''pvc-1'' demo_create_params) @ [(''identity'', ''prov'')]"
      by (auto simp: demo_delete_trace_eq demo_pv_def)
  qed (simp_all add: map_index_def)
  moreover have "vol_VolumeContext (create_answer ''pvc-1'' demo_create_params) =
     [(''datavolumeclaim'', ''nfs-1''), (''datanamespace'', ''ns''),
      (''nfsserverimage'', defaultNfsImage), (''nfshostsallow'', [])]" by code_simp
  ultimately show ?thesis using act by simp
qed

lemma create_panic_free: "panic_free answered (CreateVolume req)"
  by (auto simp: CreateVolume_def create_volume_def choose_storage_class_def ensure_data_pvc_def
      attempt_def deref_def Let_def split: sum.split option.split)

lemma delete_panic_free: "panic_free answered (DeleteVolume vid)"
  by (auto simp: DeleteVolume_def getPvById_def handles_volume_def deref_def Let_def find_Some_iff
      split: option.splits)

text \<open>
  The controller never panics as long as the Kubernetes client returns an object with every
  answer without an error; the unchecked \<^verbatim>\<open>Spec.CSI\<close> of \<^verbatim>\<open>DeleteVolume\<close> is safe because the search
  only finds volumes that have one.
\<close>

theorem controller_no_panic:
  assumes "list_all answered tr"
  shows "\<not> exec (CreateVolume req) tr Panicked \<and> \<not> exec (DeleteVolume vid) tr Panicked"
  using panic_free_exec [OF _ create_panic_free assms] panic_free_exec [OF _ delete_panic_free assms]
  by blast

theorem controller_no_panic_witness:
  "exec (DeleteVolume ''nfs-1'') demo_delete_trace (Done (Inr ())) \<and>
   \<not> exec (DeleteVolume ''nfs-1'') demo_delete_trace Panicked"
proof -
  have "list_all answered demo_delete_trace" by code_simp
  from controller_no_panic [OF this] demo_delete_exec show ?thesis by blast
qed

end
