(* ===== verification/Unpublish_Properties.thy ===== *)
theory Unpublish_Properties
  imports Node_Unpublish Controller_Properties
begin

text \<open>
  The properties of \<^verbatim>\<open>NodeUnpublishVolume\<close>: when it deletes the backend, when it leaves it alone,
  what decides its answer, and where it goes wrong.
\<close>

section \<open>Runs\<close>

lemma exec_NodeUnpublishVolume:
  assumes "unpub_VolumeId req \<noteq> []" and "unpub_TargetPath req \<noteq> []"
  shows "exec (NodeUnpublishVolume poll req) tr out \<longleftrightarrow>
    (\<exists>err rest. tr = EAct (CleanupMountPoint (unpub_TargetPath req) True) err # rest \<and>
       (case err of
          Some e \<Rightarrow> rest = [] \<and> out = Done (Inl (Status Internal
              (Fmt ''failed to unmount target %q: %v'' [unpub_TargetPath req, err_text e])))
        | None \<Rightarrow> exec (release_volume poll (unpub_VolumeId req)) rest out))"
  using assms by (auto simp: NodeUnpublishVolume_def prog_simps split: option.splits)

lemma exec_release_volume:
  assumes "exec (release_volume poll vid) tr out"
  obtains (not_found) reply where "tr = [EListPVs reply]" "out = Done (Inr ())"
      "\<And>items. reply = (Some items, None) \<Longrightarrow> find (handles_volume vid) items = None"
    | (no_list) "tr = [EListPVs (None, None)]" "out = Panicked"
    | (found) items pv rest where "tr = EListPVs (Some items, None) # rest"
      "find (handles_volume vid) items = Some pv"
      "exec (deref (pv_ClaimRef pv) (\<lambda>ref. bind (still_used ref) (\<lambda>used.
         if used then Return (Inr ()) else delete_backend poll vid pv))) rest out"
proof -
  from assms obtain obj err rest where tr: "tr = EListPVs (obj, err) # rest"
    and k: "exec (bind (case err of
         Some _ \<Rightarrow> Return (Inl (errorf ''Unable to get PV List''))
       | None \<Rightarrow> deref obj (\<lambda>items. case find (handles_volume vid) items of
             Some pv \<Rightarrow> Return (Inr pv)
           | None \<Rightarrow> Return (Inl (errorf (''Unable find the PVC with CSI ID: '' @ vid)))))
       (\<lambda>r. case r of Inl _ \<Rightarrow> Return (Inr ())
          | Inr nfsPV \<Rightarrow> deref (pv_ClaimRef nfsPV) (\<lambda>ref. bind (still_used ref) (\<lambda>used.
             if used then Return (Inr ()) else delete_backend poll vid nfsPV)))) rest out"
    by (auto simp: release_volume_def getPvById_def exec_ListPVs_iff)
  show thesis
  proof (cases err)
    case (Some e)
    with k tr show thesis by (intro not_found [of "(obj, err)"]) (auto simp: prog_simps)
  next
    case None
    show thesis
    proof (cases obj)
      case None
      with k tr \<open>err = None\<close> show thesis by (intro no_list) (auto simp: prog_simps)
    next
      case (Some items)
      show thesis
      proof (cases "find (handles_volume vid) items")
        case None
        with k tr \<open>err = None\<close> Some show thesis
          by (intro not_found [of "(Some items, None)"]) (auto simp: prog_simps)
      next
        case (Some pv)
        with k tr \<open>err = None\<close> \<open>obj = Some items\<close> show thesis
          by (intro found [of items rest pv]) auto
      qed
    qed
  qed
qed

lemma exec_delete_backend:
  assumes "exec (delete_backend poll vid pv) tr (Done r)" and "pv_CSI pv = Some csi"
  shows "r = Inr () \<and> (\<exists>x y rest. tr = EAct (DeleteSTS (param_value paramDataNamespace (csi_VolumeAttributes csi) []) vid) x #
    EAct (DeleteSVC (param_value paramDataNamespace (csi_VolumeAttributes csi) []) vid) y # rest)"
  using assms by (auto simp: delete_backend_def attributes_loop_values exec_bind_Done prog_simps)

lemma found_has_csi: "find (handles_volume vid) items = Some pv \<Longrightarrow> \<exists>csi. pv_CSI pv = Some csi"
  by (auto simp: find_Some_iff handles_volume_def split: option.splits)

lemma release_volume_Done: "exec (release_volume poll vid) tr (Done r) \<Longrightarrow> r = Inr ()"
  by (erule exec_release_volume)
    (auto simp: exec_deref exec_bind_Done prog_simps dest!: found_has_csi exec_delete_backend
      split: option.splits if_splits)

section \<open>Properties\<close>

text \<open>
  C7: every call of \<^verbatim>\<open>NodeUnpublishVolume\<close> that changes something is permitted by its
  specification: the target is cleaned up first, and the backend's stateful set and then its
  service, named after the volume and in the data claim's namespace, are deleted only after that
  succeeded, a listed volume has the handle, and no pod listed in its claim's namespace uses the
  claim (or the claim reference is incomplete).  No claim is ever deleted and no object written.
\<close>

theorem unpublish_effects:
  assumes "poll_contract poll" and "exec (NodeUnpublishVolume poll req) (tr1 @ e # tr2) out"
  shows "unpublish_permits req tr1 e"
  using guardedD [OF permits_NodeUnpublishVolume [OF assms(1)] assms(2)] .

definition demo_unpublish :: unpublish_request where
  "demo_unpublish = \<lparr>unpub_VolumeId = ''nfs-1'', unpub_TargetPath = ''/t''\<rparr>"

definition demo_unpublish_trace :: "cluster \<Rightarrow> event list" where
  "demo_unpublish_trace c = snd (demo_run c (NodeUnpublishVolume poll_once demo_unpublish))"

lemma demo_unpublish_exec:
  "fst (demo_run c (NodeUnpublishVolume poll_once demo_unpublish)) = out \<Longrightarrow>
     exec (NodeUnpublishVolume poll_once demo_unpublish) (demo_unpublish_trace c) out"
  unfolding demo_unpublish_trace_def by (rule demo_exec)

lemma demo_unpublish_trace_eq:
  "demo_unpublish_trace demo_pv_cluster =
     [EAct (CleanupMountPoint ''/t'' True) None, EListPVs (Some [demo_pv], None),
      EListPods ''ns'' (Some [], None), EAct (DeleteSTS ''ns'' ''nfs-1'') None,
      EAct (DeleteSVC ''ns'' ''nfs-1'') None, EPod (GetPod ''ns'' ''nfs-1-0'') (Some demo_pod, None)]"
  by code_simp

theorem unpublish_effects_witness:
  "unpublish_permits demo_unpublish
     [EAct (CleanupMountPoint ''/t'' True) None, EListPVs (Some [demo_pv], None), EListPods ''ns'' (Some [], None)]
     (EAct (DeleteSTS ''ns'' ''nfs-1'') None)"
proof -
  have "exec (NodeUnpublishVolume poll_once demo_unpublish) (demo_unpublish_trace demo_pv_cluster) (Done (Inr ()))"
    by (rule demo_unpublish_exec) code_simp
  then have "exec (NodeUnpublishVolume poll_once demo_unpublish)
      ([EAct (CleanupMountPoint ''/t'' True) None, EListPVs (Some [demo_pv], None), EListPods ''ns'' (Some [], None)] @
       EAct (DeleteSTS ''ns'' ''nfs-1'') None # [EAct (DeleteSVC ''ns'' ''nfs-1'') None,
        EPod (GetPod ''ns'' ''nfs-1-0'') (Some demo_pod, None)]) (Done (Inr ()))"
    by (simp add: demo_unpublish_trace_eq)
  from unpublish_effects [OF poll_once_contract this] show ?thesis .
qed

text \<open>
  C34: the answer of \<^verbatim>\<open>NodeUnpublishVolume\<close> to a complete request is decided by the clean-up of the
  target alone: its failure is answered as Internal with nothing else done, and after its success
  the answer is success, whatever happens to the backend.
\<close>

theorem unpublish_answer:
  assumes "unpub_VolumeId req \<noteq> []" and "unpub_TargetPath req \<noteq> []"
    and "exec (NodeUnpublishVolume poll req) tr (Done r)"
  shows "\<exists>err rest. tr = EAct (CleanupMountPoint (unpub_TargetPath req) True) err # rest \<and>
    (case err of
       None \<Rightarrow> r = Inr ()
     | Some e \<Rightarrow> rest = [] \<and> r = Inl (Status Internal
         (Fmt ''failed to unmount target %q: %v'' [unpub_TargetPath req, err_text e])))"
  using assms(3) unfolding exec_NodeUnpublishVolume [OF assms(1,2)]
  by (auto dest: release_volume_Done split: option.splits)

theorem unpublish_answer_witness:
  "{r. exec (NodeUnpublishVolume poll_once demo_unpublish)
      [EAct (CleanupMountPoint ''/t'' True) (Some (errorf ''busy''))] (Done r)} \<subseteq>
     {Inl (Status Internal (Fmt ''failed to unmount target %q: %v'' [''/t'', ''busy'']))} \<and>
   exec (NodeUnpublishVolume poll_once demo_unpublish)
      [EAct (CleanupMountPoint ''/t'' True) (Some (errorf ''busy''))]
      (Done (Inl (Status Internal (Fmt ''failed to unmount target %q: %v'' [''/t'', ''busy'']))))"
proof
  show "{r. exec (NodeUnpublishVolume poll_once demo_unpublish)
      [EAct (CleanupMountPoint ''/t'' True) (Some (errorf ''busy''))] (Done r)} \<subseteq>
     {Inl (Status Internal (Fmt ''failed to unmount target %q: %v'' [''/t'', ''busy'']))}"
    by (auto dest!: unpublish_answer [rotated 2] simp: demo_unpublish_def)
  show "exec (NodeUnpublishVolume poll_once demo_unpublish)
      [EAct (CleanupMountPoint ''/t'' True) (Some (errorf ''busy''))]
      (Done (Inl (Status Internal (Fmt ''failed to unmount target %q: %v'' [''/t'', ''busy'']))))"
    by (simp add: NodeUnpublishVolume_def demo_unpublish_def prog_simps)
qed

lemma listed_pods_run:
  assumes "exec (NodeUnpublishVolume poll req) (EAct (CleanupMountPoint t x) None # EListPVs (Some items, None) #
      EListPods ns (Some pods, err) # rest) (Done r)"
    and "find (handles_volume (unpub_VolumeId req)) items = Some pv"
  obtains ref where "pv_ClaimRef pv = Some ref" and "ns = ref_Namespace ref"
    and "if list_ex (uses_claim (ref_Name ref)) pods then r = Inr () \<and> rest = []
         else exec (delete_backend poll (unpub_VolumeId req) pv) rest (Done r)"
proof -
  from assms obtain ref where "pv_ClaimRef pv = Some ref"
    and k: "exec (bind (still_used ref) (\<lambda>used. if used then Return (Inr ())
          else delete_backend poll (unpub_VolumeId req) pv)) (EListPods ns (Some pods, err) # rest) (Done r)"
    by (auto simp: NodeUnpublishVolume_def release_volume_def getPvById_def exec_deref prog_simps split: if_splits option.splits)
  moreover obtain csi where csi: "pv_CSI pv = Some csi" using found_has_csi [OF assms(2)] by blast
  from k have "ns = ref_Namespace ref \<and> (if list_ex (uses_claim (ref_Name ref)) pods then r = Inr () \<and> rest = []
         else exec (delete_backend poll (unpub_VolumeId req) pv) rest (Done r))"
    using exec_delete_backend [OF _ csi, of poll "unpub_VolumeId req" "EListPods ns (Some pods, err) # rest" r]
    by (auto simp: still_used_def prog_simps split: if_splits)
  ultimately show thesis using that by blast
qed

text \<open>
  While a pod listed in the claim's namespace uses the claim, \<^verbatim>\<open>NodeUnpublishVolume\<close> answers
  success right after the listing and leaves the backend alone.
\<close>

theorem unpublish_keeps_used_backend:
  assumes "exec (NodeUnpublishVolume poll req) (EAct (CleanupMountPoint t x) None # EListPVs (Some items, None) #
      EListPods ns (Some pods, err) # rest) (Done r)"
    and "find (handles_volume (unpub_VolumeId req)) items = Some pv" and "pv_ClaimRef pv = Some ref"
    and "list_ex (uses_claim (ref_Name ref)) pods"
  shows "r = Inr () \<and> rest = [] \<and> ns = ref_Namespace ref"
  using listed_pods_run [OF assms(1,2)] assms(3,4) by (metis option.inject)

definition app_pod :: pod where
  "app_pod = \<lparr>pod_meta = meta_of ''app-0'' ''u'',
     pod_Volumes = [\<lparr>vol_Name = ''v'', vol_ClaimName = Some ''app''\<rparr>], pod_Phase = PodPending\<rparr>"

theorem unpublish_keeps_used_backend_witness:
  "{(r, rest). exec (NodeUnpublishVolume poll_once demo_unpublish)
      (EAct (CleanupMountPoint ''/t'' True) None # EListPVs (Some [demo_pv], None) #
       EListPods ''ns'' (Some [app_pod], None) # rest) (Done r)} = {(Inr (), [])}"
proof -
  have found: "find (handles_volume (unpub_VolumeId demo_unpublish)) [demo_pv] = Some demo_pv" by code_simp
  have ref: "pv_ClaimRef demo_pv = Some \<lparr>ref_Name = ''app'', ref_Namespace = ''ns''\<rparr>" by code_simp
  have used: "list_ex (uses_claim (ref_Name \<lparr>ref_Name = ''app'', ref_Namespace = ''ns''\<rparr>)) [app_pod]" by code_simp
  let ?tr = "\<lambda>rest. EAct (CleanupMountPoint ''/t'' True) None # EListPVs (Some [demo_pv], None) #
       EListPods ''ns'' (Some [app_pod], None) # rest"
  have "demo_unpublish_trace (demo_pv_cluster\<lparr>cl_pods := [app_pod]\<rparr>) = ?tr []" by code_simp
  moreover have "exec (NodeUnpublishVolume poll_once demo_unpublish)
      (demo_unpublish_trace (demo_pv_cluster\<lparr>cl_pods := [app_pod]\<rparr>)) (Done (Inr ()))"
    by (rule demo_unpublish_exec) code_simp
  ultimately have run: "exec (NodeUnpublishVolume poll_once demo_unpublish) (?tr []) (Done (Inr ()))" by (rule subst)
  have only: "r = Inr () \<and> rest = []"
    if "exec (NodeUnpublishVolume poll_once demo_unpublish) (?tr rest) (Done r)" for r rest
    using unpublish_keeps_used_backend [OF that found ref used] by (elim conjE, intro conjI)
  show ?thesis
  proof (rule subset_antisym)
    show "{(r, rest). exec (NodeUnpublishVolume poll_once demo_unpublish) (?tr rest) (Done r)} \<subseteq> {(Inr (), [])}"
    proof
      fix z
      assume "z \<in> {(r, rest). exec (NodeUnpublishVolume poll_once demo_unpublish) (?tr rest) (Done r)}"
      then have "exec (NodeUnpublishVolume poll_once demo_unpublish) (?tr (snd z)) (Done (fst z))"
        by (simp only: mem_Collect_eq case_prod_beta)
      from only [OF this] show "z \<in> {(Inr (), [])}" by (cases z) simp
    qed
    show "{(Inr (), [])} \<subseteq> {(r, rest). exec (NodeUnpublishVolume poll_once demo_unpublish) (?tr rest) (Done r)}"
      using run by (simp only: insert_subset empty_subsetI mem_Collect_eq prod.case)
  qed
qed

text \<open>
  C35: when listing the pods fails, \<^verbatim>\<open>NodeUnpublishVolume\<close> takes the empty list it got for the truth
  and deletes the stateful set and the service, although pods may still use the volume.
\<close>

theorem unpublish_deletes_on_failed_listing:
  assumes "exec (NodeUnpublishVolume poll req) (EAct (CleanupMountPoint t x) None # EListPVs (Some items, None) #
      EListPods ns (Some [], Some e) # rest) (Done r)"
    and "find (handles_volume (unpub_VolumeId req)) items = Some pv" and "pv_CSI pv = Some csi"
  shows "r = Inr () \<and> (\<exists>y z rest'. rest =
    EAct (DeleteSTS (param_value paramDataNamespace (csi_VolumeAttributes csi) []) (unpub_VolumeId req)) y #
    EAct (DeleteSVC (param_value paramDataNamespace (csi_VolumeAttributes csi) []) (unpub_VolumeId req)) z # rest')"
proof -
  from listed_pods_run [OF assms(1,2)] have "exec (delete_backend poll (unpub_VolumeId req) pv) rest (Done r)"
    by (metis list_ex_iff empty_iff empty_set)
  from exec_delete_backend [OF this assms(3)] show ?thesis by blast
qed

theorem unpublish_deletes_on_failed_listing_witness:
  "{rest. exec (NodeUnpublishVolume poll_once demo_unpublish) (EAct (CleanupMountPoint ''/t'' True) None #
       EListPVs (Some [demo_pv], None) # EListPods ''ns'' (Some [], Some absent) # rest) (Done (Inr ()))}
     \<subseteq> {rest. \<exists>y z rest'. rest = EAct (DeleteSTS ''ns'' ''nfs-1'') y # EAct (DeleteSVC ''ns'' ''nfs-1'') z # rest'} \<and>
   exec (NodeUnpublishVolume poll_once demo_unpublish)
      [EAct (CleanupMountPoint ''/t'' True) None, EListPVs (Some [demo_pv], None), EListPods ''ns'' (Some [], Some absent),
       EAct (DeleteSTS ''ns'' ''nfs-1'') None, EAct (DeleteSVC ''ns'' ''nfs-1'') None,
       EPod (GetPod ''ns'' ''nfs-1-0'') (None, Some absent)] (Done (Inr ()))"
proof
  obtain csi where csi: "pv_CSI demo_pv = Some csi" by (simp add: demo_pv_def)
  have attrs: "attributes_loop (csi_VolumeAttributes (the (pv_CSI demo_pv))) [] [] = (''nfs-1'', ''ns'')" by code_simp
  then have ns: "param_value paramDataNamespace (csi_VolumeAttributes csi) [] = ''ns''"
    by (simp add: attributes_loop_values csi)
  have found: "find (handles_volume (unpub_VolumeId demo_unpublish)) [demo_pv] = Some demo_pv" by code_simp
  have vid: "unpub_VolumeId demo_unpublish = ''nfs-1''" "unpub_TargetPath demo_unpublish = ''/t''"
    by (simp_all add: demo_unpublish_def)
  have ref: "pv_ClaimRef demo_pv = Some \<lparr>ref_Name = ''app'', ref_Namespace = ''ns''\<rparr>" by code_simp
  have del: "exec (delete_backend poll_once ''nfs-1'' demo_pv)
      [EAct (DeleteSTS ''ns'' ''nfs-1'') None, EAct (DeleteSVC ''ns'' ''nfs-1'') None,
       EPod (GetPod ''ns'' ''nfs-1-0'') (None, Some absent)] (Done (Inr ()))"
    by (simp add: delete_backend_def csi ns attributes_loop_values waitForPodRunning_def poll_once_def
        isPodRunning_def prog_simps)
  show "{rest. exec (NodeUnpublishVolume poll_once demo_unpublish) (EAct (CleanupMountPoint ''/t'' True) None #
       EListPVs (Some [demo_pv], None) # EListPods ''ns'' (Some [], Some absent) # rest) (Done (Inr ()))}
     \<subseteq> {rest. \<exists>y z rest'. rest = EAct (DeleteSTS ''ns'' ''nfs-1'') y # EAct (DeleteSVC ''ns'' ''nfs-1'') z # rest'}"
    by (rule subsetI, drule CollectD, drule unpublish_deletes_on_failed_listing [OF _ found csi])
      (simp only: ns vid mem_Collect_eq)
  show "exec (NodeUnpublishVolume poll_once demo_unpublish)
      [EAct (CleanupMountPoint ''/t'' True) None, EListPVs (Some [demo_pv], None), EListPods ''ns'' (Some [], Some absent),
       EAct (DeleteSTS ''ns'' ''nfs-1'') None, EAct (DeleteSVC ''ns'' ''nfs-1'') None,
       EPod (GetPod ''ns'' ''nfs-1-0'') (None, Some absent)] (Done (Inr ()))"
    using del found ref vid
    by (simp add: NodeUnpublishVolume_def release_volume_def getPvById_def still_used_def prog_simps del: find.simps)
qed

text \<open>
  \<^verbatim>\<open>NodeUnpublishVolume\<close> panics on a listed volume that is not bound to a claim: it reads the
  name of a nil \<^verbatim>\<open>ClaimRef\<close>.
\<close>

theorem unpublish_panics_on_unbound_volume:
  assumes "unpub_VolumeId req \<noteq> []" and "unpub_TargetPath req \<noteq> []"
    and "find (handles_volume (unpub_VolumeId req)) items = Some pv" and "pv_ClaimRef pv = None"
  shows "exec (NodeUnpublishVolume poll req)
    [EAct (CleanupMountPoint (unpub_TargetPath req) True) None, EListPVs (Some items, None)] Panicked"
  using assms by (simp add: NodeUnpublishVolume_def release_volume_def getPvById_def prog_simps)

theorem unpublish_panics_on_unbound_volume_witness:
  "exec (NodeUnpublishVolume poll_once demo_unpublish)
    [EAct (CleanupMountPoint ''/t'' True) None, EListPVs (Some [demo_pv\<lparr>pv_ClaimRef := None\<rparr>], None)] Panicked"
proof -
  have "find (handles_volume (unpub_VolumeId demo_unpublish)) [demo_pv\<lparr>pv_ClaimRef := None\<rparr>] =
      Some (demo_pv\<lparr>pv_ClaimRef := None\<rparr>)" by code_simp
  from unpublish_panics_on_unbound_volume [OF _ _ this] show ?thesis by (simp add: demo_unpublish_def)
qed

lemma poll_tries_at_once: "exec cond tr (Done (True, None)) \<Longrightarrow> exec (poll_tries n cond) tr (Done None)"
proof (cases n)
  case 0
  assume ok: "exec cond tr (Done (True, None))"
  from exec_bindI [OF ok, of "\<lambda>(ok, err). Return (poll_verdict ok err)" "[]" "Done None"]
  show ?thesis by (simp add: 0 prog_simps poll_verdict_def)
next
  case (Suc m)
  assume ok: "exec cond tr (Done (True, None))"
  from exec_bindI [OF ok, of "\<lambda>(ok, err). if ok \<or> err \<noteq> None then Return (poll_verdict ok err) else poll_tries m cond"
      "[]" "Done None"]
  show ?thesis by (simp add: Suc prog_simps poll_verdict_def)
qed

text \<open>
  The wait at the end of \<^verbatim>\<open>NodeUnpublishVolume\<close>, meant to see the backend pod go down, ends at
  once when the pod is still Running: with polling every second for five minutes, one read of a
  Running pod completes the call.
\<close>

theorem unpublish_wait_ends_on_running_pod:
  assumes "pv_CSI pv = Some csi" and "pod_Phase p = PodRunning"
    and "ns = param_value paramDataNamespace (csi_VolumeAttributes csi) []"
  shows "exec (delete_backend poll_immediate vid pv)
    [EAct (DeleteSTS ns vid) x, EAct (DeleteSVC ns vid) y, EPod (GetPod ns (vid @ ''-0'')) (Some p, None)]
    (Done (Inr ()))"
proof -
  have "exec (waitForPodRunning poll_immediate ns (vid @ ''-0'') (5 * Minute))
      [EPod (GetPod ns (vid @ ''-0'')) (Some p, None)] (Done None)"
    unfolding waitForPodRunning_def poll_immediate_def
    by (rule poll_tries_at_once) (simp add: isPodRunning_def assms(2) prog_simps)
  from exec_bindI [OF this, of "\<lambda>_. Return (Inr ())" "[]"]
  show ?thesis by (simp add: delete_backend_def attributes_loop_values assms prog_simps)
qed

theorem unpublish_wait_ends_on_running_pod_witness:
  "exec (delete_backend poll_immediate ''nfs-1'' demo_pv)
    [EAct (DeleteSTS ''ns'' ''nfs-1'') None, EAct (DeleteSVC ''ns'' ''nfs-1'') None,
     EPod (GetPod ''ns'' ''nfs-1-0'') (Some demo_pod, None)] (Done (Inr ()))"
proof -
  obtain csi where csi: "pv_CSI demo_pv = Some csi" by (simp add: demo_pv_def)
  then have ns: "''ns'' = param_value paramDataNamespace (csi_VolumeAttributes csi) []"
    by (auto simp: demo_pv_def create_answer_def volume_context_def demo_create_params_def paramDataNamespace_def
        paramDataVolumeClaim_def paramNfsServerImage_def paramNfsHostsAllow_def to_lower_def lower_char_def)
  from unpublish_wait_ends_on_running_pod [OF csi _ ns, of demo_pod "''nfs-1''" None None]
  show ?thesis by (simp add: demo_pod_def)
qed

end
