(* ===== verification/Volume_Lifecycle.thy ===== *)
theory Volume_Lifecycle
  imports Publish_Inputs Publish_Outcomes Publish_Objects Unpublish_Properties
begin

text \<open>
  The life of a volume across the services: what \<^verbatim>\<open>CreateVolume\<close> answers is what
  \<^verbatim>\<open>NodePublishVolume\<close> reads, and \<^verbatim>\<open>NodeUnpublishVolume\<close> deletes what \<^verbatim>\<open>NodePublishVolume\<close> created.
\<close>

section \<open>From CreateVolume to NodePublishVolume\<close>

definition context_keys :: "string list" where
  "context_keys = [paramDataVolumeClaim, paramDataNamespace, paramNfsServerImage, paramNfsHostsAllow]"

lemma volume_context_keys:
  "(paramDataVolumeClaim, vol_VolumeId (create_answer name cp)) \<in> set (vol_VolumeContext (create_answer name cp))"
  "(paramDataNamespace, cp_nfsPVCNamespace cp) \<in> set (vol_VolumeContext (create_answer name cp))"
  "(paramNfsServerImage, if cp_nfsServerImage cp = [] then defaultNfsImage else cp_nfsServerImage cp)
     \<in> set (vol_VolumeContext (create_answer name cp))"
  "(paramNfsHostsAllow, cp_nfsHostsAllow cp) \<in> set (vol_VolumeContext (create_answer name cp))"
  "lower_keys (vol_VolumeContext (create_answer name cp)) = context_keys"
  by (simp_all add: create_answer_def volume_context_def context_keys_def lower_keys_def)

lemma permission_texts_absent: "mountPermissionsField \<notin> set (lower_keys m) \<Longrightarrow> permission_texts m = []"
  by (auto simp: permission_texts_def lower_keys_def filter_empty_conv image_iff split: prod.splits)

lemma no_bad_permissions: "mountPermissionsField \<notin> set (lower_keys m) \<Longrightarrow> (k, v) \<in> set m \<Longrightarrow> \<not> bad_permissions k v"
  by (force simp: bad_permissions_def lower_keys_def)

text \<open>
  C6: what \<^verbatim>\<open>CreateVolume\<close> answers, \<^verbatim>\<open>NodePublishVolume\<close> understands, if the request for the volume
  named a namespace.  Take a publish request with a capability, the volume's ID and a target, whose
  context is the volume's context with further entries, in any order, such that no two keys differ
  only in case and no further entry is \<^verbatim>\<open>mountPermissions\<close>.  If the volume was created with the
  namespace of a claim, the request is accepted and works with the volume's own claim, that
  namespace, the image and the allowed hosts of the storage class, and the driver's permissions.
  If it was not (\<^verbatim>\<open>CreateVolume\<close> does not require it), the request is rejected for its namespace.
\<close>

theorem create_publish_roundtrip:
  assumes create: "exec (CreateVolume creq) tr (Done (Inr vol))" "create_parse creq = Inr cp"
    and req: "pub_VolumeCapability preq \<noteq> None" "pub_VolumeId preq = vol_VolumeId vol"
      "vol_VolumeId vol \<noteq> []" "pub_TargetPath preq \<noteq> []"
    and ctx: "mset (pub_VolumeContext preq) = mset (vol_VolumeContext vol @ extra)"
      "distinct (lower_keys (vol_VolumeContext vol @ extra))" "mountPermissionsField \<notin> set (lower_keys extra)"
  shows "if cp_nfsPVCNamespace cp = []
    then publish_parse drv preq = Inl (Status InvalidArgument (Text (paramDataNamespace @ '' is a required parameter'')))
    else \<exists>p. publish_parse drv preq = Inr p \<and> pp_dataPVCName p = vol_VolumeId vol \<and>
      pp_dataNamespace p = cp_nfsPVCNamespace cp \<and>
      pp_nfsPodImage p = (if cp_nfsServerImage cp = [] then defaultNfsImage else cp_nfsServerImage cp) \<and>
      pp_nfsHostsAllow p = cp_nfsHostsAllow cp \<and> pp_mountPermissions p = drv_mountPermissions drv"
proof -
  let ?ctx = "pub_VolumeContext preq"
  have vol: "vol = create_answer (req_Name creq) cp"
    using create by (auto simp: exec_CreateVolume elim!: exec_create_volume)
  note keys = volume_context_keys [where name = "req_Name creq" and cp = cp, folded vol]
  have same: "set ?ctx = set (vol_VolumeContext vol @ extra)" using ctx(1) by (rule mset_eq_setD)
  have d: "distinct (lower_keys ?ctx)"
    using lower_keys_mset [OF ctx(1)] ctx(2) by (metis mset_eq_imp_distinct_iff)
  have no_perm: "mountPermissionsField \<notin> set (lower_keys ?ctx)"
    using ctx(3) keys(5) mset_eq_setD [OF lower_keys_mset [OF ctx(1)]] by (simp add: context_keys_def)
  have value_of: "param_value k ?ctx [] = v" if "(k, v) \<in> set (vol_VolumeContext vol)" "to_lower k = k" for k v
    using param_value_unique [OF d _ that(2)] that(1) same by simp
  from req(1) obtain volCap where cap: "pub_VolumeCapability preq = Some volCap" by blast
  let ?defaults = "publish_defaults drv volCap (pub_Readonly preq)"
  have "\<not> (\<exists>e. scan publish_step ?ctx ?defaults = Inl e)"
    unfolding publish_scan_fails_iff using no_bad_permissions [OF no_perm] by auto
  then obtain q where q: "scan publish_step ?ctx ?defaults = Inr q" by (cases "scan publish_step ?ctx ?defaults") auto
  have fields: "pp_dataPVCName q = vol_VolumeId vol" "pp_dataNamespace q = cp_nfsPVCNamespace cp"
    "pp_nfsPodImage q = (if cp_nfsServerImage cp = [] then defaultNfsImage else cp_nfsServerImage cp)"
    "pp_nfsHostsAllow q = cp_nfsHostsAllow cp" "pp_mountPermissions q = drv_mountPermissions drv"
    using publish_fields(1-4) [OF q] publish_scan_permissions [OF q] permission_texts_absent [OF no_perm]
      value_of [OF keys(1)] value_of [OF keys(2)] value_of [OF keys(3)] value_of [OF keys(4)]
    by (simp_all add: publish_defaults_def)
  have img: "pp_nfsPodImage q \<noteq> []" by (simp add: fields(3) defaultNfsImage_def)
  show ?thesis
  proof (cases "cp_nfsPVCNamespace cp = []")
    case True
    then show ?thesis using cap q req fields(1,2) by (simp add: publish_parse_def)
  next
    case False
    then have "publish_parse drv preq = Inr q"
      using cap q req fields(1,2) img by (simp add: publish_parse_def)
    with fields False show ?thesis by simp
  qed
qed

theorem create_publish_roundtrip_witness:
  "\<exists>p. publish_parse demo_driver (demo_publish\<lparr>pub_VolumeContext :=
       (podNameKey, ''app-0'') # vol_VolumeContext (create_answer ''pvc-1'' demo_create_params)\<rparr>) = Inr p \<and>
     pp_dataPVCName p = ''nfs-1'' \<and> pp_dataNamespace p = ''ns''"
proof -
  let ?vol = "create_answer ''pvc-1'' demo_create_params"
  let ?req = "demo_publish\<lparr>pub_VolumeContext := (podNameKey, ''app-0'') # vol_VolumeContext ?vol\<rparr>"
  have vid: "vol_VolumeId ?vol = ''nfs-1''" by code_simp
  have ns: "cp_nfsPVCNamespace demo_create_params = ''ns''" by code_simp
  have ctx: "mset (pub_VolumeContext ?req) = mset (vol_VolumeContext ?vol @ [(podNameKey, ''app-0'')])" by simp
  have d: "distinct (lower_keys (vol_VolumeContext ?vol @ [(podNameKey, ''app-0'')]))"
    by (simp add: volume_context_keys(5) context_keys_def)
  from create_publish_roundtrip [OF demo_create_exec demo_create_parse _ _ _ _ ctx d, of demo_driver]
  show ?thesis unfolding vid ns by (auto simp: demo_publish_def)
qed

section \<open>From NodePublishVolume to NodeUnpublishVolume\<close>

lemma publish_created_set:
  assumes "poll_contract poll" and "publish_parse drv req = Inr p"
    and "exec (NodePublishVolume poll drv req) tr out" and "ESts (CreateSTS ns def) r \<in> set tr"
  shows "ns = pp_dataNamespace p \<and> meta_Name (sts_meta def) = pub_VolumeId req"
proof -
  from assms(4) obtain tr1 tr2 where "tr = tr1 @ ESts (CreateSTS ns def) r # tr2" by (auto dest: split_list)
  with guardedD [OF permits_NodePublishVolume [OF assms(1,2)]] assms(3)
  have "publish_permits p (pub_VolumeId req) (pub_TargetPath req) tr1 (ESts (CreateSTS ns def) r)" by blast
  then show ?thesis by (auto simp: nfsSTSDef_def nfsMeta_def)
qed

lemma unpublish_deleted_set:
  assumes "poll_contract poll" and "exec (NodeUnpublishVolume poll req) tr out" and "EAct (DeleteSTS ns n) x \<in> set tr"
  obtains items pv csi where "EListPVs (Some items, None) \<in> set tr"
    and "find (handles_volume (unpub_VolumeId req)) items = Some pv" and "pv_CSI pv = Some csi"
    and "ns = param_value paramDataNamespace (csi_VolumeAttributes csi) []" and "n = unpub_VolumeId req"
proof -
  from assms(3) obtain tr1 tr2 where tr: "tr = tr1 @ EAct (DeleteSTS ns n) x # tr2" by (auto dest: split_list)
  with guardedD [OF permits_NodeUnpublishVolume [OF assms(1)]] assms(2)
  have "unpublish_permits req tr1 (EAct (DeleteSTS ns n) x)" by blast
  then show thesis using that tr by (auto simp: volume_released_def)
qed

text \<open>
  C23: the stateful set \<^verbatim>\<open>NodeUnpublishVolume\<close> deletes is the one \<^verbatim>\<open>NodePublishVolume\<close> created for the
  volume, by namespace and name, when the volume's attributes are the context it was published
  with.
\<close>

theorem unpublish_deletes_published_set:
  assumes poll: "poll_contract poll" and parse: "publish_parse drv preq = Inr p"
    and pub: "exec (NodePublishVolume poll drv preq) ptr pout" "ESts (CreateSTS ns def) rep \<in> set ptr"
    and unpub: "exec (NodeUnpublishVolume poll ureq) utr uout" "EAct (DeleteSTS ns' n) x \<in> set utr"
    and vid: "unpub_VolumeId ureq = pub_VolumeId preq"
    and attrs: "\<And>items pv csi. EListPVs (Some items, None) \<in> set utr \<Longrightarrow> pv \<in> set items \<Longrightarrow> pv_CSI pv = Some csi \<Longrightarrow>
      csi_VolumeHandle csi = unpub_VolumeId ureq \<Longrightarrow>
      param_value paramDataNamespace (csi_VolumeAttributes csi) [] =
        param_value paramDataNamespace (pub_VolumeContext preq) []"
  shows "ns' = ns \<and> n = meta_Name (sts_meta def)"
proof -
  from publish_created_set [OF poll parse pub] have c: "ns = pp_dataNamespace p" "meta_Name (sts_meta def) = pub_VolumeId preq"
    by simp_all
  from parse obtain volCap q where
    "scan publish_step (pub_VolumeContext preq) (publish_defaults drv volCap (pub_Readonly preq)) = Inr q"
    and p: "p = (if pp_nfsPodImage q = [] then q\<lparr>pp_nfsPodImage := defaultNfsImage\<rparr> else q)"
    by (rule publish_parse_InrD)
  from publish_fields(2) [OF this(1)] have "pp_dataNamespace p = param_value paramDataNamespace (pub_VolumeContext preq) []"
    by (simp add: p publish_defaults_def)
  moreover from unpublish_deleted_set [OF poll unpub] obtain items pv csi where l: "EListPVs (Some items, None) \<in> set utr"
    and f: "find (handles_volume (unpub_VolumeId ureq)) items = Some pv" and csi: "pv_CSI pv = Some csi"
    and del: "ns' = param_value paramDataNamespace (csi_VolumeAttributes csi) []" "n = unpub_VolumeId ureq"
    by blast
  moreover from f csi have "pv \<in> set items" "csi_VolumeHandle csi = unpub_VolumeId ureq"
    by (auto simp: find_Some_iff handles_volume_def)
  ultimately show ?thesis using attrs [OF l _ csi] c vid by simp
qed

theorem unpublish_deletes_published_set_witness:
  "EAct (DeleteSTS ''ns'' ''nfs-1'') None \<in> set (demo_unpublish_trace demo_pv_cluster) \<and>
   (\<exists>def rep. ESts (CreateSTS ''ns'' def) rep \<in> set (demo_publish_trace cluster) \<and> meta_Name (sts_meta def) = ''nfs-1'')"
proof -
  let ?def = "nfsSTSDef ''nfs-1'' ''nfs-1'' ''uid'' defaultNfsImage []"
  have created: "ESts (CreateSTS ''ns'' ?def) (Some ?def, None) \<in> set (demo_publish_trace cluster)" by code_simp
  have unpub: "exec (NodeUnpublishVolume poll_once demo_unpublish) (demo_unpublish_trace demo_pv_cluster) (Done (Inr ()))"
    by (rule demo_unpublish_exec) code_simp
  have del: "EAct (DeleteSTS ''ns'' ''nfs-1'') None \<in> set (demo_unpublish_trace demo_pv_cluster)"
    by (simp add: demo_unpublish_trace_eq)
  have vid: "unpub_VolumeId demo_unpublish = pub_VolumeId demo_publish"
    by (simp add: demo_unpublish_def demo_publish_def)
  have attrs: "param_value paramDataNamespace (csi_VolumeAttributes (the (pv_CSI demo_pv))) [] =
      param_value paramDataNamespace (pub_VolumeContext demo_publish) []" by code_simp
  have "''ns'' = ''ns'' \<and> ''nfs-1'' = meta_Name (sts_meta ?def)"
    by (rule unpublish_deletes_published_set [OF poll_once_contract demo_parse demo_publish_ok created unpub del vid])
      (use attrs in \<open>auto simp: demo_unpublish_trace_eq\<close>)
  with created del show ?thesis by metis
qed

end
