(* ===== verification/Cluster_Spec.thy ===== *)
theory Cluster_Spec
  imports Publish_Safety Unpublish_Properties
begin

text \<open>
  An abstract specification of the driver as a whole.  The world is the set of the objects that
  exist (data claims, NFS stateful sets, services, mounted targets) and the persistent volumes;
  each RPC is one atomic step on it.  The handlers, run call by call against a cluster and a node
  that behave as documented, refine these steps; what is proved of the steps holds of the code.
\<close>

section \<open>The world and the calls' documented effects\<close>

type_synonym obj_key = "string \<times> string"

record world =
  w_claims :: "obj_key set"
  w_backends :: "obj_key set"
  w_services :: "obj_key set"
  w_mounts :: "string set"
  w_volumes :: "pv list"

definition add_claim :: "obj_key \<Rightarrow> world \<Rightarrow> world" where
  "add_claim k w = w\<lparr>w_claims := insert k (w_claims w)\<rparr>"

definition add_backend :: "obj_key \<Rightarrow> world \<Rightarrow> world" where
  "add_backend k w = w\<lparr>w_backends := insert k (w_backends w)\<rparr>"

definition add_service :: "obj_key \<Rightarrow> world \<Rightarrow> world" where
  "add_service k w = w\<lparr>w_services := insert k (w_services w)\<rparr>"

definition add_mount :: "string \<Rightarrow> world \<Rightarrow> world" where
  "add_mount t w = w\<lparr>w_mounts := insert t (w_mounts w)\<rparr>"

definition rm_claim :: "obj_key \<Rightarrow> world \<Rightarrow> world" where
  "rm_claim k w = w\<lparr>w_claims := w_claims w - {k}\<rparr>"

definition rm_backend :: "obj_key \<Rightarrow> world \<Rightarrow> world" where
  "rm_backend k w = w\<lparr>w_backends := w_backends w - {k}\<rparr>"

definition rm_service :: "obj_key \<Rightarrow> world \<Rightarrow> world" where
  "rm_service k w = w\<lparr>w_services := w_services w - {k}\<rparr>"

definition rm_mount :: "string \<Rightarrow> world \<Rightarrow> world" where
  "rm_mount t w = w\<lparr>w_mounts := w_mounts w - {t}\<rparr>"

lemmas world_defs = add_claim_def add_backend_def add_service_def add_mount_def
  rm_claim_def rm_backend_def rm_service_def rm_mount_def

text \<open>
  A write that is answered without an error took place; one answered with an error may or may not
  have (it may have timed out).  A read without an error tells the truth.
\<close>

definition after_write :: "go_error option \<Rightarrow> (world \<Rightarrow> world) \<Rightarrow> world \<Rightarrow> world \<Rightarrow> bool" where
  "after_write err f w w' \<longleftrightarrow> w' = f w \<or> err \<noteq> None \<and> w' = w"

fun effect :: "event \<Rightarrow> world \<Rightarrow> world \<Rightarrow> bool" where
  "effect (EPvc (GetPVC ns n) (obj, err)) w w' = (w' = w \<and> (err = None \<longrightarrow> (ns, n) \<in> w_claims w))"
| "effect (EPvc (CreatePVC ns d) (obj, err)) w w' = after_write err (add_claim (ns, meta_Name (pvc_meta d))) w w'"
| "effect (ESts (GetSTS ns n) (obj, err)) w w' = (w' = w \<and> (err = None \<longrightarrow> (ns, n) \<in> w_backends w))"
| "effect (ESts (CreateSTS ns d) (obj, err)) w w' = after_write err (add_backend (ns, meta_Name (sts_meta d))) w w'"
| "effect (ESvc (GetSVC ns n) (obj, err)) w w' = (w' = w \<and> (err = None \<longrightarrow> (ns, n) \<in> w_services w))"
| "effect (ESvc (CreateSVC ns d) (obj, err)) w w' = after_write err (add_service (ns, meta_Name (svc_meta d))) w w'"
| "effect (EListPVs (obj, err)) w w' = (w' = w \<and> (err = None \<longrightarrow> obj = None \<or> obj = Some (w_volumes w)))"
| "effect (EMountQuery (IsLikelyNotMountPoint t) (notMnt, err)) w w' =
     (w' = w \<and> (err = None \<longrightarrow> \<not> notMnt \<longrightarrow> t \<in> w_mounts w))"
| "effect (EAct (Mount s t f opts) err) w w' = after_write err (add_mount t) w w'"
| "effect (EAct (CleanupMountPoint t ext) err) w w' = after_write err (rm_mount t) w w'"
| "effect (EAct (DeletePVC ns n) err) w w' = after_write err (rm_claim (ns, n)) w w'"
| "effect (EAct (DeleteSTS ns n) err) w w' = after_write err (rm_backend (ns, n)) w w'"
| "effect (EAct (DeleteSVC ns n) err) w w' = after_write err (rm_service (ns, n)) w w'"
| "effect e w w' = (w' = w)"

primrec evolves :: "event list \<Rightarrow> world \<Rightarrow> world \<Rightarrow> bool" where
  "evolves [] w w' = (w' = w)"
| "evolves (e # tr) w w' = (\<exists>v. effect e w v \<and> evolves tr v w')"

lemma evolves_append: "evolves (tr1 @ tr2) w w' \<longleftrightarrow> (\<exists>v. evolves tr1 w v \<and> evolves tr2 v w')"
  by (induction tr1 arbitrary: w) auto

section \<open>Triples\<close>

text \<open>\<^verbatim>\<open>achieves w p Q\<close>: from the world \<open>w\<close>, every run of \<open>p\<close> ends with an outcome and a world in \<open>Q\<close>.\<close>

definition achieves :: "world \<Rightarrow> 'a prog \<Rightarrow> ('a outcome \<Rightarrow> world \<Rightarrow> bool) \<Rightarrow> bool" where
  "achieves w p Q \<longleftrightarrow> (\<forall>tr out w'. exec p tr out \<longrightarrow> evolves tr w w' \<longrightarrow> Q out w')"

named_theorems triple_rules \<open>the rules of \<^verbatim>\<open>achieves\<close>\<close>

lemma achievesD: "achieves w p Q \<Longrightarrow> exec p tr out \<Longrightarrow> evolves tr w w' \<Longrightarrow> Q out w'"
  by (simp add: achieves_def)

lemma achieves_conseq: "achieves w p R \<Longrightarrow> (\<And>out v. R out v \<Longrightarrow> Q out v) \<Longrightarrow> achieves w p Q"
  by (auto simp: achieves_def)

lemma achieves_Return [triple_rules]: "Q (Done a) w \<Longrightarrow> achieves w (Return a) Q"
  by (simp add: achieves_def prog_simps)

lemma achieves_bind:
  assumes "achieves w p R" and "\<And>a v. R (Done a) v \<Longrightarrow> achieves v (f a) Q" and "\<And>v. R Panicked v \<Longrightarrow> Q Panicked v"
  shows "achieves w (bind p f) Q"
  using assms unfolding achieves_def exec_bind evolves_append by (fastforce simp: evolves_append)

lemma achieves_attempt:
  assumes "achieves w p R" and "\<And>a v. R (Done (Inr a)) v \<Longrightarrow> achieves v (f a) Q"
    and "\<And>e v. R (Done (Inl e)) v \<Longrightarrow> Q (Done (Inl e)) v" and "\<And>v. R Panicked v \<Longrightarrow> Q Panicked v"
  shows "achieves w (attempt p f) Q"
  using assms unfolding achieves_def exec_attempt by (fastforce simp: evolves_append)

lemma achieves_deref [triple_rules]:
  "(q = None \<Longrightarrow> Q Panicked w) \<Longrightarrow> (\<And>a. q = Some a \<Longrightarrow> achieves w (k a) Q) \<Longrightarrow> achieves w (deref q k) Q"
  by (cases q) (simp_all add: achieves_def prog_simps)

lemma achieves_Act [triple_rules]:
  "(\<And>r v. effect (EAct c r) w v \<Longrightarrow> achieves v (k r) Q) \<Longrightarrow> achieves w (Act c k) Q"
  by (auto simp: achieves_def prog_simps)

lemma achieves_PvcCall [triple_rules]:
  "(\<And>obj err v. effect (EPvc c (obj, err)) w v \<Longrightarrow> achieves v (k (obj, err)) Q) \<Longrightarrow> achieves w (PvcCall c k) Q"
  by (auto simp: achieves_def prog_simps)

lemma achieves_StsCall [triple_rules]:
  "(\<And>obj err v. effect (ESts c (obj, err)) w v \<Longrightarrow> achieves v (k (obj, err)) Q) \<Longrightarrow> achieves w (StsCall c k) Q"
  by (auto simp: achieves_def prog_simps)

lemma achieves_SvcCall [triple_rules]:
  "(\<And>obj err v. effect (ESvc c (obj, err)) w v \<Longrightarrow> achieves v (k (obj, err)) Q) \<Longrightarrow> achieves w (SvcCall c k) Q"
  by (auto simp: achieves_def prog_simps)

lemma achieves_ListPVs [triple_rules]:
  "(\<And>obj err v. effect (EListPVs (obj, err)) w v \<Longrightarrow> achieves v (k (obj, err)) Q) \<Longrightarrow> achieves w (ListPVs k) Q"
  by (auto simp: achieves_def prog_simps simp del: effect.simps)

lemma achieves_MountQuery [triple_rules]:
  "(\<And>b err v. effect (EMountQuery q (b, err)) w v \<Longrightarrow> achieves v (k (b, err)) Q) \<Longrightarrow> achieves w (MountQuery q k) Q"
  by (auto simp: achieves_def prog_simps)

text \<open>Calls that leave the world as it is.\<close>

fun quiet :: "event \<Rightarrow> bool" where
  "quiet (EAct (Chmod t m) r) = True"
| "quiet (EAct (MkdirAll t m) r) = True"
| "quiet (EAct c r) = False"
| "quiet (EPvc (CreatePVC ns d) r) = False"
| "quiet (ESts (CreateSTS ns d) r) = False"
| "quiet (ESvc (CreateSVC ns d) r) = False"
| "quiet e = True"

lemma quiet_effect: "quiet e \<Longrightarrow> effect e w w' \<Longrightarrow> w' = w"
  by (cases "(e, w, w')" rule: effect.cases) simp_all

lemma quiet_evolves: "list_all quiet tr \<Longrightarrow> evolves tr w w' \<Longrightarrow> w' = w"
  by (induction tr arbitrary: w) (auto dest: quiet_effect)

lemma achieves_quiet: "emits quiet p \<Longrightarrow> achieves w p (\<lambda>out v. v = w)"
  by (auto simp: achieves_def dest: emits_exec quiet_evolves)

lemma achieves_quiet_exec: "emits quiet p \<Longrightarrow> achieves w p (\<lambda>out v. v = w \<and> (\<exists>tr. exec p tr out))"
  by (auto simp: achieves_def dest: emits_exec quiet_evolves)

end
