(* ===== verification/Cluster_Refinement.thy ===== *)
theory Cluster_Refinement
  imports Cluster_Spec
begin

text \<open>
  The refinement of the abstract steps by the handlers: a triple per phase, the atomic step of
  each RPC, and the simulation of every sequence of calls.
\<close>

section \<open>The phases\<close>

lemma add_present [simp]:
  "k \<in> w_claims w \<Longrightarrow> add_claim k w = w" "k \<in> w_backends w \<Longrightarrow> add_backend k w = w"
  "k \<in> w_services w \<Longrightarrow> add_service k w = w" "t \<in> w_mounts w \<Longrightarrow> add_mount t w = w"
  by (simp_all add: world_defs insert_absorb)

lemma quiet_pod_read: "is_pod_read e \<Longrightarrow> quiet e"
  by (cases e rule: is_pod_read.cases) simp_all

lemma quiet_tcp_probe: "is_tcp_probe e \<Longrightarrow> quiet e"
  by (cases e rule: is_tcp_probe.cases) simp_all

lemma quiet_waits:
  assumes "poll_contract poll"
  shows "emits quiet (waitForPodRunning poll ns n t)" and "emits quiet (waitForTcpReady poll host port t)"
  unfolding waitForPodRunning_def waitForTcpReady_def
  by (rule running.wait_emits [OF assms], erule quiet_pod_read)
    (rule reachable.wait_emits [OF assms], erule quiet_tcp_probe)

lemma quiet_backend_pod: "poll_contract poll \<Longrightarrow> emits quiet (wait_backend_pod poll ns n)"
  by (auto simp: wait_backend_pod_def deref_def intro!: emits_bind quiet_waits split: option.split)

lemma quiet_find: "emits quiet (find_source a b)"
  by (auto simp: find_source_def Let_def split: option.split)

lemma quiet_finish: "emits quiet (finish_publish t perms err)"
  by (auto simp: finish_publish_def intro!: emits_bind chmod_emits split: option.split)

lemma achieves_require:
  "achieves w (require_data_pvc ns n) (\<lambda>out v. v = w \<and> (\<forall>uid. out = Done (Inr uid) \<longrightarrow> (ns, n) \<in> w_claims w))"
  unfolding require_data_pvc_def
  by (rule triple_rules)+ (auto intro!: triple_rules split: option.split)

lemma achieves_statefulset:
  "achieves w (ensure_statefulset ns n def) (\<lambda>out v. let w1 = add_backend (ns, meta_Name (sts_meta def)) w in
     (n = meta_Name (sts_meta def) \<longrightarrow> out = Done (Inr ()) \<longrightarrow> v = w1) \<and>
     (out \<noteq> Done (Inr ()) \<longrightarrow> (\<exists>s. out = Done (Inl s)) \<and> (v = w \<or> v = w1)))"
  unfolding ensure_statefulset_def
  by (rule triple_rules)+ (auto simp: after_write_def intro!: triple_rules split: option.split)

lemma achieves_service:
  "achieves w (ensure_service ns n def) (\<lambda>out v. let w1 = add_service (ns, meta_Name (svc_meta def)) w in
     (\<forall>svc. n = meta_Name (svc_meta def) \<longrightarrow> out = Done (Inr svc) \<longrightarrow> v = w1) \<and>
     (\<forall>s. out = Done (Inl s) \<longrightarrow> v = w \<or> v = w1) \<and> out \<noteq> Panicked)"
  unfolding ensure_service_def
  by (rule triple_rules)+ (auto simp: after_write_def intro!: triple_rules split: option.split)

lemma achieves_prepare:
  "achieves w (prepare_target t perms) (\<lambda>out v. v = w \<and> (out = Done (Inr False) \<longrightarrow> t \<in> w_mounts w))"
  unfolding prepare_target_def
  by (rule triple_rules)+ (auto intro!: triple_rules split: option.split)

lemma achieves_local:
  "achieves w (mount_local s t ns n) (\<lambda>out v. v = add_mount t w \<or> (\<exists>e. out = Done (Some e)) \<and> v = w)"
proof -
  have pod: "achieves v (PodCall (GetPod ns n) (\<lambda>(appPod, err). deref appPod (\<lambda>appPod.
      case err of Some _ \<Rightarrow> Return None
      | None \<Rightarrow> PodCall (UpdatePod ns (annotate_pod appPod)) (\<lambda>_. Return None)))) (\<lambda>out v'. v' = v)" for v
    by (rule achieves_quiet) (auto simp: deref_def split: option.split)
  show ?thesis
    unfolding mount_local_def
    by (rule triple_rules)
      (auto simp: after_write_def intro!: triple_rules intro: achieves_conseq [OF pod] split: option.split)
qed

lemma achieves_remote:
  assumes "poll_contract poll"
  shows "achieves w (mount_remote poll ns n (nfsSVCDef n c uid) t opts)
    (\<lambda>out v. let w1 = add_service (ns, n) w in v = w1 \<or> v = add_mount t w1 \<or> out \<noteq> Done (Inr ()) \<and> v = w)"
  unfolding mount_remote_def
proof (rule achieves_attempt [OF achieves_service], goal_cases)
  case (1 svc v)
  then have v: "v = add_service (ns, n) w" by (simp add: Let_def nfsSVCDef_def nfsMeta_def)
  show ?case
  proof (rule achieves_deref, goal_cases)
    case (2 s)
    show ?case unfolding Let_def
      by (rule achieves_bind [OF achieves_quiet [OF quiet_waits(2) [OF assms]]])
        (auto simp: v after_write_def intro!: triple_rules split: option.split)
  qed (simp add: v)
qed (auto simp: Let_def nfsSVCDef_def nfsMeta_def)

lemma achieves_mount_volume:
  assumes "poll_contract poll"
  shows "achieves w (mount_volume poll vid t p uid podUID) (\<lambda>out v. let w1 = add_service (pp_dataNamespace p, vid) w in
    v \<in> {add_mount t w, w1, add_mount t w1} \<or> out \<noteq> Done (Inr ()) \<and> v = w)"
proof -
  have finish: "achieves v (finish_publish t perms err) (\<lambda>out v'. v' = v \<and> (err \<noteq> None \<longrightarrow> out \<noteq> Done (Inr ())))" for v perms err
    by (rule achieves_conseq [OF achieves_quiet_exec [OF quiet_finish]]) (auto simp: finish_publish_def prog_simps)
  show ?thesis
    unfolding mount_volume_def
  proof (rule achieves_bind [OF achieves_quiet [OF quiet_find]], goal_cases)
    case (1 r v)
    obtain source err where r: "r = (source, err)" by (cases r)
    show ?case
      unfolding r prod.case
    proof (rule achieves_MountQuery, goal_cases)
      case (1 notMnt qerr u)
      with \<open>v = w\<close> have u: "u = w" by simp
      have here: "achieves w (bind (mount_local source t (pp_appPodNamespace p) (pp_appPodName p))
          (finish_publish t (pp_mountPermissions p))) (\<lambda>out v. let w1 = add_service (pp_dataNamespace p, vid) w in
          v \<in> {add_mount t w, w1, add_mount t w1} \<or> out \<noteq> Done (Inr ()) \<and> v = w)"
        by (rule achieves_bind [OF achieves_local], rule achieves_conseq [OF finish]) (auto simp: Let_def)
      have remote: "achieves w (attempt (mount_remote poll (pp_dataNamespace p) vid
          (nfsSVCDef vid (pp_dataPVCName p) uid) t (pp_mountOptions p)) (\<lambda>_. finish_publish t (pp_mountPermissions p) err))
          (\<lambda>out v. let w1 = add_service (pp_dataNamespace p, vid) w in
          v \<in> {add_mount t w, w1, add_mount t w1} \<or> out \<noteq> Done (Inr ()) \<and> v = w)"
        by (rule achieves_attempt [OF achieves_remote [OF assms]], rule achieves_conseq [OF finish]) (auto simp: Let_def)
      from here remote u show ?case by simp
    qed
  qed (simp add: Let_def)
qed

section \<open>The atomic steps\<close>

definition publish_stages :: "publish_params \<Rightarrow> string \<Rightarrow> string \<Rightarrow> world \<Rightarrow> world set" where
  "publish_stages p vid t w =
     (let w1 = add_backend (pp_dataNamespace p, vid) w; w2 = add_service (pp_dataNamespace p, vid) w1
      in {add_mount t w1, w2, add_mount t w2})"

lemma achieves_publish_volume:
  assumes "poll_contract poll"
  shows "achieves w (publish_volume poll vid t p) (\<lambda>out v.
    v = w \<and> out \<noteq> Done (Inr ()) \<or>
    (pp_dataNamespace p, pp_dataPVCName p) \<in> w_claims w \<and>
      (v \<in> publish_stages p vid t w \<or> out \<noteq> Done (Inr ()) \<and> v = add_backend (pp_dataNamespace p, vid) w))"
  unfolding publish_volume_def
proof (rule achieves_attempt [OF achieves_require], goal_cases)
  case (1 uid v)
  then have v: "v = w" and claim: "(pp_dataNamespace p, pp_dataPVCName p) \<in> w_claims w" by auto
  let ?w1 = "add_backend (pp_dataNamespace p, vid) w"
  have name: "meta_Name (sts_meta (nfsSTSDef vid c u i h)) = vid" for c u i h
    by (simp add: nfsSTSDef_def nfsMeta_def)
  have mounting: "achieves ?w1 (if \<not> notMnt then Return (Inr ()) else mount_volume poll vid t p uid podUID)
      (\<lambda>out v. v \<in> publish_stages p vid t w \<or> out \<noteq> Done (Inr ()) \<and> v = ?w1)"
    if "\<not> notMnt \<longrightarrow> t \<in> w_mounts ?w1" for notMnt podUID
  proof (cases notMnt)
    case True
    then show ?thesis
      by (simp, intro achieves_conseq [OF achieves_mount_volume [OF assms]]) (auto simp: publish_stages_def Let_def)
  next
    case False
    with that have "add_mount t ?w1 = ?w1" by simp
    with False show ?thesis by (auto simp: publish_stages_def Let_def intro!: triple_rules)
  qed
  show ?case
    unfolding v
  proof (rule achieves_attempt [OF achieves_statefulset], goal_cases)
    case (1 u v)
    then have v: "v = ?w1" by (simp add: name)
    show ?case
      unfolding v
    proof (rule achieves_attempt [OF achieves_quiet [OF quiet_backend_pod [OF assms]]], goal_cases)
      case (1 podUID v)
      then have v: "v = ?w1" .
      show ?case
        unfolding v
      proof (rule achieves_attempt [OF achieves_prepare], goal_cases)
        case (1 notMnt v)
        then have "v = ?w1" "\<not> notMnt \<longrightarrow> t \<in> w_mounts ?w1" by auto
        with mounting [of notMnt podUID] claim show ?case by (auto elim!: achieves_conseq)
      qed (use claim in auto)
    qed (use claim in auto)
  qed (use claim in \<open>auto simp: Let_def name\<close>)
qed auto

datatype call = Create create_request | Publish publish_request | Unpublish unpublish_request | Delete string

definition report :: "status + 'a \<Rightarrow> status option prog" where
  "report r = Return (case r of Inl s \<Rightarrow> Some s | Inr _ \<Rightarrow> None)"

text \<open>An RPC as its handler serves it, with the error status it answers, if any.\<close>

fun serve_call :: "poller \<Rightarrow> driver \<Rightarrow> call \<Rightarrow> status option prog" where
  "serve_call poll drv (Create req) = bind (CreateVolume req) report"
| "serve_call poll drv (Publish req) = bind (NodePublishVolume poll drv req) report"
| "serve_call poll drv (Unpublish req) = bind (NodeUnpublishVolume poll req) report"
| "serve_call poll drv (Delete vid) = bind (DeleteVolume vid) report"

text \<open>
  The abstract steps.  Creating makes the claim exist; publishing needs the claim and makes the
  backend exist, and the service or the mount; unpublishing takes the mount away and may take the
  backend and the service of a listed volume; deleting may take the one claim the volume's
  attributes name.  A step that fails stops at one of its stages.
\<close>

definition unpublish_stages :: "string \<Rightarrow> world \<Rightarrow> world set" where
  "unpublish_stages vid w = {w} \<union>
     (case find (handles_volume vid) (w_volumes w) of
        None \<Rightarrow> {}
      | Some pv \<Rightarrow> (case pv_CSI pv of
          None \<Rightarrow> {}
        | Some csi \<Rightarrow> let k = (param_value paramDataNamespace (csi_VolumeAttributes csi) [], vid)
            in {rm_backend k w, rm_service k w, rm_service k (rm_backend k w)}))"

definition delete_stages :: "string \<Rightarrow> world \<Rightarrow> world set" where
  "delete_stages vid w = {w} \<union>
     (case find (handles_volume vid) (w_volumes w) of
        None \<Rightarrow> {}
      | Some pv \<Rightarrow> (case pv_CSI pv of
          None \<Rightarrow> {}
        | Some csi \<Rightarrow> {rm_claim (map_index (csi_VolumeAttributes csi) ''nfsNamespace'',
                               map_index (csi_VolumeAttributes csi) ''nfsVolumeClaim'') w}))"

fun step_spec :: "driver \<Rightarrow> call \<Rightarrow> status option outcome \<Rightarrow> world \<Rightarrow> world \<Rightarrow> bool" where
  "step_spec drv (Create req) out w w' =
     (case create_parse req of
        Inl e \<Rightarrow> out = Done (Some e) \<and> w' = w
      | Inr p \<Rightarrow> w' = add_claim (cp_nfsPVCNamespace p, volume_id (req_Name req)) w \<or> out \<noteq> Done None \<and> w' = w)"
| "step_spec drv (Publish req) out w w' =
     (case publish_parse drv req of
        Inl e \<Rightarrow> out = Done (Some e) \<and> w' = w
      | Inr p \<Rightarrow>
          w' = w \<and> out \<noteq> Done None \<or>
          (pp_dataNamespace p, pp_dataPVCName p) \<in> w_claims w \<and>
            (w' \<in> publish_stages p (pub_VolumeId req) (pub_TargetPath req) w \<or>
             out \<noteq> Done None \<and> w' = add_backend (pp_dataNamespace p, pub_VolumeId req) w))"
| "step_spec drv (Unpublish req) out w w' =
     (if unpub_VolumeId req = [] \<or> unpub_TargetPath req = [] then out \<noteq> Done None \<and> w' = w
      else if \<exists>s. out = Done (Some s) then w' \<in> {w, rm_mount (unpub_TargetPath req) w}
      else w' \<in> unpublish_stages (unpub_VolumeId req) (rm_mount (unpub_TargetPath req) w))"
| "step_spec drv (Delete vid) out w w' =
     (if vid = [] then out \<noteq> Done None \<and> w' = w else (\<forall>s. out \<noteq> Done (Some s)) \<and> w' \<in> delete_stages vid w)"

section \<open>The refinement\<close>

lemma achieves_report:
  assumes "achieves w p R" and "\<And>a v. R (Done a) v \<Longrightarrow> Q (Done (case a of Inl s \<Rightarrow> Some s | Inr _ \<Rightarrow> None)) v"
    and "\<And>v. R Panicked v \<Longrightarrow> Q Panicked v"
  shows "achieves w (bind p report) Q"
  by (rule achieves_bind [OF assms(1)]) (auto simp: report_def assms(2,3) intro!: triple_rules)

lemma achieves_create:
  "achieves w (create_volume name bytes p) (\<lambda>out v.
     v = add_claim (cp_nfsPVCNamespace p, volume_id name) w \<or> (\<forall>vol. out \<noteq> Done (Inr vol)) \<and> v = w)"
proof -
  have quiet_choose: "emits quiet (choose_storage_class sc)" for sc
    by (auto simp: choose_storage_class_def deref_def split: option.split)
  have claim: "achieves w (ensure_data_pvc ns n (dataPVCDef n sc bytes)) (\<lambda>out v.
      v = add_claim (ns, n) w \<or> (\<forall>pvc. out \<noteq> Done (Inr pvc)) \<and> v = w)" for ns n sc
    unfolding ensure_data_pvc_def
    by (rule triple_rules)+ (auto simp: after_write_def dataPVCDef_def intro!: triple_rules split: option.split)
  show ?thesis
    unfolding create_volume_def Let_def
    by (rule achieves_bind [OF achieves_quiet [OF quiet_choose]], simp only:, rule achieves_attempt [OF claim])
      (auto intro!: triple_rules)
qed

lemma achieves_getPvById:
  "achieves w (getPvById vid) (\<lambda>out v. v = w \<and>
     (\<forall>pv. out = Done (Inr pv) \<longrightarrow> find (handles_volume vid) (w_volumes w) = Some pv))"
  unfolding getPvById_def
  by (rule triple_rules) (auto intro!: triple_rules split: option.split)

lemma achieves_delete:
  assumes "vid \<noteq> []"
  shows "achieves w (DeleteVolume vid) (\<lambda>out v. (\<forall>s. out \<noteq> Done (Inl s)) \<and> v \<in> delete_stages vid w)"
  unfolding DeleteVolume_def
proof (simp add: assms, rule achieves_bind [OF achieves_getPvById], goal_cases)
  case (1 r v)
  then show ?case
    by (cases r) (auto simp: delete_stages_def after_write_def Let_def intro!: triple_rules)
qed (auto simp: delete_stages_def)

text \<open>The parts of unpublishing that follow the clean-up.\<close>

abbreviation releasing :: "string \<Rightarrow> world \<Rightarrow> (status + unit) outcome \<Rightarrow> world \<Rightarrow> bool" where
  "releasing vid w out v \<equiv> (\<forall>s. out \<noteq> Done (Inl s)) \<and> v \<in> unpublish_stages vid w"

lemma unpublish_stages_self: "w \<in> unpublish_stages vid w"
  by (simp add: unpublish_stages_def)

lemma achieves_delete_backend:
  assumes "poll_contract poll" and found: "find (handles_volume vid) (w_volumes w) = Some pv"
  shows "achieves w (delete_backend poll vid pv) (releasing vid w)"
  unfolding delete_backend_def
proof (rule achieves_deref, goal_cases)
  case (2 csi)
  let ?k = "(param_value paramDataNamespace (csi_VolumeAttributes csi) [], vid)"
  have wait: "achieves v (bind (waitForPodRunning poll ns n t) (\<lambda>_. Return (Inr ()))) (releasing vid w)"
    if "v \<in> unpublish_stages vid w" for v ns n t
    by (rule achieves_bind [OF achieves_quiet [OF quiet_waits(1) [OF assms(1)]]]) (auto simp: that intro!: triple_rules)
  from 2 found have stages: "unpublish_stages vid w =
      {w, rm_backend ?k w, rm_service ?k w, rm_service ?k (rm_backend ?k w)}"
    by (auto simp: unpublish_stages_def Let_def)
  show ?case
    unfolding attributes_loop_values Let_def prod.case
    by (rule achieves_Act, rule achieves_Act, rule wait) (auto simp: stages after_write_def)
qed (simp add: unpublish_stages_self)

lemma achieves_release:
  assumes "poll_contract poll"
  shows "achieves w (release_volume poll vid) (releasing vid w)"
  unfolding release_volume_def
proof (rule achieves_bind [OF achieves_getPvById], goal_cases)
  case (1 r v)
  show ?case
  proof (cases r)
    case (Inl e)
    with 1 show ?thesis by (auto simp: unpublish_stages_self intro!: triple_rules)
  next
    case (Inr pv)
    with 1 have v: "v = w" and found: "find (handles_volume vid) (w_volumes w) = Some pv" by auto
    have "achieves w (bind (still_used ref) (\<lambda>used. if used then Return (Inr ()) else delete_backend poll vid pv))
        (releasing vid w)" for ref
    proof (rule achieves_bind [OF achieves_quiet], goal_cases)
      case 1
      show ?case by (auto simp: still_used_def deref_def split: option.split)
    next
      case (2 used v)
      with achieves_delete_backend [OF assms found] unpublish_stages_self show ?case by (auto intro!: triple_rules)
    qed (simp add: unpublish_stages_self)
    with Inr v show ?thesis by (auto simp: unpublish_stages_self intro!: achieves_deref)
  qed
qed (auto simp: unpublish_stages_self)

lemma achieves_unpublish:
  assumes "poll_contract poll" and "unpub_VolumeId req \<noteq> []" and "unpub_TargetPath req \<noteq> []"
  shows "achieves w (NodeUnpublishVolume poll req) (\<lambda>out v.
    if \<exists>s. out = Done (Inl s) then v \<in> {w, rm_mount (unpub_TargetPath req) w}
    else v \<in> unpublish_stages (unpub_VolumeId req) (rm_mount (unpub_TargetPath req) w))"
  unfolding NodeUnpublishVolume_def
proof (simp add: assms(2,3), rule achieves_Act, goal_cases)
  case (1 r v)
  then show ?case
    by (cases r) (auto simp: after_write_def intro!: triple_rules intro: achieves_conseq [OF achieves_release [OF assms(1)]])
qed

text \<open>Every run of an RPC takes the world to one its atomic step allows.\<close>

lemma serve_call_refines:
  assumes "poll_contract poll" and "exec (serve_call poll drv c) tr out" and "evolves tr w w'"
  shows "step_spec drv c out w w'"
proof -
  have "achieves w (serve_call poll drv c) (\<lambda>out w'. step_spec drv c out w w')"
  proof (cases c)
    case (Create req)
    have "achieves w (CreateVolume req) (\<lambda>out v. case create_parse req of
        Inl e \<Rightarrow> out = Done (Inl e) \<and> v = w
      | Inr p \<Rightarrow> v = add_claim (cp_nfsPVCNamespace p, volume_id (req_Name req)) w \<or>
          (\<forall>vol. out \<noteq> Done (Inr vol)) \<and> v = w)"
      using achieves_create by (auto simp: CreateVolume_def intro!: triple_rules split: sum.split)
    then show ?thesis
      unfolding Create serve_call.simps by (rule achieves_report) (auto split: sum.splits)
  next
    case (Publish req)
    have "achieves w (NodePublishVolume poll drv req) (\<lambda>out v. case publish_parse drv req of
        Inl e \<Rightarrow> out = Done (Inl e) \<and> v = w
      | Inr p \<Rightarrow> v = w \<and> out \<noteq> Done (Inr ()) \<or>
          (pp_dataNamespace p, pp_dataPVCName p) \<in> w_claims w \<and>
            (v \<in> publish_stages p (pub_VolumeId req) (pub_TargetPath req) w \<or>
             out \<noteq> Done (Inr ()) \<and> v = add_backend (pp_dataNamespace p, pub_VolumeId req) w))"
      using achieves_publish_volume [OF assms(1)]
      by (auto simp: NodePublishVolume_def intro!: triple_rules split: sum.split)
    then show ?thesis
      unfolding Publish serve_call.simps by (rule achieves_report) (auto split: sum.splits)
  next
    case (Unpublish req)
    show ?thesis
    proof (cases "unpub_VolumeId req = [] \<or> unpub_TargetPath req = []")
      case True
      then have "\<exists>s. NodeUnpublishVolume poll req = Return (Inl s)" by (auto simp: NodeUnpublishVolume_def)
      with True show ?thesis by (auto simp: Unpublish report_def intro!: triple_rules)
    next
      case False
      then show ?thesis
        unfolding Unpublish serve_call.simps
        by (intro achieves_report [OF achieves_unpublish [OF assms(1)]]) (auto split: sum.splits if_splits)
    qed
  next
    case (Delete vid)
    show ?thesis
    proof (cases "vid = []")
      case True
      then show ?thesis by (auto simp: Delete DeleteVolume_def report_def intro!: triple_rules)
    next
      case False
      then show ?thesis
        unfolding Delete serve_call.simps
        by (intro achieves_report [OF achieves_delete]) (auto split: sum.splits)
    qed
  qed
  with assms(2,3) show ?thesis by (simp add: achieves_def)
qed

end
