(* ===== verification/Cluster_System.thy ===== *)
theory Cluster_System
  imports Cluster_Refinement
begin

text \<open>
  The driver against a cluster: any environment whose answers are true of the world its state
  stands for.  Each RPC run in it commutes with its atomic step, and sequences of RPCs keep the
  invariants of the abstract machine.
\<close>

section \<open>Environments that answer truly\<close>

text \<open>
  \<^verbatim>\<open>view\<close> is the world an environment's state stands for.  The environment answers truly when each
  answer, and the state after it, is one the documented effect of the call allows.
\<close>

definition answers_truly :: "('w \<Rightarrow> world) \<Rightarrow> ('r \<Rightarrow> event) \<Rightarrow> 'w \<Rightarrow> 'r \<times> 'w \<Rightarrow> bool" where
  "answers_truly view ev w answer \<longleftrightarrow> effect (ev (fst answer)) (view w) (view (snd answer))"

definition truthful :: "'w environment \<Rightarrow> ('w \<Rightarrow> world) \<Rightarrow> bool" where
  "truthful E view \<longleftrightarrow>
     (\<forall>c w. answers_truly view (EAct c) w (env_act E c w)) \<and>
     (\<forall>c w. answers_truly view (EPvc c) w (env_pvc E c w)) \<and>
     (\<forall>c w. answers_truly view (ESts c) w (env_sts E c w)) \<and>
     (\<forall>c w. answers_truly view (ESvc c) w (env_svc E c w)) \<and>
     (\<forall>c w. answers_truly view (EPod c) w (env_pod E c w)) \<and>
     (\<forall>c w. answers_truly view (EListPVCs c) w (env_list_pvcs E c w)) \<and>
     (\<forall>w. answers_truly view (EListPVs) w (env_list_pvs E w)) \<and>
     (\<forall>w. answers_truly view (EListSCs) w (env_list_scs E w)) \<and>
     (\<forall>c w. answers_truly view (EListPods c) w (env_list_pods E c w)) \<and>
     (\<forall>c w. answers_truly view (EMountQuery c) w (env_mount_query E c w)) \<and>
     (\<forall>c w. answers_truly view (EReadDir c) w (env_read_dir E c w)) \<and>
     (\<forall>c w. answers_truly view (ELstat c) w (env_lstat E c w)) \<and>
     (\<forall>c w. answers_truly view (EStat c) w (env_stat E c w)) \<and>
     (\<forall>c w. answers_truly view (EGetenv c) w (env_getenv E c w)) \<and>
     (\<forall>c t w. answers_truly view (ETcpProbe c t) w (env_tcp_probe E c t w)) \<and>
     (\<forall>c w. answers_truly view (EStatFS c) w (env_statfs E c w))"

lemma evolves_after_call:
  assumes "answers_truly view ev w answer"
    and "\<And>r v. evolves (fst (snd (rest r v))) (view v) (view (snd (snd (rest r v))))"
  shows "evolves (fst (snd (after_call answer ev rest))) (view w) (view (snd (snd (after_call answer ev rest))))"
  using assms by (auto simp: after_call_def answers_truly_def split: prod.split) (metis fst_conv snd_conv)

lemma run_evolves:
  assumes "truthful E view"
  shows "evolves (fst (snd (run E p w))) (view w) (view (snd (snd (run E p w))))"
proof (induction p arbitrary: w)
  case (Return a)
  then show ?case by simp
next
  case Panic
  then show ?case by simp
qed (unfold run.simps, (rule evolves_after_call, use assms in \<open>simp add: truthful_def\<close>, simp)+)

text \<open>A run in a truthful environment is a step of the specification.\<close>

lemma run_refines:
  assumes "poll_contract poll" and "truthful E view" and "run E (serve_call poll drv c) s = (out, tr, s')"
  shows "step_spec drv c out (view s) (view s')"
  using serve_call_refines [OF assms(1) run_execD [OF assms(3)]]
    run_evolves [OF assms(2), of "serve_call poll drv c" s] assms(3) by simp

text \<open>
  C3: the handlers refine the abstract steps.  Run against a cluster and a node whose reads tell
  the truth and whose successful writes take place (a failed write may or may not have), every
  RPC, with whatever outcome, takes the world the state stands for to one its atomic step allows.
\<close>

theorem handlers_refine_spec:
  assumes "poll_contract poll" and "truthful E view" and "run E (serve_call poll drv c) s = (out, tr, s')"
  shows "step_spec drv c out (view s) (view s')"
  using assms by (rule run_refines)

section \<open>A cluster that stores what it is told\<close>

definition store_act :: "action \<Rightarrow> world \<Rightarrow> world" where
  "store_act a w =
     (case a of
        Mount s t f opts \<Rightarrow> add_mount t w
      | CleanupMountPoint t ext \<Rightarrow> rm_mount t w
      | MkdirAll t m \<Rightarrow> w
      | Chmod t m \<Rightarrow> w
      | DeletePVC ns n \<Rightarrow> rm_claim (ns, n) w
      | DeleteSTS ns n \<Rightarrow> rm_backend (ns, n) w
      | DeleteSVC ns n \<Rightarrow> rm_service (ns, n) w)"

definition store_env :: "world environment" where
  "store_env =
     \<lparr>env_act = (\<lambda>a w. (None, store_act a w)),
      env_pvc = (\<lambda>c w. (case c of
          GetPVC ns n \<Rightarrow> ((Some (zero_pvc\<lparr>pvc_meta := meta_of n ''uid''\<rparr>),
            if (ns, n) \<in> w_claims w then None else Some absent), w)
        | CreatePVC ns d \<Rightarrow> ((Some d, None), add_claim (ns, meta_Name (pvc_meta d)) w))),
      env_sts = (\<lambda>c w. (case c of
          GetSTS ns n \<Rightarrow> ((Some (nfsSTSDef n [] [] [] []), if (ns, n) \<in> w_backends w then None else Some absent), w)
        | CreateSTS ns d \<Rightarrow> ((Some d, None), add_backend (ns, meta_Name (sts_meta d)) w))),
      env_svc = (\<lambda>c w. (case c of
          GetSVC ns n \<Rightarrow> ((Some (nfsSVCDef n [] []), if (ns, n) \<in> w_services w then None else Some absent), w)
        | CreateSVC ns d \<Rightarrow> ((Some (d\<lparr>svc_ClusterIP := ''10.0.0.9''\<rparr>), None), add_service (ns, meta_Name (svc_meta d)) w))),
      env_pod = (\<lambda>c w. ((Some demo_pod, None), w)),
      env_list_pvcs = (\<lambda>ns w. ((Some [], None), w)),
      env_list_pvs = (\<lambda>w. ((Some (w_volumes w), None), w)),
      env_list_scs = (\<lambda>w. ((Some [], None), w)),
      env_list_pods = (\<lambda>ns w. ((Some [], None), w)),
      env_mount_query = (\<lambda>q w. ((case q of
          IsLikelyNotMountPoint t \<Rightarrow> (t \<notin> w_mounts w, None)
        | IsNotMountPoint t \<Rightarrow> (True, None)
        | PathExists t \<Rightarrow> (True, None)), w)),
      env_read_dir = (\<lambda>d w. (([], None), w)),
      env_lstat = (\<lambda>d w. ((\<lparr>info_Mode = 448, info_IsDir = True\<rparr>, None), w)),
      env_stat = (\<lambda>d w. ((\<lparr>info_Mode = 448, info_IsDir = True\<rparr>, None), w)),
      env_getenv = (\<lambda>n w. (''/var/lib/kubelet'', w)),
      env_tcp_probe = (\<lambda>a t w. ((ProbeSuccess, None), w)),
      env_statfs = (\<lambda>p w. ((None, Some absent), w))\<rparr>"

lemma store_env_truthful: "truthful store_env (\<lambda>w. w)"
  unfolding truthful_def
  by (auto simp: store_env_def answers_truly_def after_write_def store_act_def
      split: action.split pvc_call.split sts_call.split svc_call.split pod_call.split mount_query.split)

definition empty_world :: world where
  "empty_world = \<lparr>w_claims = {}, w_backends = {}, w_services = {}, w_mounts = {}, w_volumes = []\<rparr>"

definition serve_store :: "call \<Rightarrow> world \<Rightarrow> world" where
  "serve_store c w = snd (snd (run store_env (serve_call poll_once demo_driver c) w))"

definition demo_key :: obj_key where
  "demo_key = (''ns'', ''nfs-1'')"

lemma demo_stored:
  "map_prod (\<lambda>out. out) snd (run store_env (serve_call poll_once demo_driver (Publish demo_publish)) (add_claim demo_key empty_world)) =
     (Done None, add_mount ''/t'' (add_service demo_key (add_backend demo_key (add_claim demo_key empty_world))))"
  by code_simp

theorem handlers_refine_spec_witness:
  "step_spec demo_driver (Publish demo_publish) (Done None) (add_claim demo_key empty_world)
     (add_mount ''/t'' (add_service demo_key (add_backend demo_key (add_claim demo_key empty_world))))"
proof -
  let ?run = "run store_env (serve_call poll_once demo_driver (Publish demo_publish)) (add_claim demo_key empty_world)"
  obtain out tr s' where run: "?run = (out, tr, s')" by (cases ?run) auto
  from demo_stored [unfolded run] have ends: "out = Done None"
    "s' = add_mount ''/t'' (add_service demo_key (add_backend demo_key (add_claim demo_key empty_world)))"
    by simp_all
  from handlers_refine_spec [OF poll_once_contract store_env_truthful run] show ?thesis
    unfolding ends .
qed

section \<open>Sequences of calls\<close>

text \<open>
  The only volumes for which \<^verbatim>\<open>DeleteVolume\<close> deletes a claim in a named namespace are those with an
  attribute \<^verbatim>\<open>nfsNamespace\<close>; neither the volumes \<^verbatim>\<open>CreateVolume\<close> answers nor the static volume of
  \<^verbatim>\<open>example/pvc-static.yaml\<close> have it.
\<close>

definition spares_claims :: "pv \<Rightarrow> bool" where
  "spares_claims pv \<longleftrightarrow> (\<forall>csi. pv_CSI pv = Some csi \<longrightarrow> map_index (csi_VolumeAttributes csi) ''nfsNamespace'' = [])"

lemma created_spares:
  assumes "\<And>csi. pv_CSI pv = Some csi \<Longrightarrow>
      \<exists>name p extra. csi_VolumeAttributes csi = vol_VolumeContext (create_answer name p) @ extra \<and>
        map_index extra ''nfsNamespace'' = []"
  shows "spares_claims pv"
proof -
  have "map_index (vol_VolumeContext (create_answer name p) @ extra) ''nfsNamespace'' = map_index extra ''nfsNamespace''"
    for name p extra
    by (simp add: create_answer_def volume_context_def map_index_def key_defs)
  with assms show ?thesis by (fastforce simp: spares_claims_def)
qed

text \<open>
  \<open>V\<close> is a set of volume IDs whose data claim is named like the volume, as \<^verbatim>\<open>CreateVolume\<close> has it:
  requests to publish them say so.  Other volumes may be published with any claim.
\<close>

fun by_context :: "string set \<Rightarrow> driver \<Rightarrow> call \<Rightarrow> bool" where
  "by_context V drv (Publish req) =
     (case publish_parse drv req of Inl e \<Rightarrow> True
        | Inr p \<Rightarrow> pub_VolumeId req \<in> V \<longrightarrow> pp_dataPVCName p = pub_VolumeId req)"
| "by_context V drv c = True"

inductive reaches :: "string set \<Rightarrow> poller \<Rightarrow> driver \<Rightarrow> 'w environment \<Rightarrow> ('w \<Rightarrow> world) \<Rightarrow> 'w \<Rightarrow> 'w \<Rightarrow> bool"
  for V poll drv E view s0 where
  reaches_start: "reaches V poll drv E view s0 s0"
| reaches_call: "reaches V poll drv E view s0 s \<Longrightarrow> by_context V drv c \<Longrightarrow>
     run E (serve_call poll drv c) s = (out, tr, s') \<Longrightarrow> reaches V poll drv E view s0 s'"
| reaches_volumes: "reaches V poll drv E view s0 s \<Longrightarrow> view s' = (view s)\<lparr>w_volumes := vs\<rparr> \<Longrightarrow>
     list_all spares_claims vs \<Longrightarrow> reaches V poll drv E view s0 s'"

definition world_inv :: "string set \<Rightarrow> world \<Rightarrow> bool" where
  "world_inv V w \<longleftrightarrow> (\<forall>k \<in> w_backends w. snd k \<in> V \<longrightarrow> k \<in> w_claims w \<and> fst k \<noteq> []) \<and>
     list_all spares_claims (w_volumes w)"

definition keeps_claims :: "world \<Rightarrow> world \<Rightarrow> bool" where
  "keeps_claims w w' \<longleftrightarrow> (\<forall>k \<in> w_claims w. fst k \<noteq> [] \<longrightarrow> k \<in> w_claims w')"

lemma world_simps [simp]:
  "w_claims (add_claim k w) = insert k (w_claims w)" "w_backends (add_claim k w) = w_backends w"
  "w_volumes (add_claim k w) = w_volumes w"
  "w_claims (add_backend k w) = w_claims w" "w_backends (add_backend k w) = insert k (w_backends w)"
  "w_volumes (add_backend k w) = w_volumes w"
  "w_claims (add_service k w) = w_claims w" "w_backends (add_service k w) = w_backends w"
  "w_volumes (add_service k w) = w_volumes w"
  "w_claims (add_mount t w) = w_claims w" "w_backends (add_mount t w) = w_backends w"
  "w_volumes (add_mount t w) = w_volumes w"
  "w_claims (rm_claim k w) = w_claims w - {k}" "w_backends (rm_claim k w) = w_backends w"
  "w_volumes (rm_claim k w) = w_volumes w"
  "w_claims (rm_backend k w) = w_claims w" "w_backends (rm_backend k w) = w_backends w - {k}"
  "w_volumes (rm_backend k w) = w_volumes w"
  "w_claims (rm_service k w) = w_claims w" "w_backends (rm_service k w) = w_backends w"
  "w_volumes (rm_service k w) = w_volumes w"
  "w_claims (rm_mount t w) = w_claims w" "w_backends (rm_mount t w) = w_backends w"
  "w_volumes (rm_mount t w) = w_volumes w"
  by (simp_all add: world_defs)

lemma publish_parse_fields: "publish_parse drv req = Inr p \<Longrightarrow> pp_dataPVCName p \<noteq> [] \<and> pp_dataNamespace p \<noteq> []"
  by (elim publish_parse_InrD) auto

lemma unpublish_stages_claims:
  "v \<in> unpublish_stages vid w \<Longrightarrow> w_claims v = w_claims w \<and> w_backends v \<subseteq> w_backends w \<and> w_volumes v = w_volumes w"
  by (auto simp: unpublish_stages_def Let_def split: option.splits)

lemma delete_stages_claims:
  assumes "v \<in> delete_stages vid w" and "list_all spares_claims (w_volumes w)"
  shows "v = w \<or> (\<exists>n. v = rm_claim ([], n) w)"
proof (cases "find (handles_volume vid) (w_volumes w)")
  case None
  with assms show ?thesis by (simp add: delete_stages_def)
next
  case (Some pv)
  with assms(2) have made: "spares_claims pv" by (auto simp: find_Some_iff list_all_length)
  show ?thesis
  proof (cases "pv_CSI pv")
    case (Some csi)
    with \<open>find (handles_volume vid) (w_volumes w) = Some pv\<close> assms(1) made [unfolded spares_claims_def, rule_format, OF Some]
    show ?thesis by (auto simp: delete_stages_def)
  qed (use Some assms(1) in \<open>simp add: delete_stages_def\<close>)
qed

lemma publish_stages_world:
  assumes "v \<in> publish_stages p vid t w"
  shows "w_claims v = w_claims w \<and> w_backends v = insert (pp_dataNamespace p, vid) (w_backends w) \<and>
    w_volumes v = w_volumes w"
  using assms by (auto simp: publish_stages_def Let_def)

lemma step_keeps:
  assumes "step_spec drv c out w w'" and "by_context V drv c" and "world_inv V w"
  shows "world_inv V w' \<and> keeps_claims w w'"
proof (cases c)
  case (Create req)
  with assms show ?thesis by (auto simp: world_inv_def keeps_claims_def split: sum.splits)
next
  case (Publish req)
  with assms publish_parse_fields [of drv req] publish_stages_world show ?thesis
    by (fastforce simp: world_inv_def keeps_claims_def split: sum.splits)
next
  case (Unpublish req)
  with assms unpublish_stages_claims show ?thesis
    by (fastforce simp: world_inv_def keeps_claims_def split: if_splits)
next
  case (Delete vid)
  with assms(1,3) have "w' = w \<or> (\<exists>n. w' = rm_claim ([], n) w)"
    using delete_stages_claims [of w' vid w] by (auto simp: world_inv_def split: if_splits)
  with assms(3) show ?thesis
    by (elim disjE exE) (force simp: world_inv_def keeps_claims_def)+
qed

lemma keeps_claims_trans: "keeps_claims u v \<Longrightarrow> keeps_claims v w \<Longrightarrow> keeps_claims u w"
  by (simp add: keeps_claims_def)

text \<open>
  Whatever sequence of RPCs is served, with whatever outcomes, every NFS backend in the cluster
  of a volume in \<open>V\<close> has its data claim, and no claim in a named namespace is ever taken away (not
  even by \<^verbatim>\<open>DeleteVolume\<close>), as long as the volumes spare the claims and those in \<open>V\<close> are published
  with the claim of their own name.
\<close>

theorem backends_keep_claims:
  assumes "poll_contract poll" and "truthful E view" and "reaches V poll drv E view s0 s" and "world_inv V (view s0)"
  shows "{k \<in> w_backends (view s). snd k \<in> V} \<subseteq> w_claims (view s) \<and> {k \<in> w_claims (view s0). fst k \<noteq> []} \<subseteq> w_claims (view s)"
proof -
  from assms(3) have "world_inv V (view s) \<and> keeps_claims (view s0) (view s)"
  proof (induction rule: reaches.induct)
    case reaches_start
    with assms(4) show ?case by (simp add: keeps_claims_def)
  next
    case (reaches_call s c out tr s')
    then show ?case
      using step_keeps [OF run_refines [OF assms(1,2) reaches_call.hyps(3)]] keeps_claims_trans by blast
  next
    case (reaches_volumes s s' vs)
    then show ?case by (simp add: world_inv_def keeps_claims_def)
  qed
  then show ?thesis by (auto simp: world_inv_def keeps_claims_def)
qed

lemma reaches_serve_store:
  assumes "reaches UNIV poll_once demo_driver store_env (\<lambda>w. w) s0 s" and "by_context UNIV demo_driver c"
  shows "reaches UNIV poll_once demo_driver store_env (\<lambda>w. w) s0 (serve_store c s)"
proof -
  obtain out tr s' where run: "run store_env (serve_call poll_once demo_driver c) s = (out, tr, s')"
    by (cases "run store_env (serve_call poll_once demo_driver c) s") auto
  from reaches_call [OF assms run] run show ?thesis by (simp add: serve_store_def)
qed

lemma demo_pv_spares: "spares_claims demo_pv"
proof (rule created_spares, intro exI conjI)
  fix csi
  assume "pv_CSI demo_pv = Some csi"
  then show "csi_VolumeAttributes csi =
      vol_VolumeContext (create_answer ''pvc-1'' demo_create_params) @ [(''identity'', ''prov'')]"
    by (auto simp: demo_pv_def)
qed (simp add: map_index_def)

text \<open>Deleting the volume leaves its claim, and the backend that exports it, in place.\<close>

theorem backends_keep_claims_witness:
  "demo_key \<in> w_claims (serve_store (Delete ''nfs-1'')
     ((serve_store (Publish demo_publish) (add_claim demo_key empty_world))\<lparr>w_volumes := [demo_pv]\<rparr>))"
proof -
  let ?s0 = "add_claim demo_key empty_world"
  let ?s1 = "serve_store (Publish demo_publish) ?s0"
  let ?s2 = "?s1\<lparr>w_volumes := [demo_pv]\<rparr>"
  have "by_context UNIV demo_driver (Publish demo_publish)" by code_simp
  from reaches_serve_store [OF reaches_start this]
  have "reaches UNIV poll_once demo_driver store_env (\<lambda>w. w) ?s0 ?s1" .
  then have "reaches UNIV poll_once demo_driver store_env (\<lambda>w. w) ?s0 ?s2"
    by (rule reaches_volumes [where vs = "[demo_pv]"]) (simp_all add: demo_pv_spares)
  then have "reaches UNIV poll_once demo_driver store_env (\<lambda>w. w) ?s0 (serve_store (Delete ''nfs-1'') ?s2)"
    by (rule reaches_serve_store) simp
  moreover have "world_inv UNIV ?s0" by (simp add: world_inv_def empty_world_def world_defs)
  moreover have "demo_key \<in> w_claims ?s0" "fst demo_key \<noteq> []" by (simp_all add: demo_key_def)
  ultimately show ?thesis
    using backends_keep_claims [OF poll_once_contract store_env_truthful] by blast
qed

end
