(* ===== verification/Life_Cycle.thy ===== *)
theory Life_Cycle
  imports Cluster_System Publish_Properties
begin

text \<open>
  A volume from its creation to its last unpublishing, by the composition of the atomic steps the
  RPCs refine.
\<close>

lemma rm_other_fields [simp]:
  "w_mounts (add_claim k w) = w_mounts w" "w_services (add_claim k w) = w_services w"
  "w_mounts (add_backend k w) = w_mounts w" "w_services (add_backend k w) = w_services w"
  "w_mounts (add_service k w) = w_mounts w" "w_services (add_service k w) = insert k (w_services w)"
  "w_mounts (add_mount t w) = insert t (w_mounts w)" "w_services (add_mount t w) = w_services w"
  "w_mounts (rm_backend k w) = w_mounts w" "w_services (rm_backend k w) = w_services w"
  "w_mounts (rm_service k w) = w_mounts w" "w_services (rm_service k w) = w_services w - {k}"
  "w_mounts (rm_mount t w) = w_mounts w - {t}" "w_services (rm_mount t w) = w_services w"
  by (simp_all add: world_defs)

lemma publish_stages_fields:
  assumes "v \<in> publish_stages p vid t w"
  shows "w_mounts v - {t} = w_mounts w - {t}" "w_backends v = insert (pp_dataNamespace p, vid) (w_backends w)"
    "w_services v - {(pp_dataNamespace p, vid)} = w_services w - {(pp_dataNamespace p, vid)}"
  using assms by (auto simp: publish_stages_def Let_def)

lemma unpublish_stages_fields:
  assumes "v \<in> unpublish_stages vid w"
    and "\<And>pv csi. find (handles_volume vid) (w_volumes w) = Some pv \<Longrightarrow> pv_CSI pv = Some csi \<Longrightarrow>
      param_value paramDataNamespace (csi_VolumeAttributes csi) [] = ns"
  shows "w_mounts v = w_mounts w" "w_backends v - {(ns, vid)} = w_backends w - {(ns, vid)}"
    "w_services v - {(ns, vid)} = w_services w - {(ns, vid)}"
  using assms by (auto simp: unpublish_stages_def Let_def split: option.splits)

text \<open>
  C4: a volume created, published and unpublished with success leaves the node and the cluster as
  they were, up to its own traces: the target is not mounted and every other target is as before,
  the data claim is there and no other claim has come or gone, and no backend or service of
  another volume has been touched.
\<close>

theorem volume_life_cycle:
  assumes env: "poll_contract poll" "truthful E view"
    and create: "create_parse creq = Inr cp" "run E (serve_call poll drv (Create creq)) s0 = (Done None, tr0, s1)"
    and provisioned: "view s1' = (view s1)\<lparr>w_volumes := vs\<rparr>"
    and publish: "publish_parse drv preq = Inr p" "run E (serve_call poll drv (Publish preq)) s1' = (Done None, tr1, s2)"
    and unpublish: "unpub_VolumeId ureq = pub_VolumeId preq" "unpub_TargetPath ureq = pub_TargetPath preq"
      "run E (serve_call poll drv (Unpublish ureq)) s2 = (Done None, tr2, s3)"
    and attrs: "\<And>pv csi. find (handles_volume (pub_VolumeId preq)) vs = Some pv \<Longrightarrow> pv_CSI pv = Some csi \<Longrightarrow>
      param_value paramDataNamespace (csi_VolumeAttributes csi) [] = pp_dataNamespace p"
  shows "let k = (pp_dataNamespace p, pub_VolumeId preq) in
    w_mounts (view s3) = w_mounts (view s0) - {pub_TargetPath preq} \<and>
    w_claims (view s3) = insert (cp_nfsPVCNamespace cp, volume_id (req_Name creq)) (w_claims (view s0)) \<and>
    w_backends (view s3) - {k} = w_backends (view s0) - {k} \<and>
    w_services (view s3) - {k} = w_services (view s0) - {k}"
proof -
  let ?t = "pub_TargetPath preq" and ?vid = "pub_VolumeId preq"
  from run_refines [OF env create(2)] create(1)
  have s1: "view s1 = add_claim (cp_nfsPVCNamespace cp, volume_id (req_Name creq)) (view s0)" by simp
  from run_refines [OF env publish(2)] publish(1)
  have s2: "view s2 \<in> publish_stages p ?vid ?t (view s1')" by simp
  from publish(1) have "?vid \<noteq> []" "?t \<noteq> []" by (auto simp: publish_parse_def split: option.splits if_splits sum.splits)
  with run_refines [OF env unpublish(3)] unpublish(1,2)
  have s3: "view s3 \<in> unpublish_stages ?vid (rm_mount ?t (view s2))" by simp
  from publish_stages_world [OF s2] provisioned have vols: "w_volumes (rm_mount ?t (view s2)) = vs" by simp
  have "param_value paramDataNamespace (csi_VolumeAttributes csi) [] = pp_dataNamespace p"
    if "find (handles_volume ?vid) (w_volumes (rm_mount ?t (view s2))) = Some pv" "pv_CSI pv = Some csi" for pv csi
    using attrs that vols by simp
  note un = unpublish_stages_fields [OF s3 this]
  from unpublish_stages_claims [OF s3] publish_stages_world [OF s2] un publish_stages_fields [OF s2] provisioned s1
  show ?thesis by (simp add: Let_def)
qed

theorem volume_life_cycle_witness:
  "w_mounts (serve_store (Unpublish demo_unpublish) (serve_store (Publish demo_publish)
     ((serve_store (Create demo_create) empty_world)\<lparr>w_volumes := [demo_pv]\<rparr>))) = {}"
proof -
  let ?run = "\<lambda>c s. run store_env (serve_call poll_once demo_driver c) s"
  let ?s1 = "serve_store (Create demo_create) empty_world"
  let ?s1' = "?s1\<lparr>w_volumes := [demo_pv]\<rparr>"
  let ?s2 = "serve_store (Publish demo_publish) ?s1'" and ?s3 = "serve_store (Unpublish demo_unpublish) (serve_store (Publish demo_publish) ?s1')"
  have "(case ?run (Create demo_create) empty_world of (o1, _, s1) \<Rightarrow>
      case ?run (Publish demo_publish) (s1\<lparr>w_volumes := [demo_pv]\<rparr>) of (o2, _, s2) \<Rightarrow>
      [o1, o2, fst (?run (Unpublish demo_unpublish) s2)]) = [Done None, Done None, Done None]"
    by code_simp
  then have ok: "fst (?run (Create demo_create) empty_world) = Done None" "fst (?run (Publish demo_publish) ?s1') = Done None"
    "fst (?run (Unpublish demo_unpublish) ?s2) = Done None"
    by (simp_all add: serve_store_def split: prod.splits del: serve_call.simps)
  have runs: "?run c s = (fst (?run c s), fst (snd (?run c s)), serve_store c s)" for c s
    by (simp add: serve_store_def)
  have vid: "unpub_VolumeId demo_unpublish = pub_VolumeId demo_publish" "unpub_TargetPath demo_unpublish = pub_TargetPath demo_publish"
    by (simp_all add: demo_unpublish_def demo_publish_def)
  have ns: "pp_dataNamespace demo_params = ''ns''" by (simp add: demo_params_def)
  have "param_value paramDataNamespace (csi_VolumeAttributes (the (pv_CSI demo_pv))) [] = ''ns''" by code_simp
  then have attrs: "param_value paramDataNamespace (csi_VolumeAttributes csi) [] = pp_dataNamespace demo_params"
    if "find (handles_volume (pub_VolumeId demo_publish)) [demo_pv] = Some pv" "pv_CSI pv = Some csi" for pv csi
    using that ns by (auto split: if_splits)
  have vols: "?s1' = ?s1\<lparr>w_volumes := [demo_pv]\<rparr>" by simp
  from volume_life_cycle [OF poll_once_contract store_env_truthful demo_create_parse
      runs [of "Create demo_create" empty_world, unfolded ok] vols demo_parse
      runs [of "Publish demo_publish" ?s1', unfolded ok] vid runs [of "Unpublish demo_unpublish" ?s2, unfolded ok] attrs]
  have "w_mounts ?s3 = w_mounts empty_world - {pub_TargetPath demo_publish}" by (simp add: Let_def)
  then show ?thesis by (simp add: empty_world_def)
qed

end
