(* ===== verification/Small_Steps.thy ===== *)
theory Small_Steps
  imports Effects
begin

text \<open>
  Programs one call at a time.  A step makes the next call and goes on with its answer; the runs
  of \<^verbatim>\<open>exec\<close> are the sequences of steps that end in an answer or a panic.  The predicates on
  programs are kept by the steps, which makes them invariants of a goroutine between two calls.
\<close>

inductive prog_step :: "'a prog \<Rightarrow> event \<Rightarrow> 'a prog \<Rightarrow> bool" where
  step_Act: "prog_step (Act c k) (EAct c r) (k r)"
| step_PvcCall: "prog_step (PvcCall c k) (EPvc c r) (k r)"
| step_StsCall: "prog_step (StsCall c k) (ESts c r) (k r)"
| step_SvcCall: "prog_step (SvcCall c k) (ESvc c r) (k r)"
| step_PodCall: "prog_step (PodCall c k) (EPod c r) (k r)"
| step_ListPVCs: "prog_step (ListPVCs ns k) (EListPVCs ns r) (k r)"
| step_ListPVs: "prog_step (ListPVs k) (EListPVs r) (k r)"
| step_ListSCs: "prog_step (ListSCs k) (EListSCs r) (k r)"
| step_ListPods: "prog_step (ListPods ns k) (EListPods ns r) (k r)"
| step_MountQuery: "prog_step (MountQuery q k) (EMountQuery q r) (k r)"
| step_ReadDir: "prog_step (ReadDir d k) (EReadDir d r) (k r)"
| step_Lstat: "prog_step (Lstat d k) (ELstat d r) (k r)"
| step_Stat: "prog_step (Stat d k) (EStat d r) (k r)"
| step_Getenv: "prog_step (Getenv n k) (EGetenv n r) (k r)"
| step_TcpProbe: "prog_step (TcpProbe a t k) (ETcpProbe a t r) (k r)"
| step_StatFS: "prog_step (StatFS p k) (EStatFS p r) (k r)"

inductive_simps prog_step_Return [simp]: "prog_step (Return a) e q"
inductive_simps prog_step_Panic [simp]: "prog_step Panic e q"

text \<open>A program that is neither done nor panicked can step.\<close>

lemma prog_progress:
  obtains (returned) a where "p = Return a" | (panicked) "p = Panic" | (steps) e q where "prog_step p e q"
  by (cases p) (blast intro: prog_step.intros)+

lemma prog_step_determ: "prog_step p e q \<Longrightarrow> prog_step p e q' \<Longrightarrow> q = q'"
  by (erule prog_step.cases; erule prog_step.cases; simp)

lemma prog_step_exec: "prog_step p e q \<Longrightarrow> exec q tr out \<Longrightarrow> exec p (e # tr) out"
  by (erule prog_step.cases) (auto intro: exec.intros)

lemma exec_Cons_iff: "exec p (e # tr) out \<longleftrightarrow> (\<exists>q. prog_step p e q \<and> exec q tr out)"
proof
  assume "exec p (e # tr) out"
  then show "\<exists>q. prog_step p e q \<and> exec q tr out"
    by (cases rule: exec.cases) (blast intro: prog_step.intros)+
qed (blast intro: prog_step_exec)

lemma exec_Nil_iff: "exec p [] out \<longleftrightarrow> (\<exists>a. p = Return a \<and> out = Done a) \<or> p = Panic \<and> out = Panicked"
  by (cases p) (auto simp: prog_simps)

section \<open>What the steps keep\<close>

lemma guarded_step: "prog_step p e q \<Longrightarrow> guarded G p h \<Longrightarrow> G h e \<and> guarded G q (h @ [e])"
  by (erule prog_step.cases) (simp_all del: split_paired_All)

lemma emits_step: "prog_step p e q \<Longrightarrow> emits P p \<Longrightarrow> P e \<and> emits P q"
  by (erule prog_step.cases) (simp_all del: split_paired_All)

lemma panic_free_step: "prog_step p e q \<Longrightarrow> panic_free C p \<Longrightarrow> C e \<Longrightarrow> panic_free C q"
  by (erule prog_step.cases) (simp_all del: split_paired_All)

text \<open>\<^verbatim>\<open>residual p h q\<close>: after the calls \<open>h\<close> of \<open>p\<close>, \<open>q\<close> is left to do.\<close>

primrec residual :: "'a prog \<Rightarrow> event list \<Rightarrow> 'a prog \<Rightarrow> bool" where
  "residual p [] q = (q = p)"
| "residual p (e # h) q = (\<exists>u. prog_step p e u \<and> residual u h q)"

lemma residual_append: "residual p (h @ h') q \<longleftrightarrow> (\<exists>u. residual p h u \<and> residual u h' q)"
  by (induction h arbitrary: p) auto

lemma residual_step: "residual p h q \<Longrightarrow> prog_step q e u \<Longrightarrow> residual p (h @ [e]) u"
  by (auto simp: residual_append)

lemma exec_residual: "exec p (h @ tr) out \<longleftrightarrow> (\<exists>q. residual p h q \<and> exec q tr out)"
  by (induction h arbitrary: p) (auto simp: exec_Cons_iff)

lemma residual_returned: "residual p h (Return a) \<Longrightarrow> exec p h (Done a)"
  using exec_residual [of p h "[]"] by (auto simp: prog_simps)

lemma residual_panicked: "residual p h Panic \<Longrightarrow> exec p h Panicked"
  using exec_residual [of p h "[]"] by (auto simp: prog_simps)

lemma residual_guarded: "residual p h q \<Longrightarrow> guarded G p h0 \<Longrightarrow> guarded G q (h0 @ h)"
proof (induction h arbitrary: p h0)
  case (Cons e h)
  then obtain u where "prog_step p e u" "residual u h q" by auto
  with guarded_step [OF this(1) Cons.prems(2)] Cons.IH [of u "h0 @ [e]"] show ?case by simp
qed simp

lemma residual_panic_free: "residual p h q \<Longrightarrow> panic_free C p \<Longrightarrow> list_all C h \<Longrightarrow> panic_free C q"
  by (induction h arbitrary: p) (auto dest: panic_free_step)

end
