(* ===== verification/Retries.thy ===== *)
theory Retries
  imports Life_Cycle Small_Steps
begin

text \<open>
  Orchestrators deliver an RPC at least once: they call again until a call succeeds.  Here the
  attempts at one RPC, of which all but the last may fail, panic or succeed unheard, are shown to
  have the effect of one atomic step; and the worlds are ordered, so that which RPCs only add to
  the cluster and which only take away is a matter of the order.
\<close>

section \<open>Worlds by inclusion\<close>

text \<open>A world is below another with the same volumes when all its objects exist there too.\<close>

instantiation world_ext :: (order) order
begin

definition less_eq_world_ext :: "'a world_scheme \<Rightarrow> 'a world_scheme \<Rightarrow> bool" where
  "less_eq_world_ext v w \<longleftrightarrow> w_claims v \<subseteq> w_claims w \<and> w_backends v \<subseteq> w_backends w \<and>
     w_services v \<subseteq> w_services w \<and> w_mounts v \<subseteq> w_mounts w \<and> w_volumes v = w_volumes w \<and>
     world.more v \<le> world.more w"

definition less_world_ext :: "'a world_scheme \<Rightarrow> 'a world_scheme \<Rightarrow> bool" where
  "less_world_ext v w \<longleftrightarrow> v \<le> w \<and> \<not> w \<le> v"

instance
proof (standard, goal_cases)
  case 1
  show ?case by (rule less_world_ext_def)
next
  case 2
  show ?case by (simp add: less_eq_world_ext_def)
next
  case 3
  then show ?case by (auto simp: less_eq_world_ext_def)
next
  case (4 v w)
  then show ?case by (intro world.equality) (auto simp: less_eq_world_ext_def)
qed

end

lemma world_le [simp, intro]:
  "w \<le> add_claim k w" "w \<le> add_backend k w" "w \<le> add_service k w" "w \<le> add_mount t w"
  "rm_claim k w \<le> w" "rm_backend k w \<le> w" "rm_service k w \<le> w" "rm_mount t w \<le> w"
  for w :: world
  by (auto simp: less_eq_world_ext_def world_defs)

lemma publish_stages_above: "v \<in> publish_stages p vid t w \<Longrightarrow> w \<le> v"
  by (auto simp: publish_stages_def Let_def less_eq_world_ext_def world_defs)

lemma unpublish_stages_below: "v \<in> unpublish_stages vid w \<Longrightarrow> v \<le> w"
  by (auto simp: unpublish_stages_def Let_def less_eq_world_ext_def world_defs split: option.splits)

text \<open>Which way an RPC moves the world, whatever its outcome.\<close>

fun directed :: "call \<Rightarrow> world \<Rightarrow> world \<Rightarrow> bool" where
  "directed (Create req) w w' = (w \<le> w')"
| "directed (Publish req) w w' = (w \<le> w')"
| "directed (Unpublish req) w w' = (w' \<le> w)"
| "directed (Delete vid) w w' = (w' \<le> w)"

lemma step_directed:
  assumes "step_spec drv c out w w'"
  shows "directed c w w'"
proof (cases c)
  case (Publish req)
  with assms show ?thesis by (auto simp: publish_stages_above split: sum.splits)
next
  case (Unpublish req)
  with assms show ?thesis by (auto dest!: unpublish_stages_below intro: order_trans split: if_splits)
next
  case (Delete vid)
  with assms show ?thesis by (auto simp: delete_stages_def split: if_splits option.splits)
qed (use assms in \<open>auto split: sum.splits\<close>)

section \<open>Steps that absorb earlier attempts\<close>

text \<open>
  The contract of an operation that may be retried: a step that succeeds does what it does also
  when it starts from where an earlier step, with whatever outcome, has left off.
\<close>

locale absorbing =
  fixes step :: "'o \<Rightarrow> 'v \<Rightarrow> 'v \<Rightarrow> bool" and ok :: 'o
  assumes absorbs: "step out u v \<Longrightarrow> step ok v w \<Longrightarrow> step ok u w"
begin

text \<open>Any number of earlier attempts is absorbed.\<close>

lemma absorbs_all: "(\<lambda>u v. \<exists>out. step out u v)\<^sup>*\<^sup>* u v \<Longrightarrow> step ok v w \<Longrightarrow> step ok u w"
  by (induction rule: converse_rtranclp_induct) (auto intro: absorbs)

end

lemma publish_stages_absorb:
  assumes "v = w \<or> v = add_backend (pp_dataNamespace p, vid) w \<or> v \<in> publish_stages p vid t w"
    and "u \<in> publish_stages p vid t v"
  shows "u \<in> publish_stages p vid t w"
  using assms by (auto simp: publish_stages_def Let_def world_defs)

lemma rm_mount_stages:
  assumes "v \<in> unpublish_stages vid (rm_mount t w)"
  shows "rm_mount t v = v"
  using assms by (auto simp: unpublish_stages_def Let_def world_defs split: option.splits)

lemma unpublish_stages_absorb:
  assumes "v \<in> unpublish_stages vid w" and "u \<in> unpublish_stages vid v"
  shows "u \<in> unpublish_stages vid w"
proof (cases "find (handles_volume vid) (w_volumes w)")
  case (Some pv)
  with unpublish_stages_claims [OF assms(1)] have v: "find (handles_volume vid) (w_volumes v) = Some pv" by simp
  from assms show ?thesis by (cases "pv_CSI pv") (auto simp: unpublish_stages_def Some v Let_def world_defs)
qed (use assms in \<open>simp add: unpublish_stages_def\<close>)

lemma delete_stages_absorb:
  assumes "v \<in> delete_stages vid w" and "u \<in> delete_stages vid v"
  shows "u \<in> delete_stages vid w"
proof -
  from assms(1) have "w_volumes v = w_volumes w" by (auto simp: delete_stages_def split: option.splits)
  with assms show ?thesis unfolding delete_stages_def
    by (cases "find (handles_volume vid) (w_volumes w)") (auto simp: world_defs split: option.splits)
qed

lemma step_spec_absorbs:
  assumes "step_spec drv c out u v" and "step_spec drv c (Done None) v w"
  shows "step_spec drv c (Done None) u w"
proof (cases c)
  case (Create req)
  with assms show ?thesis by (auto split: sum.splits)
next
  case (Publish req)
  with assms(2) obtain p where p: "publish_parse drv req = Inr p"
    and claim: "(pp_dataNamespace p, pp_dataPVCName p) \<in> w_claims v"
    and w: "w \<in> publish_stages p (pub_VolumeId req) (pub_TargetPath req) v" by (auto split: sum.splits)
  from assms(1) have v: "v = u \<or> v = add_backend (pp_dataNamespace p, pub_VolumeId req) u \<or>
      v \<in> publish_stages p (pub_VolumeId req) (pub_TargetPath req) u" by (auto simp: Publish p)
  then have "w_claims v = w_claims u" using publish_stages_world by auto
  with claim publish_stages_absorb [OF v w] show ?thesis by (simp add: Publish p)
next
  case (Unpublish req)
  let ?vid = "unpub_VolumeId req" and ?t = "unpub_TargetPath req"
  from assms(2) have given: "?vid \<noteq> []" "?t \<noteq> []" and w: "w \<in> unpublish_stages ?vid (rm_mount ?t v)"
    by (auto simp: Unpublish split: if_splits)
  from assms(1) given consider "v = u" | "v = rm_mount ?t u" | "v \<in> unpublish_stages ?vid (rm_mount ?t u)"
    by (auto simp: Unpublish split: if_splits)
  then have "w \<in> unpublish_stages ?vid (rm_mount ?t u)"
  proof cases
    case 3
    with w rm_mount_stages [OF 3] show ?thesis by (auto intro: unpublish_stages_absorb)
  qed (use w in \<open>auto simp: world_defs\<close>)
  with given show ?thesis by (simp add: Unpublish)
next
  case (Delete vid)
  with assms show ?thesis by (auto intro: delete_stages_absorb split: if_splits)
qed

interpretation rpc_step: absorbing "step_spec drv c" "Done None" for drv c
  by unfold_locales (rule step_spec_absorbs)

section \<open>Runs that are cut short\<close>

text \<open>
  A process may be killed between any two calls of a handler.  The calls made by then are those of
  a whole run too, one in which everything after them fails without effect; so what holds of the
  world after every run holds of it after every beginning of one.
\<close>

lemma idle_effect:
  "effect (EAct c (Some absent)) w w" "effect (EPvc pc (None, Some absent)) w w"
  "effect (ESts sc (None, Some absent)) w w" "effect (ESvc vc (None, Some absent)) w w"
  "effect (EPod oc (None, Some absent)) w w" "effect (EListPVCs ns (None, Some absent)) w w"
  "effect (EListPVs (None, Some absent)) w w" "effect (EListSCs (None, Some absent)) w w"
  "effect (EListPods ns (None, Some absent)) w w" "effect (EMountQuery q (True, Some absent)) w w"
  "effect (EReadDir d ([], Some absent)) w w"
  "effect (ELstat d (\<lparr>info_Mode = 0, info_IsDir = False\<rparr>, Some absent)) w w"
  "effect (EStat d (\<lparr>info_Mode = 0, info_IsDir = False\<rparr>, Some absent)) w w"
  "effect (EGetenv n []) w w" "effect (ETcpProbe a t (ProbeFailure, Some absent)) w w"
  "effect (EStatFS p (None, Some absent)) w w"
  by (cases c, simp_all add: after_write_def) (cases pc; cases sc; cases vc; cases q; simp add: after_write_def)+

lemma idle_run: "\<exists>tr out. exec p tr out \<and> evolves tr w w"
proof -
  have after: "\<exists>tr out. exec p tr out \<and> evolves tr w w"
    if "prog_step p e q" "effect e w w" "\<exists>tr out. exec q tr out \<and> evolves tr w w" for p q :: "'a prog" and e
    using that by (metis evolves.simps(2) prog_step_exec)
  show ?thesis
  proof (induction p)
    case (Return a)
    then show ?case by (auto simp: prog_simps)
  next
    case Panic
    then show ?case by (auto simp: prog_simps)
  qed (rule after, rule prog_step.intros, rule idle_effect, blast)+
qed

lemma cut_short_step:
  assumes "poll_contract poll" and "exec (serve_call poll drv c) (tr @ rest) out" and "evolves tr w v"
  shows "\<exists>out. step_spec drv c out w v"
proof -
  from assms(2) obtain q where q: "residual (serve_call poll drv c) tr q" by (auto simp: exec_residual)
  obtain rest' out' where "exec q rest' out'" and idle: "evolves rest' v v" using idle_run by blast
  with q have "exec (serve_call poll drv c) (tr @ rest') out'" by (auto simp: exec_residual)
  moreover from assms(3) idle have "evolves (tr @ rest') w v" by (auto simp: evolves_append)
  ultimately show ?thesis using serve_call_refines [OF assms(1)] by blast
qed

section \<open>Attempts\<close>

text \<open>
  Attempts at one RPC, the last with the outcome \<open>out\<close>.  The others may be cut short after any of
  their calls, and the answer of one that is not is disregarded.
\<close>

inductive attempts :: "poller \<Rightarrow> driver \<Rightarrow> call \<Rightarrow> world \<Rightarrow> status option outcome \<Rightarrow> world \<Rightarrow> bool"
  for poll drv c where
  last_attempt: "exec (serve_call poll drv c) tr out \<Longrightarrow> evolves tr w w' \<Longrightarrow> attempts poll drv c w out w'"
| next_attempt: "exec (serve_call poll drv c) (tr @ rest) out0 \<Longrightarrow> evolves tr w v \<Longrightarrow>
     attempts poll drv c v out w' \<Longrightarrow> attempts poll drv c w out w'"

lemma attempts_refine:
  assumes "poll_contract poll" and "attempts poll drv c w out w'"
  shows "\<exists>v. (\<lambda>u v. \<exists>out. step_spec drv c out u v)\<^sup>*\<^sup>* w v \<and> step_spec drv c out v w'"
  using assms(2)
proof (induction rule: attempts.induct)
  case (last_attempt tr out w w')
  with serve_call_refines [OF assms(1)] show ?case by blast
next
  case (next_attempt tr rest out0 w v out w')
  from cut_short_step [OF assms(1) next_attempt.hyps(1,2)] next_attempt.IH show ?case
    by (blast intro: converse_rtranclp_into_rtranclp)
qed

text \<open>
  C5: an RPC delivered at least once acts once: however many attempts at it end in an error, a
  panic, the death of the plugin between two calls, or an answer that is lost, when the next one
  succeeds the world has gone from the first attempt to the last as in one atomic step of that RPC
  that succeeds; and on the way creating and publishing only add to the node and the cluster,
  unpublishing and deleting only take away.
\<close>

theorem retries_act_once:
  assumes "poll_contract poll" and "attempts poll drv c w (Done None) w'"
  shows "step_spec drv c (Done None) w w' \<and> directed c w w'"
proof -
  from attempts_refine [OF assms] have "step_spec drv c (Done None) w w'"
    by (blast intro: rpc_step.absorbs_all)
  with step_directed show ?thesis by blast
qed

text \<open>A publication killed after it has created the stateful set, and made again with success.\<close>

theorem retries_act_once_witness:
  "let w0 = add_claim demo_key empty_world; v = add_backend demo_key w0;
       w1 = add_mount ''/t'' (add_service demo_key v);
       p = Publish demo_publish; calls = \<lambda>w. fst (snd (run store_env (serve_call poll_once demo_driver p) w))
   in evolves (take 3 (calls w0)) w0 v \<and> evolves (calls v) v w1 \<and>
      step_spec demo_driver p (Done None) w0 w1 \<and> w0 \<le> w1"
proof -
  let ?p = "Publish demo_publish" and ?run = "run store_env (serve_call poll_once demo_driver (Publish demo_publish))"
  let ?w0 = "add_claim demo_key empty_world"
  let ?v = "add_backend demo_key ?w0" and ?w1 = "add_mount ''/t'' (add_service demo_key (add_backend demo_key ?w0))"
  let ?d = "nfsSTSDef ''nfs-1'' ''nfs-1'' ''uid'' defaultNfsImage []"
  have first3: "take 3 (fst (snd (?run ?w0))) = [EPvc (GetPVC ''ns'' ''nfs-1'') (Some (zero_pvc\<lparr>pvc_meta := meta_of ''nfs-1'' ''uid''\<rparr>), None),
      ESts (GetSTS ''ns'' ''nfs-1'') (Some (nfsSTSDef ''nfs-1'' [] [] [] []), Some absent), ESts (CreateSTS ''ns'' ?d) (Some ?d, None)]"
    by code_simp
  have "meta_Name (sts_meta ?d) = ''nfs-1''" by (simp add: nfsSTSDef_def nfsMeta_def)
  then have killed: "evolves (take 3 (fst (snd (?run ?w0)))) ?w0 ?v"
    unfolding first3 by (simp add: after_write_def demo_key_def)
  have cut: "exec (serve_call poll_once demo_driver ?p) (take 3 (fst (snd (?run ?w0))) @ drop 3 (fst (snd (?run ?w0)))) (fst (?run ?w0))"
    unfolding append_take_drop_id by (rule run_exec)
  have "map_prod (\<lambda>out. out) snd (?run ?v) = (Done None, ?w1)" by code_simp
  then have ends: "fst (?run ?v) = Done None" "snd (snd (?run ?v)) = ?w1" by (simp_all add: prod_eq_iff)
  have again: "evolves (fst (snd (?run ?v))) ?v ?w1"
    using run_evolves [OF store_env_truthful, of "serve_call poll_once demo_driver ?p" ?v] ends(2) by simp
  have "exec (serve_call poll_once demo_driver ?p) (fst (snd (?run ?v))) (Done None)"
    using run_exec [of "serve_call poll_once demo_driver ?p" store_env ?v] ends(1) by simp
  from next_attempt [OF cut killed last_attempt [OF this again]]
  have "attempts poll_once demo_driver ?p ?w0 (Done None) ?w1" .
  from retries_act_once [OF poll_once_contract this] killed again show ?thesis by (simp add: Let_def)
qed

end
