(* ===== verification/Concurrent_Calls.thy ===== *)
theory Concurrent_Calls
  imports Cluster_System
begin

text \<open>
  Many RPCs at once.  The gRPC server runs every call in its own goroutine and the driver takes no
  lock around them (\<^verbatim>\<open>VolumeLocks\<close> is never used), so the calls of concurrent handlers interleave in
  every order, and with changes others make in between.
\<close>

section \<open>Interleavings\<close>

text \<open>The calls of goroutine \<open>i\<close> in a list of calls labelled with their goroutines.\<close>

fun calls_of :: "nat \<Rightarrow> (nat \<times> event) list \<Rightarrow> event list" where
  "calls_of i [] = []"
| "calls_of i ((j, e) # ls) = (if j = i then e # calls_of i ls else calls_of i ls)"

lemma calls_of_append [simp]: "calls_of i (ls @ ls') = calls_of i ls @ calls_of i ls'"
  by (induction ls rule: calls_of.induct) auto

lemma calls_of_subset: "set (calls_of i ls) \<subseteq> snd ` set ls"
  by (induction i ls rule: calls_of.induct) auto

text \<open>Each goroutine has run some part of its program.\<close>

definition interleaving :: "(nat \<Rightarrow> 'a prog) \<Rightarrow> (nat \<times> event) list \<Rightarrow> bool" where
  "interleaving p ls \<longleftrightarrow> (\<forall>i. \<exists>rest out. exec (p i) (calls_of i ls @ rest) out)"

lemma whole_run: "exec p tr out \<Longrightarrow> \<exists>rest out. exec p (tr @ rest) out"
  by (metis append_Nil2)

lemma interleaving_prefix: "interleaving p (ls @ ls') \<Longrightarrow> interleaving p ls"
  by (fastforce simp: interleaving_def)

text \<open>
  Between two calls others may change the world: users and the provisioner add claims and bring in
  or take away volumes, all of them ones that spare the claims; the plugins of other nodes create
  and delete backends and services, and mount and unmount.  A backend that is new has its claim.
\<close>

definition outside :: "world \<Rightarrow> world \<Rightarrow> bool" where
  "outside w w' \<longleftrightarrow> w_claims w \<subseteq> w_claims w' \<and>
     (\<forall>k \<in> w_backends w'. k \<in> w_backends w \<or> k \<in> w_claims w' \<and> fst k \<noteq> []) \<and>
     list_all spares_claims (w_volumes w')"

fun concurrently :: "event list \<Rightarrow> world \<Rightarrow> world \<Rightarrow> bool" where
  "concurrently [] w w' = (w' = w)"
| "concurrently (e # tr) w w' = (\<exists>u v. (u = w \<or> outside w u) \<and> effect e u v \<and> concurrently tr v w')"

lemma concurrently_append:
  "concurrently (tr1 @ tr2) w w' \<longleftrightarrow> (\<exists>v. concurrently tr1 w v \<and> concurrently tr2 v w')"
  by (induction tr1 arbitrary: w) auto

lemma evolves_concurrently: "evolves tr w w' \<Longrightarrow> concurrently tr w w'"
  by (induction tr arbitrary: w) auto

section \<open>What a handler does to claims and backends\<close>

text \<open>
  A backend of a volume in \<open>V\<close> is created only after its own claim was read, a claim deleted only for the attributes
  of a listed volume.
\<close>

fun claim_guard :: "string set \<Rightarrow> event list \<Rightarrow> event \<Rightarrow> bool" where
  "claim_guard V h (ESts (CreateSTS ns d) r) =
     (meta_Name (sts_meta d) \<in> V \<longrightarrow>
        ns \<noteq> [] \<and> (\<exists>pvc. EPvc (GetPVC ns (meta_Name (sts_meta d))) (Some pvc, None) \<in> set h))"
| "claim_guard V h (EAct (DeletePVC ns n) r) =
     (\<exists>items pv csi. EListPVs (Some items, None) \<in> set h \<and> pv \<in> set items \<and> pv_CSI pv = Some csi \<and>
        ns = map_index (csi_VolumeAttributes csi) ''nfsNamespace'')"
| "claim_guard V h e = True"

lemma guarded_mono: "guarded G p h \<Longrightarrow> (\<And>h e. G h e \<Longrightarrow> G' h e) \<Longrightarrow> guarded G' p h"
  by (induction p arbitrary: h) (simp_all del: split_paired_All)

lemma guarded_report: "guarded G p [] \<Longrightarrow> guarded G (bind p report) []"
  by (rule guarded_bind) (simp_all add: report_def)

lemma publish_permits_claim_guard:
  assumes "publish_permits p vid tgt h e" and "vid \<in> V \<longrightarrow> pp_dataPVCName p = vid" and "pp_dataNamespace p \<noteq> []"
  shows "claim_guard V h e"
  using assms by (cases "(V, h, e)" rule: claim_guard.cases) (auto simp: nfsSTSDef_def nfsMeta_def)

lemma unpublish_permits_claim_guard: "unpublish_permits req h e \<Longrightarrow> claim_guard V h e"
  by (cases "(V, h, e)" rule: claim_guard.cases) auto

fun no_delete :: "event \<Rightarrow> bool" where
  "no_delete (EAct c r) = False"
| "no_delete (ESts c r) = False"
| "no_delete e = True"

lemma no_delete_guard: "no_delete e \<Longrightarrow> claim_guard V h e"
  by (cases "(V, h, e)" rule: claim_guard.cases) auto

lemma guard_create: "guarded (claim_guard V) (CreateVolume req) []"
proof (rule guarded_emits [OF _ no_delete_guard])
  show "emits no_delete (CreateVolume req)"
    by (auto simp: CreateVolume_def create_volume_def choose_storage_class_def ensure_data_pvc_def Let_def
        intro!: emits_intros split: option.split sum.split)
qed

lemma guard_delete: "guarded (claim_guard V) (DeleteVolume vid) []"
proof -
  have search: "guarded (claim_guard V) (getPvById vid) []"
    by (rule guarded_emits [OF getPvById_emits [where P = no_delete] no_delete_guard]) simp
  have found: "guarded (claim_guard V) (deref (pv_CSI pv) (\<lambda>csi.
      Act (DeletePVC (map_index (csi_VolumeAttributes csi) ''nfsNamespace'')
        (map_index (csi_VolumeAttributes csi) ''nfsVolumeClaim'')) (\<lambda>_. Return (Inr () :: status + unit)))) ([] @ tr)"
    if "exec (getPvById vid) tr (Done (Inr pv))" for tr pv
  proof -
    from that obtain items where "tr = [EListPVs (Some items, None)]" "pv \<in> set items"
      by (auto simp: exec_getPvById_Inr find_Some_iff)
    then show ?thesis by (intro guarded_deref) (simp, blast)
  qed
  have "guarded (claim_guard V) (bind (getPvById vid) (\<lambda>r. case r of Inl _ \<Rightarrow> Return (Inr () :: status + unit)
      | Inr nfsPV \<Rightarrow> deref (pv_CSI nfsPV) (\<lambda>csi.
          Act (DeletePVC (map_index (csi_VolumeAttributes csi) ''nfsNamespace'')
            (map_index (csi_VolumeAttributes csi) ''nfsVolumeClaim'')) (\<lambda>_. Return (Inr () :: status + unit))))) []"
    by (rule guarded_bind [OF search]) (use found in \<open>auto split: sum.split\<close>)
  then show ?thesis unfolding DeleteVolume_def Let_def by simp
qed

lemma guard_serve_call:
  assumes "poll_contract poll" and "by_context V drv c"
  shows "guarded (claim_guard V) (serve_call poll drv c) []"
proof (cases c)
  case (Publish req)
  show ?thesis
  proof (cases "publish_parse drv req")
    case (Inl e)
    then show ?thesis by (simp add: Publish NodePublishVolume_def report_def)
  next
    case (Inr p)
    with assms(2) Publish have "pub_VolumeId req \<in> V \<longrightarrow> pp_dataPVCName p = pub_VolumeId req" by simp
    with publish_parse_fields [OF Inr] show ?thesis
      unfolding Publish serve_call.simps
      by (intro guarded_report guarded_mono [OF permits_NodePublishVolume [OF assms(1) Inr]])
        (auto intro: publish_permits_claim_guard)
  qed
next
  case (Unpublish req)
  then show ?thesis
    using guarded_mono [OF permits_NodeUnpublishVolume [OF assms(1)] unpublish_permits_claim_guard]
    by (simp add: guarded_report)
qed (simp_all add: guarded_report guard_create guard_delete)

section \<open>The invariant\<close>

text \<open>
  What a call of any goroutine showed stays true: a claim that was read, or created, in a named
  namespace is still there, and every listing showed volumes that spare the claims.
\<close>

fun sound_read :: "world \<Rightarrow> event \<Rightarrow> bool" where
  "sound_read w (EPvc (GetPVC ns n) (obj, err)) = (err = None \<longrightarrow> ns \<noteq> [] \<longrightarrow> (ns, n) \<in> w_claims w)"
| "sound_read w (EPvc (CreatePVC ns d) (obj, err)) =
     (err = None \<longrightarrow> ns \<noteq> [] \<longrightarrow> (ns, meta_Name (pvc_meta d)) \<in> w_claims w)"
| "sound_read w (EListPVs (Some items, err)) = (err = None \<longrightarrow> list_all spares_claims items)"
| "sound_read w e = True"

lemma sound_read_keeps: "sound_read w e \<Longrightarrow> keeps_claims w v \<Longrightarrow> sound_read v e"
  by (cases "(w, e)" rule: sound_read.cases) (auto simp: keeps_claims_def)

definition safe_after :: "string set \<Rightarrow> event list \<Rightarrow> world \<Rightarrow> bool" where
  "safe_after V h w \<longleftrightarrow> world_inv V w \<and> (\<forall>e \<in> set h. sound_read w e)"

lemma safe_after_step:
  "safe_after V h w \<Longrightarrow> world_inv V v \<Longrightarrow> keeps_claims w v \<Longrightarrow> sound_read v e \<Longrightarrow> safe_after V (h @ [e]) v"
  by (auto simp: safe_after_def intro: sound_read_keeps)

lemma safe_outside:
  assumes "safe_after V h w" and "outside w u"
  shows "safe_after V h u \<and> keeps_claims w u"
proof -
  from assms(1) have "world_inv V w" by (simp add: safe_after_def)
  with assms(2) have keeps: "keeps_claims w u" and "world_inv V u"
    by (simp_all add: outside_def keeps_claims_def world_inv_def) blast+
  with assms(1) show ?thesis by (auto simp: safe_after_def intro: sound_read_keeps)
qed

lemma guard_created:
  assumes "safe_after V h w" and "claim_guard V h' (ESts (CreateSTS ns d) r)" and "set h' \<subseteq> set h"
    and "meta_Name (sts_meta d) \<in> V"
  shows "ns \<noteq> [] \<and> (ns, meta_Name (sts_meta d)) \<in> w_claims w"
  using assms by (fastforce simp: safe_after_def)

lemma guard_deleted:
  assumes "safe_after V h w" and "claim_guard V h' (EAct (DeletePVC ns n) r)" and "set h' \<subseteq> set h"
  shows "ns = []"
proof -
  from assms(2,3) obtain items pv csi where "EListPVs (Some items, None) \<in> set h" and pv: "pv \<in> set items"
    "pv_CSI pv = Some csi" "ns = map_index (csi_VolumeAttributes csi) ''nfsNamespace''" by auto
  from this(1) assms(1) have "sound_read w (EListPVs (Some items, None))" unfolding safe_after_def by blast
  with pv(1) have "spares_claims pv" by (simp add: list_all_iff)
  with pv(2,3) show ?thesis by (simp add: spares_claims_def)
qed

lemma inv_effect:
  assumes "safe_after V h w" and "effect e w v" and "claim_guard V h' e" and "set h' \<subseteq> set h"
  shows "world_inv V v \<and> keeps_claims w v \<and> sound_read v e"
proof -
  from assms(1) have inv: "world_inv V w" by (simp add: safe_after_def)
  show ?thesis
    using assms(2)
  proof (cases "(e, w, v)" rule: effect.cases)
    case (4 ns d obj err)
    from guard_created [OF assms(1) _ assms(4)] assms(3) 4
    have "meta_Name (sts_meta d) \<in> V \<longrightarrow> ns \<noteq> [] \<and> (ns, meta_Name (sts_meta d)) \<in> w_claims w" by blast
    with inv 4 assms(2) show ?thesis by (auto simp: after_write_def world_inv_def keeps_claims_def)
  next
    case (11 ns n err)
    with guard_deleted [OF assms(1) _ assms(4)] assms(3) have "ns = []" by blast
    with inv 11 assms(2) show ?thesis by (fastforce simp: after_write_def world_inv_def keeps_claims_def)
  next
    case (7 obj err)
    with inv assms(2) show ?thesis by (cases obj) (auto simp: world_inv_def keeps_claims_def)
  qed (use inv in \<open>auto simp: after_write_def world_inv_def keeps_claims_def\<close>)
qed

lemma safe_effect:
  assumes "safe_after V h w" and "effect e w v" and "claim_guard V h' e" and "set h' \<subseteq> set h"
  shows "safe_after V (h @ [e]) v \<and> keeps_claims w v"
  using inv_effect [OF assms] safe_after_step [OF assms(1)] by blast

lemma interleaving_safe:
  assumes "poll_contract poll" and "\<And>i. by_context V drv (c i)"
    and "interleaving (\<lambda>i. serve_call poll drv (c i)) ls" and "concurrently (map snd ls) w0 w" and "safe_after V [] w0"
  shows "safe_after V (map snd ls) w \<and> keeps_claims w0 w"
  using assms(3,4)
proof (induction ls arbitrary: w rule: rev_induct)
  case Nil
  with assms(5) show ?case by (simp add: keeps_claims_def)
next
  case (snoc x ls)
  obtain i e where x: "x = (i, e)" by (cases x)
  from snoc.prems(2) obtain u v where u: "concurrently (map snd ls) w0 u" and v: "v = u \<or> outside u v" and w: "effect e v w"
    by (auto simp: concurrently_append x)
  from snoc.IH [OF interleaving_prefix [OF snoc.prems(1)] u]
  have "safe_after V (map snd ls) u" and keeps: "keeps_claims w0 u" by simp_all
  with v safe_outside have safe: "safe_after V (map snd ls) v" and "keeps_claims u v"
    by (auto simp: keeps_claims_def)
  from snoc.prems(1) obtain rest out where "exec (serve_call poll drv (c i)) (calls_of i ls @ e # rest) out"
    unfolding interleaving_def x by (metis (no_types, lifting) append.assoc append_Cons append_Nil calls_of.simps calls_of_append)
  from guardedD [OF guard_serve_call [OF assms(1,2)] this] have "claim_guard V (calls_of i ls) e" .
  with safe_effect [OF safe w this] calls_of_subset [of i ls] keeps \<open>keeps_claims u v\<close>
  show ?case by (auto simp: x intro: keeps_claims_trans)
qed

text \<open>
  However many RPCs run at once, in every interleaving of their calls, finished or not, and
  with what others change in between, every NFS backend of a volume in \<open>V\<close> has its data claim and
  no claim in a named namespace is taken away.
\<close>

theorem concurrent_calls_keep_claims:
  assumes "poll_contract poll" and "\<And>i. by_context V drv (c i)"
    and "interleaving (\<lambda>i. serve_call poll drv (c i)) ls" and "concurrently (map snd ls) w0 w" and "world_inv V w0"
  shows "{k \<in> w_backends w. snd k \<in> V} \<subseteq> w_claims w \<and> {k \<in> w_claims w0. fst k \<noteq> []} \<subseteq> w_claims w"
proof -
  from assms(5) have "safe_after V [] w0" by (simp add: safe_after_def)
  from interleaving_safe [OF assms(1-4) this] show ?thesis
    by (auto simp: safe_after_def world_inv_def keeps_claims_def)
qed

section \<open>Two calls at once\<close>

definition class_listing :: "create_params \<Rightarrow> event list" where
  "class_listing p = (if cp_dataSC p = [] then [EListSCs (Some [], None)] else [])"

abbreviation claim_of :: "create_request \<Rightarrow> create_params \<Rightarrow> pvc" where
  "claim_of req p \<equiv> dataPVCDef (volume_id (req_Name req)) (cp_dataSC p) (req_RequiredBytes req)"

definition create_calls :: "create_request \<Rightarrow> create_params \<Rightarrow> pvc reply \<Rightarrow> event list" where
  "create_calls req p reply = class_listing p @
     [EPvc (GetPVC (cp_nfsPVCNamespace p) (volume_id (req_Name req))) (Some zero_pvc, Some absent),
      EPvc (CreatePVC (cp_nfsPVCNamespace p) (claim_of req p)) reply]"

lemma exec_create_calls:
  assumes "create_parse req = Inr p"
  shows "exec (CreateVolume req) (create_calls req p (Some (claim_of req p), None)) (Done (Inr (create_answer (req_Name req) p)))"
    and "exec (CreateVolume req) (create_calls req p (obj, Some e)) (Done (Inl (Status Canceled (Text (err_text e)))))"
  unfolding CreateVolume_def assms sum.case create_volume_def choose_storage_class_def ensure_data_pvc_def
    create_calls_def class_listing_def create_answer_def attempt_def Let_def
  by (simp_all add: prog_simps)

text \<open>
  Two equal \<^verbatim>\<open>CreateVolume\<close> calls that run at once for a claim that does not exist can both see
  it missing; the one whose creation is refused because the other's came first is answered with
  Canceled, although the claim it asked for is there.
\<close>

theorem concurrent_create_canceled:
  assumes "create_parse req = Inr p"
  shows "\<exists>ls w'. interleaving (\<lambda>i. if i < 2 then CreateVolume req else Return (Inl unimplemented)) ls \<and>
    concurrently (map snd ls) w w' \<and>
    exec (CreateVolume req) (calls_of 0 ls) (Done (Inr (create_answer (req_Name req) p))) \<and>
    (\<exists>m. exec (CreateVolume req) (calls_of 1 ls) (Done (Inl (Status Canceled m)))) \<and>
    w' = add_claim (cp_nfsPVCNamespace p, volume_id (req_Name req)) w"
proof -
  let ?get = "EPvc (GetPVC (cp_nfsPVCNamespace p) (volume_id (req_Name req))) (Some zero_pvc, Some absent)"
  let ?create = "\<lambda>reply. EPvc (CreatePVC (cp_nfsPVCNamespace p) (claim_of req p)) reply"
  let ?ok = "(Some (claim_of req p), None) :: pvc reply"
  let ?exists = "(Some zero_pvc, Some (errorf ''already exists'')) :: pvc reply"
  let ?key = "(cp_nfsPVCNamespace p, volume_id (req_Name req))"
  let ?list = "\<lambda>i. map (Pair i) (class_listing p)"
  define ls :: "(nat \<times> event) list" where "ls = ?list 0 @ ?list 1 @ [(0, ?get), (1, ?get), (0, ?create ?ok), (1, ?create ?exists)]"
  have calls: "calls_of 0 ls = create_calls req p ?ok" "calls_of 1 ls = create_calls req p ?exists"
    by (simp_all add: ls_def create_calls_def class_listing_def)
  have none: "calls_of i ls = []" if "\<not> i < 2" for i
    using that by (auto simp: ls_def class_listing_def)
  have ok: "exec (CreateVolume req) (calls_of 0 ls) (Done (Inr (create_answer (req_Name req) p)))"
    unfolding calls by (rule exec_create_calls(1) [OF assms])
  have refused: "exec (CreateVolume req) (calls_of 1 ls) (Done (Inl (Status Canceled (Text ''already exists''))))"
    unfolding calls using exec_create_calls(2) [OF assms, of _ "errorf ''already exists''"] by simp
  have "\<exists>rest out. exec (if i < 2 then CreateVolume req else Return (Inl unimplemented)) (calls_of i ls @ rest) out" for i
  proof (cases "i < 2")
    case True
    then consider "i = 0" | "i = 1" by linarith
    then show ?thesis by cases (use whole_run [OF ok] whole_run [OF refused] in simp_all)
  qed (use none [of i] in \<open>auto simp: prog_simps\<close>)
  then have "interleaving (\<lambda>i. if i < 2 then CreateVolume req else Return (Inl unimplemented)) ls"
    by (simp add: interleaving_def)
  moreover have "evolves (map snd ls) w (add_claim ?key w)"
    by (simp add: ls_def class_listing_def after_write_def dataPVCDef_def)
  then have "concurrently (map snd ls) w (add_claim ?key w)" by (rule evolves_concurrently)
  ultimately show ?thesis using ok refused by blast
qed

theorem concurrent_create_canceled_witness:
  "\<exists>ls m. exec (CreateVolume demo_create) (calls_of 1 ls) (Done (Inl (Status Canceled m)))"
  using concurrent_create_canceled [OF demo_create_parse, of empty_world] by blast

lemma calls_of_map: "calls_of i (map (Pair j) tr) = (if j = i then tr else [])"
  by (induction tr) auto

text \<open>Publishing a volume and deleting it: the claim stays, and the backend has it.\<close>

theorem concurrent_calls_keep_claims_witness:
  "demo_key \<in> w_claims (serve_store (Delete ''nfs-1'') (serve_store (Publish demo_publish)
     ((add_claim demo_key empty_world)\<lparr>w_volumes := [demo_pv]\<rparr>)))"
proof -
  let ?c = "\<lambda>i :: nat. if i = 0 then Publish demo_publish else Delete ''nfs-1''"
  let ?w0 = "(add_claim demo_key empty_world)\<lparr>w_volumes := [demo_pv]\<rparr>"
  let ?run = "\<lambda>c w. run store_env (serve_call poll_once demo_driver c) w"
  let ?w1 = "serve_store (Publish demo_publish) ?w0" and ?w2 = "serve_store (Delete ''nfs-1'') (serve_store (Publish demo_publish) ?w0)"
  define tr0 where "tr0 = fst (snd (?run (Publish demo_publish) ?w0))"
  define tr1 where "tr1 = fst (snd (?run (Delete ''nfs-1'') ?w1))"
  let ?ls = "map (Pair 0) tr0 @ map (Pair 1) tr1"
  have "evolves tr0 ?w0 ?w1" "evolves tr1 ?w1 ?w2"
    unfolding tr0_def tr1_def serve_store_def by (rule run_evolves [OF store_env_truthful])+
  then have conc: "concurrently (map snd ?ls) ?w0 ?w2"
    by (auto simp: concurrently_append comp_def dest: evolves_concurrently)
  have ex: "\<exists>out. exec (serve_call poll_once demo_driver (?c 0)) tr0 out" "\<exists>out. exec (serve_call poll_once demo_driver (?c 1)) tr1 out"
    unfolding tr0_def tr1_def by (simp_all del: serve_call.simps) (rule exI, rule run_exec)+
  have inter: "interleaving (\<lambda>i. serve_call poll_once demo_driver (?c i)) ?ls"
    unfolding interleaving_def
  proof
    fix i
    consider "i = 0" | "i = 1" | "calls_of i ?ls = []" by (cases "i = 0 \<or> i = 1") (auto simp: calls_of_map)
    then show "\<exists>rest out. exec (serve_call poll_once demo_driver (?c i)) (calls_of i ?ls @ rest) out"
    proof cases
      case 1
      with ex(1) show ?thesis by (intro exI [of _ "[]"]) (simp add: calls_of_map)
    next
      case 2
      with ex(2) show ?thesis by (intro exI [of _ "[]"]) (simp add: calls_of_map)
    next
      case 3
      then show ?thesis using exec_exists by auto
    qed
  qed
  have "by_context UNIV demo_driver (Publish demo_publish)" by code_simp
  then have by_ctx: "by_context UNIV demo_driver (?c i)" for i by (simp del: by_context.simps(1))
  have "world_inv UNIV ?w0" by (simp add: world_inv_def empty_world_def world_defs demo_pv_spares)
  from concurrent_calls_keep_claims [OF poll_once_contract by_ctx inter conc this]
  show ?thesis by (auto simp: demo_key_def)
qed

end
