(* ===== verification/Version_Info.thy ===== *)
theory Version_Info
  imports Go_Strings
begin

text \<open>
  \<^verbatim>\<open>pkg/nfsexport/version.go\<close>: the version information of a build and its YAML text.  The build
  variables and the Go runtime's constants are arguments; \<^verbatim>\<open>yaml.Marshal\<close> is the parameter
  \<open>marshal\<close>.
\<close>

record build_info =
  bi_driverVersion :: string
  bi_gitCommit :: string
  bi_buildDate :: string

definition default_build :: build_info where
  "default_build = \<lparr>bi_driverVersion = ''N/A'', bi_gitCommit = ''N/A'', bi_buildDate = ''N/A''\<rparr>"

record go_runtime =
  rt_Version :: string
  rt_Compiler :: string
  rt_GOOS :: string
  rt_GOARCH :: string

record version_info =
  vi_DriverName :: string
  vi_DriverVersion :: string
  vi_GitCommit :: string
  vi_BuildDate :: string
  vi_GoVersion :: string
  vi_Compiler :: string
  vi_Platform :: string

definition GetVersion :: "build_info \<Rightarrow> go_runtime \<Rightarrow> string \<Rightarrow> version_info" where
  "GetVersion build rt driverName =
     \<lparr>vi_DriverName = driverName, vi_DriverVersion = bi_driverVersion build,
      vi_GitCommit = bi_gitCommit build, vi_BuildDate = bi_buildDate build,
      vi_GoVersion = rt_Version rt, vi_Compiler = rt_Compiler rt,
      vi_Platform = rt_GOOS rt @ ''/'' @ rt_GOARCH rt\<rparr>"

definition GetVersionYAML ::
  "(version_info \<Rightarrow> go_error + string) \<Rightarrow> build_info \<Rightarrow> go_runtime \<Rightarrow> string \<Rightarrow> go_error + string" where
  "GetVersionYAML marshal build rt driverName =
     (let info = GetVersion build rt driverName
      in case marshal info of
           Inl err \<Rightarrow> Inl err
         | Inr marshalled \<Rightarrow> Inr (trim_space marshalled))"

lemma trim_space_ends:
  "trim_space s = [] \<or> (\<not> is_space (hd (trim_space s)) \<and> \<not> is_space (last (trim_space s)))"
proof (cases "trim_space s = []")
  case True
  then show ?thesis by simp
next
  case False
  let ?t = "dropWhile is_space s"
  let ?u = "dropWhile is_space (rev ?t)"
  from False have u: "?u \<noteq> []" by (simp add: trim_space_def)
  then have last: "\<not> is_space (last (rev ?u))" by (simp add: last_rev hd_dropWhile)
  obtain w where "rev ?t = w @ ?u" by (metis takeWhile_dropWhile_id)
  then have t: "?t = rev ?u @ rev w" by (metis rev_append rev_rev_ident)
  with u have "hd (rev ?u) = hd ?t" by (metis hd_append rev_is_Nil_conv)
  moreover from t u have "?t \<noteq> []" by (metis append_is_Nil_conv rev_is_Nil_conv)
  ultimately have "\<not> is_space (hd (rev ?u))" by (simp add: hd_dropWhile)
  with last show ?thesis by (simp add: trim_space_def)
qed

text \<open>
  The YAML text of the version information fails exactly when marshalling fails, and otherwise
  has no space at either end; the information names the driver asked for.
\<close>

theorem version_yaml:
  "(\<forall>e. GetVersionYAML marshal build rt name = Inl e \<longleftrightarrow> marshal (GetVersion build rt name) = Inl e) \<and>
   vi_DriverName (GetVersion build rt name) = name \<and>
   {s. GetVersionYAML marshal build rt name = Inr s} \<subseteq>
     {s. s = [] \<or> (\<not> is_space (hd s) \<and> \<not> is_space (last s))}"
proof -
  have "\<forall>e. GetVersionYAML marshal build rt name = Inl e \<longleftrightarrow> marshal (GetVersion build rt name) = Inl e"
    by (simp add: GetVersionYAML_def Let_def split: sum.split)
  moreover have "{s. GetVersionYAML marshal build rt name = Inr s} \<subseteq>
     {s. s = [] \<or> (\<not> is_space (hd s) \<and> \<not> is_space (last s))}"
    using trim_space_ends by (auto simp: GetVersionYAML_def Let_def split: sum.splits)
  ultimately show ?thesis by (simp add: GetVersion_def)
qed

end
