(* ===== verification/Grpc_Server.thy ===== *)
theory Grpc_Server
  imports Utils Version_Info
begin

text \<open>
  \<^verbatim>\<open>pkg/nfsexport/server.go\<close> and \<^verbatim>\<open>Driver.Run\<close>: the non-blocking gRPC server, as the interleaving of
  the goroutine of \<^verbatim>\<open>Run\<close> (\<^verbatim>\<open>Start\<close>, then \<^verbatim>\<open>Wait\<close>), the goroutine of \<^verbatim>\<open>serve\<close> and, in test mode, the
  goroutine that stops the server.  They share the wait group and the server pointer.  The
  operating system and the gRPC library decide nondeterministically whether a call fails;
  \<^verbatim>\<open>klog.Fatal\<close> ends the process.
\<close>

section \<open>State\<close>

datatype main_pc = Starting | Waiting | Returned

datatype serve_pc =
    NotStarted | Parsing | RemovingSocket string | Listening string string | Registering
  | SignallingDone | Serving | Finished

datatype stopper_pc = NoStopper | AwaitingDone | Sleeping | Stopped

datatype csi_service = IdentityService | ControllerService | NodeService

text \<open>The arguments of \<^verbatim>\<open>Start\<close>: which services are non-nil matters, not what they do.\<close>

record serve_args =
  sa_endpoint :: string
  sa_ids :: bool
  sa_cs :: bool
  sa_ns :: bool
  sa_testMode :: bool

record grpc_state =
  gs_wg :: int
  gs_server :: "csi_service list option"
  gs_listener :: "(string \<times> string) option"
  gs_main :: main_pc
  gs_serve :: serve_pc
  gs_stopper :: stopper_pc
  gs_fatal :: bool

definition NewNonBlockingGRPCServer :: grpc_state where
  "NewNonBlockingGRPCServer =
     \<lparr>gs_wg = 0, gs_server = None, gs_listener = None, gs_main = Starting, gs_serve = NotStarted,
      gs_stopper = NoStopper, gs_fatal = False\<rparr>"

section \<open>Steps\<close>

definition Start :: "grpc_state \<Rightarrow> grpc_state" where
  "Start s = s\<lparr>gs_wg := gs_wg s + 1, gs_serve := Parsing, gs_main := Waiting\<rparr>"

text \<open>What \<^verbatim>\<open>serve\<close> does next for a parsed endpoint: a unix socket is removed first.\<close>

definition serve_endpoint :: "string \<times> string \<Rightarrow> serve_pc" where
  "serve_endpoint pa =
     (case pa of (proto, addr) \<Rightarrow>
        if proto = ''unix'' then RemovingSocket (''/'' @ addr) else Listening proto addr)"

definition registered_services :: "serve_args \<Rightarrow> csi_service list" where
  "registered_services a =
     (if sa_ids a then [IdentityService] else []) @ (if sa_cs a then [ControllerService] else []) @
     (if sa_ns a then [NodeService] else [])"

definition may_go_on :: "go_error option \<Rightarrow> bool" where
  "may_go_on err = (case err of None \<Rightarrow> True | Some e \<Rightarrow> IsNotExist e)"

inductive grpc_step :: "serve_args \<Rightarrow> grpc_state \<Rightarrow> grpc_state \<Rightarrow> bool" for a where
  main_start: "\<not> gs_fatal s \<Longrightarrow> gs_main s = Starting \<Longrightarrow> grpc_step a s (Start s)"
| main_wait: "\<not> gs_fatal s \<Longrightarrow> gs_main s = Waiting \<Longrightarrow> gs_wg s = 0 \<Longrightarrow> grpc_step a s (s\<lparr>gs_main := Returned\<rparr>)"
| serve_parsed: "\<not> gs_fatal s \<Longrightarrow> gs_serve s = Parsing \<Longrightarrow> ParseEndpoint (sa_endpoint a) = Inr pa \<Longrightarrow>
     grpc_step a s (s\<lparr>gs_serve := serve_endpoint pa\<rparr>)"
| serve_bad_endpoint: "\<not> gs_fatal s \<Longrightarrow> gs_serve s = Parsing \<Longrightarrow> ParseEndpoint (sa_endpoint a) = Inl e \<Longrightarrow>
     grpc_step a s (s\<lparr>gs_fatal := True\<rparr>)"
| serve_removed: "\<not> gs_fatal s \<Longrightarrow> gs_serve s = RemovingSocket addr \<Longrightarrow> may_go_on err \<Longrightarrow>
     grpc_step a s (s\<lparr>gs_serve := Listening ''unix'' addr\<rparr>)"
| serve_not_removed: "\<not> gs_fatal s \<Longrightarrow> gs_serve s = RemovingSocket addr \<Longrightarrow> \<not> may_go_on err \<Longrightarrow>
     grpc_step a s (s\<lparr>gs_fatal := True\<rparr>)"
| serve_listens: "\<not> gs_fatal s \<Longrightarrow> gs_serve s = Listening proto addr \<Longrightarrow>
     grpc_step a s (s\<lparr>gs_listener := Some (proto, addr), gs_serve := Registering\<rparr>)"
| serve_cannot_listen: "\<not> gs_fatal s \<Longrightarrow> gs_serve s = Listening proto addr \<Longrightarrow> grpc_step a s (s\<lparr>gs_fatal := True\<rparr>)"
| serve_registers: "\<not> gs_fatal s \<Longrightarrow> gs_serve s = Registering \<Longrightarrow>
     grpc_step a s (s\<lparr>gs_server := Some (registered_services a),
       gs_serve := (if sa_testMode a then SignallingDone else Serving)\<rparr>)"
| serve_signals: "\<not> gs_fatal s \<Longrightarrow> gs_serve s = SignallingDone \<Longrightarrow>
     grpc_step a s (s\<lparr>gs_wg := gs_wg s - 1, gs_stopper := AwaitingDone, gs_serve := Serving\<rparr>)"
| serve_returns: "\<not> gs_fatal s \<Longrightarrow> gs_serve s = Serving \<Longrightarrow> grpc_step a s (s\<lparr>gs_serve := Finished\<rparr>)"
| serve_fails: "\<not> gs_fatal s \<Longrightarrow> gs_serve s = Serving \<Longrightarrow> grpc_step a s (s\<lparr>gs_fatal := True\<rparr>)"
| stopper_awake: "\<not> gs_fatal s \<Longrightarrow> gs_stopper s = AwaitingDone \<Longrightarrow> gs_wg s = 0 \<Longrightarrow>
     grpc_step a s (s\<lparr>gs_stopper := Sleeping\<rparr>)"
| stopper_stops: "\<not> gs_fatal s \<Longrightarrow> gs_stopper s = Sleeping \<Longrightarrow> grpc_step a s (s\<lparr>gs_stopper := Stopped\<rparr>)"

inductive grpc_reachable :: "serve_args \<Rightarrow> grpc_state \<Rightarrow> bool" for a where
  grpc_init: "grpc_reachable a NewNonBlockingGRPCServer"
| grpc_next: "grpc_reachable a s \<Longrightarrow> grpc_step a s t \<Longrightarrow> grpc_reachable a t"

text \<open>
  \<^verbatim>\<open>Wait\<close> returns when the counter is 0; \<^verbatim>\<open>Stop\<close> and \<^verbatim>\<open>ForceStop\<close> call the library's server through
  the pointer, which is nil (\<^term>\<open>None\<close>: no server to call, a panic) until \<^verbatim>\<open>serve\<close> has set it.
\<close>

definition Wait_returns :: "grpc_state \<Rightarrow> bool" where
  "Wait_returns s = (gs_wg s = 0)"

datatype server_call = CallGracefulStop "csi_service list" | CallStop "csi_service list"

definition Stop :: "grpc_state \<Rightarrow> server_call option" where
  "Stop s = (case gs_server s of None \<Rightarrow> None | Some server \<Rightarrow> Some (CallGracefulStop server))"

definition ForceStop :: "grpc_state \<Rightarrow> server_call option" where
  "ForceStop s = (case gs_server s of None \<Rightarrow> None | Some server \<Rightarrow> Some (CallStop server))"

text \<open>\<^verbatim>\<open>Driver.Run\<close>: the arguments it starts the server with, or the fatal error before.\<close>

definition Run :: "(go_error + string) \<Rightarrow> driver \<Rightarrow> bool \<Rightarrow> go_error + serve_args" where
  "Run versionMeta n testMode =
     (case versionMeta of
        Inl err \<Rightarrow> Inl err
      | Inr _ \<Rightarrow> Inr \<lparr>sa_endpoint = drv_endpoint n, sa_ids = True, sa_cs = True, sa_ns = True,
                     sa_testMode = testMode\<rparr>)"

section \<open>The invariant\<close>

definition listen_address :: "string \<Rightarrow> (string \<times> string) option" where
  "listen_address endpoint =
     (case ParseEndpoint endpoint of
        Inl _ \<Rightarrow> None
      | Inr (proto, addr) \<Rightarrow> Some (proto, if proto = ''unix'' then ''/'' @ addr else addr))"

fun serve_ok :: "serve_args \<Rightarrow> grpc_state \<Rightarrow> serve_pc \<Rightarrow> bool" where
  "serve_ok a s (RemovingSocket addr) = (listen_address (sa_endpoint a) = Some (''unix'', addr) \<and> gs_server s = None)"
| "serve_ok a s (Listening proto addr) = (listen_address (sa_endpoint a) = Some (proto, addr) \<and> gs_server s = None)"
| "serve_ok a s Registering = (gs_listener s \<noteq> None \<and> gs_server s = None)"
| "serve_ok a s SignallingDone =
     (gs_listener s \<noteq> None \<and> gs_server s = Some (registered_services a) \<and> sa_testMode a \<and> gs_stopper s = NoStopper)"
| "serve_ok a s Serving =
     (gs_listener s \<noteq> None \<and> gs_server s = Some (registered_services a) \<and>
      (sa_testMode a \<longrightarrow> gs_stopper s \<noteq> NoStopper))"
| "serve_ok a s Finished =
     (gs_listener s \<noteq> None \<and> gs_server s = Some (registered_services a) \<and>
      (sa_testMode a \<longrightarrow> gs_stopper s \<noteq> NoStopper))"
| "serve_ok a s _ = (gs_server s = None)"

definition grpc_inv :: "serve_args \<Rightarrow> grpc_state \<Rightarrow> bool" where
  "grpc_inv a s \<longleftrightarrow>
     (gs_main s = Starting \<longleftrightarrow> gs_serve s = NotStarted) \<and>
     gs_wg s = (if gs_main s = Starting \<or> gs_stopper s \<noteq> NoStopper then 0 else 1) \<and>
     (gs_stopper s \<noteq> NoStopper \<longrightarrow>
        sa_testMode a \<and> gs_server s = Some (registered_services a) \<and> gs_serve s \<in> {Serving, Finished}) \<and>
     (gs_main s = Returned \<longrightarrow> gs_stopper s \<noteq> NoStopper) \<and>
     (gs_listener s \<noteq> None \<longrightarrow> gs_listener s = listen_address (sa_endpoint a)) \<and>
     serve_ok a s (gs_serve s)"

lemma serve_endpoint_ok:
  "ParseEndpoint (sa_endpoint a) = Inr pa \<Longrightarrow> gs_server s = None \<Longrightarrow> serve_ok a s (serve_endpoint pa)"
  by (auto simp: serve_endpoint_def listen_address_def split: prod.split)

lemma serve_endpoint_started: "serve_endpoint pa \<notin> {NotStarted, Serving, Finished}"
  by (auto simp: serve_endpoint_def split: prod.split)

lemma serve_ok_update [simp]:
  "serve_ok a (s\<lparr>gs_main := m\<rparr>) pc = serve_ok a s pc"
  "serve_ok a (s\<lparr>gs_fatal := f\<rparr>) pc = serve_ok a s pc"
  "serve_ok a (s\<lparr>gs_serve := q\<rparr>) pc = serve_ok a s pc"
  "serve_ok a (s\<lparr>gs_wg := w\<rparr>) pc = serve_ok a s pc"
  by (cases pc; simp)+

lemma grpc_inv_step: "grpc_step a s t \<Longrightarrow> grpc_inv a s \<Longrightarrow> grpc_inv a t"
proof (induction rule: grpc_step.induct)
  case (serve_parsed s pa)
  then show ?case using serve_endpoint_started [of pa] serve_endpoint_ok [of a pa s]
    by (auto simp: grpc_inv_def)
qed (auto simp: grpc_inv_def Start_def split: if_splits)

lemma grpc_inv_reachable: "grpc_reachable a s \<Longrightarrow> grpc_inv a s"
proof (induction rule: grpc_reachable.induct)
  case grpc_init
  then show ?case by (simp add: grpc_inv_def NewNonBlockingGRPCServer_def)
next
  case (grpc_next s t)
  then show ?case by (blast intro: grpc_inv_step)
qed

section \<open>Ways to the end in test mode\<close>













section \<open>A server in test mode\<close>

definition demo_args :: serve_args where
  "demo_args = \<lparr>sa_endpoint = ''unix://tmp/csi.sock'', sa_ids = True, sa_cs = True, sa_ns = True, sa_testMode = True\<rparr>"

definition demo_listening :: grpc_state where
  "demo_listening = (Start NewNonBlockingGRPCServer)\<lparr>gs_listener := Some (''unix'', ''/tmp/csi.sock''),
     gs_serve := Registering\<rparr>"

lemma demo_parse_endpoint: "ParseEndpoint (sa_endpoint demo_args) = Inr (''unix'', ''tmp/csi.sock'')"
  by code_simp

lemma demo_listening_reachable: "grpc_reachable demo_args demo_listening"
proof -
  let ?s1 = "Start NewNonBlockingGRPCServer"
  let ?s2 = "?s1\<lparr>gs_serve := RemovingSocket ''/tmp/csi.sock''\<rparr>"
  let ?s3 = "?s2\<lparr>gs_serve := Listening ''unix'' ''/tmp/csi.sock''\<rparr>"
  have 1: "grpc_reachable demo_args ?s1"
    by (rule grpc_next [OF grpc_init main_start]) (simp_all add: NewNonBlockingGRPCServer_def)
  have "grpc_step demo_args ?s1 (?s1\<lparr>gs_serve := serve_endpoint (''unix'', ''tmp/csi.sock'')\<rparr>)"
    by (rule serve_parsed [OF _ _ demo_parse_endpoint]) (simp_all add: Start_def NewNonBlockingGRPCServer_def)
  with 1 have 2: "grpc_reachable demo_args ?s2"
    by (simp add: serve_endpoint_def grpc_next)
  have 3: "grpc_reachable demo_args ?s3"
    by (rule grpc_next [OF 2 serve_removed [of _ _ None]])
      (simp_all add: Start_def NewNonBlockingGRPCServer_def may_go_on_def)
  have "grpc_reachable demo_args (?s3\<lparr>gs_listener := Some (''unix'', ''/tmp/csi.sock''), gs_serve := Registering\<rparr>)"
    by (rule grpc_next [OF 3 serve_listens]) (simp_all add: Start_def NewNonBlockingGRPCServer_def)
  then show ?thesis by (simp add: demo_listening_def)
qed

text \<open>The demonstration server, signalled and serving.\<close>

definition demo_serving :: grpc_state where
  "demo_serving = demo_listening\<lparr>gs_server := Some (registered_services demo_args), gs_wg := 0,
     gs_stopper := AwaitingDone, gs_serve := Serving\<rparr>"

lemma demo_serving_reachable: "grpc_reachable demo_args demo_serving"
proof -
  let ?s1 = "demo_listening\<lparr>gs_server := Some (registered_services demo_args), gs_serve := SignallingDone\<rparr>"
  have fields: "\<not> gs_fatal demo_listening" "gs_serve demo_listening = Registering" "gs_wg demo_listening = 1"
    by (simp_all add: demo_listening_def Start_def NewNonBlockingGRPCServer_def)
  with serve_registers [of demo_listening demo_args] have "grpc_step demo_args demo_listening ?s1"
    by (simp add: demo_args_def)
  with demo_listening_reachable have 1: "grpc_reachable demo_args ?s1" by (rule grpc_next)
  have "grpc_step demo_args ?s1 (?s1\<lparr>gs_wg := gs_wg ?s1 - 1, gs_stopper := AwaitingDone, gs_serve := Serving\<rparr>)"
    by (rule serve_signals) (simp_all add: fields)
  from grpc_next [OF 1 this] show ?thesis by (simp add: demo_serving_def fields)
qed

section \<open>Properties\<close>

text \<open>
  Outside test mode \<^verbatim>\<open>Run\<close> never returns: in every reachable state of the goroutines \<^verbatim>\<open>Wait\<close>
  is still blocked, even after \<^verbatim>\<open>server.Serve\<close> has returned (nothing calls \<^verbatim>\<open>wg.Done\<close>).
\<close>

theorem run_blocks_in_production:
  assumes "grpc_reachable a s" and "\<not> sa_testMode a" and "gs_main s \<noteq> Starting"
  shows "gs_main s = Waiting \<and> \<not> Wait_returns s"
  using grpc_inv_reachable [OF assms(1)] assms(2,3)
  by (cases "gs_main s") (auto simp: grpc_inv_def Wait_returns_def)

theorem run_blocks_in_production_witness:
  "\<not> Wait_returns (Start NewNonBlockingGRPCServer)"
proof -
  let ?a = "\<lparr>sa_endpoint = ''unix://tmp/csi.sock'', sa_ids = True, sa_cs = True, sa_ns = True, sa_testMode = False\<rparr>"
  have "grpc_reachable ?a (Start NewNonBlockingGRPCServer)"
    by (rule grpc_next [OF grpc_init main_start]) (simp_all add: NewNonBlockingGRPCServer_def)
  from run_blocks_in_production [OF this] show ?thesis by (simp add: Start_def)
qed

text \<open>
  C37: in every reachable state the wait group's counter is 0 or 1 (it never goes negative, which
  would panic), the goroutine that stops the server runs in test mode only and always finds a
  server to stop, and a server that serves has exactly the non-nil services registered.
\<close>

theorem grpc_server_safe:
  assumes "grpc_reachable a s"
  shows "gs_wg s \<in> {0, 1} \<and>
    (gs_stopper s = NoStopper \<or> sa_testMode a \<and> Stop s = Some (CallGracefulStop (registered_services a))) \<and>
    (gs_serve s \<notin> {Serving, Finished} \<or> gs_server s = Some (registered_services a))"
proof -
  from grpc_inv_reachable [OF assms] have wg: "gs_wg s = (if gs_main s = Starting \<or> gs_stopper s \<noteq> NoStopper then 0 else 1)"
    and stop: "gs_stopper s \<noteq> NoStopper \<Longrightarrow> sa_testMode a \<and> gs_server s = Some (registered_services a)"
    and serve: "serve_ok a s (gs_serve s)"
    by (simp_all add: grpc_inv_def)
  from serve have "gs_serve s \<notin> {Serving, Finished} \<or> gs_server s = Some (registered_services a)"
    by (cases "gs_serve s") simp_all
  with wg stop show ?thesis by (cases "gs_stopper s = NoStopper") (simp_all add: Stop_def)
qed

theorem grpc_server_safe_witness:
  "gs_stopper demo_serving = AwaitingDone \<and> gs_wg demo_serving \<in> {0, 1} \<and>
   Stop demo_serving = Some (CallGracefulStop [IdentityService, ControllerService, NodeService])"
proof -
  have "gs_stopper demo_serving = AwaitingDone" by (simp add: demo_serving_def)
  moreover have "registered_services demo_args = [IdentityService, ControllerService, NodeService]" by code_simp
  ultimately show ?thesis using grpc_server_safe [OF demo_serving_reachable] by simp
qed

lemma listen_address_unix:
  assumes "path \<noteq> []"
  shows "listen_address (''unix://'' @ path) = Some (''unix'', ''/'' @ path)"
proof -
  have "split_n2 (''unix'' @ (CHR '':'' # ''//'') @ path) (CHR '':'' # ''//'') = [''unix'', path]"
    by (rule split_n2_found) simp
  then have "split_n2 (''unix://'' @ path) ''://'' = [''unix'', path]" by simp
  moreover have "has_prefix (to_lower (''unix://'' @ path)) ''unix://''"
    by (simp add: has_prefix_def to_lower_def lower_char_def)
  ultimately show ?thesis using assms by (simp add: listen_address_def ParseEndpoint_def)
qed

text \<open>
  The server only ever listens where its endpoint says, a unix socket at the endpoint's path
  made absolute; for \<^verbatim>\<open>unix://\<close> and a non-empty path that is the path with a slash before it.
\<close>

theorem listens_at_endpoint:
  assumes "grpc_reachable a s" and "gs_listener s = Some pa"
  shows "listen_address (sa_endpoint a) = Some pa \<and>
    (\<forall>path. sa_endpoint a \<noteq> ''unix://'' @ path \<or> path = [] \<or> pa = (''unix'', ''/'' @ path))"
proof -
  from grpc_inv_reachable [OF assms(1)] assms(2) have addr: "listen_address (sa_endpoint a) = Some pa"
    by (auto simp: grpc_inv_def)
  with addr have "sa_endpoint a \<noteq> ''unix://'' @ path \<or> path = [] \<or> pa = (''unix'', ''/'' @ path)" for path
    by (metis option.inject listen_address_unix)
  with addr show ?thesis by blast
qed

theorem listens_at_endpoint_witness:
  "listen_address ''unix://tmp/csi.sock'' = Some (''unix'', ''/tmp/csi.sock'')"
proof -
  have "gs_listener demo_listening = Some (''unix'', ''/tmp/csi.sock'')" by (simp add: demo_listening_def)
  from listens_at_endpoint [OF demo_listening_reachable this] show ?thesis by (simp add: demo_args_def)
qed



end
