(* ===== verification/Node_Info.thy ===== *)
theory Node_Info
  imports Utils
begin

text \<open>
  The rest of \<^verbatim>\<open>pkg/nfsexport/nodeserver.go\<close>: \<^verbatim>\<open>NodeGetVolumeStats\<close>, \<^verbatim>\<open>NodeGetInfo\<close>,
  \<^verbatim>\<open>NodeGetCapabilities\<close> and the calls the node service does not implement.  The file system's
  metrics come from the library's \<^verbatim>\<open>NewMetricsStatFS\<close>, a call the environment answers.
\<close>

record node_server =
  ns_Driver :: driver

definition NewNodeServer :: "driver \<Rightarrow> node_server" where
  "NewNodeServer d = \<lparr>ns_Driver = d\<rparr>"

datatype usage_unit = BYTES | INODES

record volume_usage =
  usage_Unit :: usage_unit
  usage_Available :: "64 word"
  usage_Total :: "64 word"
  usage_Used :: "64 word"

text \<open>\<^verbatim>\<open>x, ok := q.AsInt64()\<close> with its early return.\<close>

definition as_int64 :: "string \<Rightarrow> quantity \<Rightarrow> status + 64 word" where
  "as_int64 template q =
     (case quantity_AsInt64 q of
        (v, ok) \<Rightarrow> if \<not> ok then Inl (Status Internal (Fmt template [quantity_String q])) else Inr v)"

fun sum_bind :: "'e + 'a \<Rightarrow> ('a \<Rightarrow> 'e + 'b) \<Rightarrow> 'e + 'b" where
  "sum_bind (Inl e) f = Inl e"
| "sum_bind (Inr a) f = f a"

definition metrics_usage :: "volume_metrics \<Rightarrow> status + volume_usage list" where
  "metrics_usage m =
     sum_bind (as_int64 ''failed to transform volume available size(%v)'' (vm_Available m)) (\<lambda>available.
     sum_bind (as_int64 ''failed to transform volume capacity size(%v)'' (vm_Capacity m)) (\<lambda>capacity.
     sum_bind (as_int64 ''failed to transform volume used size(%v)'' (vm_Used m)) (\<lambda>used.
     sum_bind (as_int64 ''failed to transform disk inodes free(%v)'' (vm_InodesFree m)) (\<lambda>inodesFree.
     sum_bind (as_int64 ''failed to transform disk inodes(%v)'' (vm_Inodes m)) (\<lambda>inodes.
     sum_bind (as_int64 ''failed to transform disk inodes used(%v)'' (vm_InodesUsed m)) (\<lambda>inodesUsed.
     Inr [\<lparr>usage_Unit = BYTES, usage_Available = available, usage_Total = capacity, usage_Used = used\<rparr>,
          \<lparr>usage_Unit = INODES, usage_Available = inodesFree, usage_Total = inodes, usage_Used = inodesUsed\<rparr>]))))))"

definition NodeGetVolumeStats :: "string \<Rightarrow> string \<Rightarrow> (status + volume_usage list) prog" where
  "NodeGetVolumeStats volumeId volumePath =
     (if volumeId = [] then
        Return (Inl (Status InvalidArgument (Text ''NodeGetVolumeStats volume ID was empty'')))
      else if volumePath = [] then
        Return (Inl (Status InvalidArgument (Text ''NodeGetVolumeStats volume path was empty'')))
      else
        Lstat volumePath (\<lambda>(_, err).
          case err of
            Some e \<Rightarrow>
              if IsNotExist e then Return (Inl (Status NotFound (Fmt ''path %s does not exist'' [volumePath])))
              else Return (Inl (Status Internal (Fmt ''failed to stat file %s: %v'' [volumePath, err_text e])))
          | None \<Rightarrow>
              StatFS volumePath (\<lambda>(volumeMetrics, err).
                case err of
                  Some e \<Rightarrow> Return (Inl (Status Internal (Fmt ''failed to get metrics: %v'' [err_text e])))
                | None \<Rightarrow> deref volumeMetrics (\<lambda>m. Return (metrics_usage m)))))"

definition NodeGetInfo :: "node_server \<Rightarrow> string" where
  "NodeGetInfo ns = drv_nodeID (ns_Driver ns)"

definition NodeGetCapabilities :: "node_server \<Rightarrow> node_capability list" where
  "NodeGetCapabilities ns = drv_nscap (ns_Driver ns)"

datatype node_stub = NodeStageVolume | NodeUnstageVolume | NodeExpandVolume

definition node_unimplemented :: "node_stub \<Rightarrow> status" where
  "node_unimplemented rpc = Status Unimplemented (Text [])"

section \<open>Lemmas\<close>

definition all_int64 :: "volume_metrics \<Rightarrow> bool" where
  "all_int64 m \<longleftrightarrow>
     list_all (\<lambda>q. snd (quantity_AsInt64 q))
       [vm_Available m, vm_Capacity m, vm_Used m, vm_InodesFree m, vm_Inodes m, vm_InodesUsed m]"

lemma as_int64_Inr: "as_int64 t q = Inr v \<longleftrightarrow> quantity_AsInt64 q = (v, True)"
  by (auto simp: as_int64_def split: prod.splits if_splits)

lemma as_int64_Inl: "as_int64 t q = Inl s \<longleftrightarrow>
    \<not> snd (quantity_AsInt64 q) \<and> s = Status Internal (Fmt t [quantity_String q])"
  by (auto simp: as_int64_def split: prod.splits if_splits)

lemma sum_bind_Inr: "sum_bind r f = Inr b \<longleftrightarrow> (\<exists>a. r = Inr a \<and> f a = Inr b)"
  by (cases r) auto

lemma sum_bind_Inl: "sum_bind r f = Inl e \<longleftrightarrow> r = Inl e \<or> (\<exists>a. r = Inr a \<and> f a = Inl e)"
  by (cases r) auto

lemma metrics_usage_Inr:
  "metrics_usage m = Inr u \<longleftrightarrow> all_int64 m \<and>
     u = [\<lparr>usage_Unit = BYTES, usage_Available = fst (quantity_AsInt64 (vm_Available m)),
           usage_Total = fst (quantity_AsInt64 (vm_Capacity m)), usage_Used = fst (quantity_AsInt64 (vm_Used m))\<rparr>,
          \<lparr>usage_Unit = INODES, usage_Available = fst (quantity_AsInt64 (vm_InodesFree m)),
           usage_Total = fst (quantity_AsInt64 (vm_Inodes m)), usage_Used = fst (quantity_AsInt64 (vm_InodesUsed m))\<rparr>]"
  unfolding metrics_usage_def sum_bind_Inr as_int64_Inr all_int64_def
  by (auto simp: prod_eq_iff)

lemma metrics_usage_Inl: "metrics_usage m = Inl s \<Longrightarrow> \<not> all_int64 m \<and> status_code s = Internal"
  unfolding metrics_usage_def sum_bind_Inl as_int64_Inl all_int64_def by auto

lemma exec_stats:
  assumes "exec (NodeGetVolumeStats vid path) tr (Done r)" and "vid \<noteq> []" and "path \<noteq> []"
  obtains (lstat_failed) info e where "tr = [ELstat path (info, Some e)]"
      "r = Inl (if IsNotExist e then Status NotFound (Fmt ''path %s does not exist'' [path])
        else Status Internal (Fmt ''failed to stat file %s: %v'' [path, err_text e]))"
    | (statfs_failed) info obj e where "tr = [ELstat path (info, None), EStatFS path (obj, Some e)]"
      "r = Inl (Status Internal (Fmt ''failed to get metrics: %v'' [err_text e]))"
    | (measured) info m where "tr = [ELstat path (info, None), EStatFS path (Some m, None)]"
      "r = metrics_usage m"
proof -
  from assms obtain info err rest where tr: "tr = ELstat path (info, err) # rest"
    and k: "exec (case err of
            Some e \<Rightarrow>
              if IsNotExist e then Return (Inl (Status NotFound (Fmt ''path %s does not exist'' [path])))
              else Return (Inl (Status Internal (Fmt ''failed to stat file %s: %v'' [path, err_text e])))
          | None \<Rightarrow>
              StatFS path (\<lambda>(volumeMetrics, err).
                case err of
                  Some e \<Rightarrow> Return (Inl (Status Internal (Fmt ''failed to get metrics: %v'' [err_text e])))
                | None \<Rightarrow> deref volumeMetrics (\<lambda>m. Return (metrics_usage m)))) rest (Done r)"
    by (auto simp: NodeGetVolumeStats_def exec_Lstat_iff)
  show thesis
  proof (cases err)
    case (Some e)
    with k tr show thesis by (intro lstat_failed) (auto simp: prog_simps split: if_splits)
  next
    case None
    with k obtain obj err' rest' where rest: "rest = EStatFS path (obj, err') # rest'"
      and k': "exec (case err' of
                  Some e \<Rightarrow> Return (Inl (Status Internal (Fmt ''failed to get metrics: %v'' [err_text e])))
                | None \<Rightarrow> deref obj (\<lambda>m. Return (metrics_usage m))) rest' (Done r)"
      by (auto simp: exec_StatFS_iff)
    show thesis
    proof (cases err')
      case (Some e)
      with k' tr rest None show thesis by (intro statfs_failed) (auto simp: prog_simps)
    next
      case None
      with k' tr rest \<open>err = None\<close> show thesis
        by (cases obj) (auto intro: measured simp: prog_simps)
    qed
  qed
qed

section \<open>Properties\<close>

text \<open>
  C36: \<^verbatim>\<open>NodeGetVolumeStats\<close> succeeds exactly when both arguments are given, the path can be stat'ed,
  the file system's metrics can be read and all six of them fit an int64; the answer then is the
  bytes and the inodes, each with its own available, total and used figure.
\<close>

theorem volume_stats_success:
  "exec (NodeGetVolumeStats vid path) tr (Done (Inr u)) \<longleftrightarrow>
     vid \<noteq> [] \<and> path \<noteq> [] \<and>
     (\<exists>info m. tr = [ELstat path (info, None), EStatFS path (Some m, None)] \<and> all_int64 m \<and>
       u = [\<lparr>usage_Unit = BYTES, usage_Available = fst (quantity_AsInt64 (vm_Available m)),
             usage_Total = fst (quantity_AsInt64 (vm_Capacity m)), usage_Used = fst (quantity_AsInt64 (vm_Used m))\<rparr>,
            \<lparr>usage_Unit = INODES, usage_Available = fst (quantity_AsInt64 (vm_InodesFree m)),
             usage_Total = fst (quantity_AsInt64 (vm_Inodes m)), usage_Used = fst (quantity_AsInt64 (vm_InodesUsed m))\<rparr>])"
  (is "?run \<longleftrightarrow> ?spec")
proof
  assume run: ?run
  then have args: "vid \<noteq> []" "path \<noteq> []"
    by (auto simp: NodeGetVolumeStats_def prog_simps split: if_splits)
  from run args args show ?spec
    by (cases rule: exec_stats) (auto simp: metrics_usage_Inr eq_commute [of "Inr u"])
next
  show "?spec \<Longrightarrow> ?run"
    by (auto simp: NodeGetVolumeStats_def prog_simps eq_commute [of "Inr u" for u] metrics_usage_Inr)
qed

text \<open>
  A failed \<^verbatim>\<open>NodeGetVolumeStats\<close> is InvalidArgument when an argument is missing, NotFound when
  the path does not exist, and Internal otherwise; it changes nothing.
\<close>

theorem volume_stats_errors:
  assumes "exec (NodeGetVolumeStats vid path) tr (Done (Inl s))"
  shows "status_code s =
      (if vid = [] \<or> path = [] then InvalidArgument
       else if (\<exists>info e. tr = [ELstat path (info, Some e)] \<and> IsNotExist e) then NotFound else Internal) \<and>
    EAct c x \<notin> set tr"
proof (cases "vid = [] \<or> path = []")
  case True
  with assms show ?thesis by (auto simp: NodeGetVolumeStats_def prog_simps split: if_splits)
next
  case False
  then have "vid \<noteq> []" "path \<noteq> []" by simp_all
  with assms show ?thesis
  proof (cases rule: exec_stats)
    case (lstat_failed info e)
    with False show ?thesis by auto
  next
    case (statfs_failed info obj e)
    with False show ?thesis by auto
  next
    case (measured info m)
    with metrics_usage_Inl [of m s] False show ?thesis by auto
  qed
qed

theorem volume_stats_errors_witness:
  "{status_code s | s. exec (NodeGetVolumeStats ''v'' ''/p'')
      [ELstat ''/p'' (\<lparr>info_Mode = 0, info_IsDir = False\<rparr>, Some (GoError NotExistErr ''gone''))] (Done (Inl s))} = {NotFound}"
proof -
  let ?tr = "[ELstat ''/p'' (\<lparr>info_Mode = 0, info_IsDir = False\<rparr>, Some (GoError NotExistErr ''gone''))]"
  have ex: "exec (NodeGetVolumeStats ''v'' ''/p'') ?tr
      (Done (Inl (Status NotFound (Fmt ''path %s does not exist'' [''/p'']))))"
    by (simp add: NodeGetVolumeStats_def prog_simps IsNotExist_def)
  have "status_code s = NotFound" if "exec (NodeGetVolumeStats ''v'' ''/p'') ?tr (Done (Inl s))" for s
    using volume_stats_errors [OF that] by (simp add: IsNotExist_def)
  with ex show ?thesis by force
qed

end
