(* ===== verification/Identity_Server.thy ===== *)
theory Identity_Server
  imports Controller_Server Node_Info
begin

text \<open>
  \<^verbatim>\<open>pkg/nfsexport/identityserver.go\<close>: the identity service, and what the three services advertise
  for the driver \<^verbatim>\<open>NewDriver\<close> builds.
\<close>

record identity_server =
  ids_Driver :: driver

definition NewDefaultIdentityServer :: "driver \<Rightarrow> identity_server" where
  "NewDefaultIdentityServer d = \<lparr>ids_Driver = d\<rparr>"

record plugin_info =
  info_Name :: string
  info_VendorVersion :: string

definition GetPluginInfo :: "identity_server \<Rightarrow> status + plugin_info" where
  "GetPluginInfo ids =
     (if drv_name (ids_Driver ids) = [] then
        Inl (Status Unavailable (Text ''Driver name not configured''))
      else if drv_version (ids_Driver ids) = [] then
        Inl (Status Unavailable (Text ''Driver is missing version''))
      else Inr \<lparr>info_Name = drv_name (ids_Driver ids), info_VendorVersion = drv_version (ids_Driver ids)\<rparr>)"

text \<open>\<^verbatim>\<open>Probe\<close> answers that the plugin is ready.\<close>

definition Probe :: "identity_server \<Rightarrow> bool" where
  "Probe ids = True"

datatype plugin_capability = CONTROLLER_SERVICE | VOLUME_ACCESSIBILITY_CONSTRAINTS

definition GetPluginCapabilities :: "identity_server \<Rightarrow> plugin_capability list" where
  "GetPluginCapabilities ids = [CONTROLLER_SERVICE]"

text \<open>
  The services of a driver built by \<^verbatim>\<open>NewDriver\<close> advertise what the options and the code
  configure: the identity service gives the name and the build's version exactly when both are
  non-empty, the controller advertises creation and deletion of volumes (and no cloning or
  publishing), the node statistics (and no staging), and the node answers its own ID.
\<close>

theorem advertised_services:
  "let d = NewDriver version options; caps = ControllerGetCapabilities (NewControllerServer d);
       ncaps = NodeGetCapabilities (NewNodeServer d)
   in (\<forall>i. GetPluginInfo (NewDefaultIdentityServer d) = Inr i \<longleftrightarrow>
         opt_DriverName options \<noteq> [] \<and> version \<noteq> [] \<and>
         i = \<lparr>info_Name = opt_DriverName options, info_VendorVersion = version\<rparr>) \<and>
      ControllerRpc CS_CREATE_DELETE_VOLUME \<in> set caps \<and> ControllerRpc CS_CLONE_VOLUME \<notin> set caps \<and>
      ControllerRpc CS_PUBLISH_UNPUBLISH_VOLUME \<notin> set caps \<and>
      NodeRpc NS_GET_VOLUME_STATS \<in> set ncaps \<and> NodeRpc NS_STAGE_UNSTAGE_VOLUME \<notin> set ncaps \<and>
      NodeGetInfo (NewNodeServer d) = opt_NodeID options \<and>
      drv_mountPermissions d = opt_MountPermissions options \<and> locks (drv_volumeLocks d) = {}"
  by (auto simp: NewDriver_def Let_def GetPluginInfo_def NewDefaultIdentityServer_def ControllerGetCapabilities_def
      NewControllerServer_def NodeGetCapabilities_def NewNodeServer_def NodeGetInfo_def
      AddControllerServiceCapabilities_def AddNodeServiceCapabilities_def NewControllerServiceCapability_def
      NewNodeServiceCapability_def NewVolumeLocks_def)

end
