(* ===== verification/Plugin_Main.thy ===== *)
theory Plugin_Main
  imports Grpc_Server Identity_Server
begin

text \<open>
  \<^verbatim>\<open>cmd/nfsexportplugin/main.go\<close>: the command line, the Kubernetes client and the start of the
  driver.  The functions of client-go that build a configuration and a client are parameters; a
  fatal error is the left value.
\<close>

record flags =
  flag_endpoint :: string
  flag_nodeID :: string
  flag_mountPermissions :: "64 word"
  flag_driverName :: string
  flag_workingMountDir :: string

definition default_flags :: flags where
  "default_flags = \<lparr>flag_endpoint = ''unix://tmp/csi.sock'', flag_nodeID = [], flag_mountPermissions = 0,
     flag_driverName = DefaultDriverName, flag_workingMountDir = ''/tmp''\<rparr>"

definition driver_options_of :: "flags \<Rightarrow> driver_options" where
  "driver_options_of f = \<lparr>opt_NodeID = flag_nodeID f, opt_DriverName = flag_driverName f,
     opt_Endpoint = flag_endpoint f, opt_MountPermissions = flag_mountPermissions f,
     opt_WorkingMountDir = flag_workingMountDir f\<rparr>"

definition getKubeClient ::
  "(string \<Rightarrow> string) \<Rightarrow> (string \<Rightarrow> go_error + 'config) \<Rightarrow> (go_error + 'config) \<Rightarrow>
     ('config \<Rightarrow> go_error + 'client) \<Rightarrow> message + 'client" where
  "getKubeClient getenv buildConfigFromFlags inClusterConfig newForConfig =
     (let kubeconfig = getenv ''KUBECONFIG'';
          config = (if kubeconfig \<noteq> [] then
              (case buildConfigFromFlags kubeconfig of
                 Inl err \<Rightarrow> Inl (Fmt ''Failed to create kubeconfig: %v'' [err_text err])
               | Inr config \<Rightarrow> Inr config)
            else
              (case inClusterConfig of
                 Inl err \<Rightarrow> Inl (Fmt ''Failed to create config: %v'' [err_text err])
               | Inr config \<Rightarrow> Inr config))
      in case config of
           Inl m \<Rightarrow> Inl m
         | Inr config \<Rightarrow>
             (case newForConfig config of
                Inl err \<Rightarrow> Inl (Fmt ''Failed to create client: %v'' [err_text err])
              | Inr client \<Rightarrow> Inr client))"

text \<open>\<^verbatim>\<open>handle\<close>: the driver is built once there is a client, and run outside test mode.\<close>

definition handle ::
  "string \<Rightarrow> (string \<Rightarrow> go_error + string) \<Rightarrow> message + 'client \<Rightarrow> flags \<Rightarrow> message + serve_args" where
  "handle driverVersion versionYAML kubeClient f =
     (case kubeClient of
        Inl m \<Rightarrow> Inl m
      | Inr client \<Rightarrow>
          (let d = NewDriver driverVersion (driver_options_of f)
           in case Run (versionYAML (drv_name d)) d False of
                Inl err \<Rightarrow> Inl (Fmt ''%v'' [err_text err])
              | Inr args \<Rightarrow> Inr args))"

text \<open>\<^verbatim>\<open>main\<close>: an empty node ID is only warned about.\<close>

definition main ::
  "string \<Rightarrow> (string \<Rightarrow> go_error + string) \<Rightarrow> message + 'client \<Rightarrow> flags \<Rightarrow>
     string list \<times> (message + serve_args)" where
  "main driverVersion versionYAML kubeClient f =
     (if flag_nodeID f = [] then [''nodeid is empty''] else [],
      handle driverVersion versionYAML kubeClient f)"

text \<open>
  The plugin starts its server exactly when the client and the version text could be made,
  with all three services, never in test mode, and at the endpoint of the command line; the
  default endpoint is the unix socket \<^verbatim>\<open>/tmp/csi.sock\<close>.
\<close>

theorem plugin_starts_server:
  "(handle version yaml client f = Inr args \<longleftrightarrow>
      (\<exists>c. client = Inr c) \<and> (\<exists>text. yaml (flag_driverName f) = Inr text) \<and>
      args = \<lparr>sa_endpoint = flag_endpoint f, sa_ids = True, sa_cs = True, sa_ns = True, sa_testMode = False\<rparr>) \<and>
   listen_address (flag_endpoint default_flags) = Some (''unix'', ''/tmp/csi.sock'')"
proof -
  have "listen_address (flag_endpoint default_flags) = Some (''unix'', ''/tmp/csi.sock'')" by code_simp
  then show ?thesis
    by (auto simp: handle_def Run_def Let_def NewDriver_def AddControllerServiceCapabilities_def
        AddNodeServiceCapabilities_def driver_options_of_def split: sum.splits)
qed

text \<open>
  The Kubernetes client is built from the file \<^verbatim>\<open>KUBECONFIG\<close> names exactly when that variable
  is not empty, and from the cluster's own configuration otherwise; each failure is fatal.
\<close>

theorem kube_client_config:
  "getKubeClient getenv build cluster_config new = Inr client \<longleftrightarrow>
     (\<exists>config. (if getenv ''KUBECONFIG'' = [] then cluster_config else build (getenv ''KUBECONFIG'')) = Inr config \<and>
        new config = Inr client)"
  by (auto simp: getKubeClient_def Let_def split: sum.splits)

end
