(* ===== verification/Server_System.thy ===== *)
theory Server_System
  imports Concurrent_Calls Plugin_Main Small_Steps
begin

text \<open>
  The plugin as a whole: the server of \<^verbatim>\<open>server.go\<close> with its three services, the goroutines that
  serve the RPCs, and the world they work on.  A call is accepted while the server serves and its
  service is registered, makes its calls one by one among those of the others, and is answered or
  panics; a panic no one recovers, like a fatal error, ends the process and all its goroutines, and
  the process may be killed and started again at any time.
\<close>

section \<open>The services\<close>

text \<open>
  The RPCs of the three services: those that change the cluster or the node, and the rest, with the
  two stubs standing for the calls answered with Unimplemented.
\<close>

datatype rpc =
    Volume call
  | ValidateCall string "volume_capability list"
  | ControllerCapabilitiesCall
  | ControllerStub controller_stub
  | StatsCall string string
  | NodeInfoCall
  | NodeCapabilitiesCall
  | NodeStub node_stub
  | PluginInfoCall
  | PluginCapabilitiesCall
  | ProbeCall

fun service_of :: "rpc \<Rightarrow> csi_service" where
  "service_of (Volume (Create req)) = ControllerService"
| "service_of (Volume (Delete vid)) = ControllerService"
| "service_of (Volume (Publish req)) = NodeService"
| "service_of (Volume (Unpublish req)) = NodeService"
| "service_of (ValidateCall vid caps) = ControllerService"
| "service_of ControllerCapabilitiesCall = ControllerService"
| "service_of (ControllerStub s) = ControllerService"
| "service_of (StatsCall vid path) = NodeService"
| "service_of NodeInfoCall = NodeService"
| "service_of NodeCapabilitiesCall = NodeService"
| "service_of (NodeStub s) = NodeService"
| "service_of PluginInfoCall = IdentityService"
| "service_of PluginCapabilitiesCall = IdentityService"
| "service_of ProbeCall = IdentityService"

datatype response =
    CreatedVolume csi_volume
  | Empty
  | ValidCapabilities "volume_capability list"
  | ControllerCapabilities "controller_capability list"
  | Usage "volume_usage list"
  | NodeId string
  | NodeCapabilities "node_capability list"
  | PluginInfo plugin_info
  | PluginCapabilities "plugin_capability list"
  | Ready bool

text \<open>The handler each RPC is dispatched to, on the services \<^verbatim>\<open>Driver.Run\<close> builds of the driver.\<close>

definition responding :: "('a \<Rightarrow> response) \<Rightarrow> (status + 'a) prog \<Rightarrow> (status + response) prog" where
  "responding f p = bind p (\<lambda>r. Return (map_sum id f r))"

lemma responding_result:
  "exec (responding f p) tr (Done (Inr resp)) \<longleftrightarrow> (\<exists>a. exec p tr (Done (Inr a)) \<and> resp = f a)"
proof -
  have eq: "Inr resp = map_sum id f r \<longleftrightarrow> (\<exists>a. r = Inr a \<and> resp = f a)" for r :: "status + 'a" by (cases r) auto
  show ?thesis unfolding responding_def exec_bind_Done by (auto simp: prog_simps eq)
qed

fun handler :: "poller \<Rightarrow> driver \<Rightarrow> rpc \<Rightarrow> (status + response) prog" where
  "handler poll d (Volume (Create req)) = responding CreatedVolume (CreateVolume req)"
| "handler poll d (Volume (Delete vid)) = responding (\<lambda>_. Empty) (DeleteVolume vid)"
| "handler poll d (Volume (Publish req)) = responding (\<lambda>_. Empty) (NodePublishVolume poll d req)"
| "handler poll d (Volume (Unpublish req)) = responding (\<lambda>_. Empty) (NodeUnpublishVolume poll req)"
| "handler poll d (ValidateCall vid caps) = Return (map_sum id ValidCapabilities (ValidateVolumeCapabilities vid caps))"
| "handler poll d ControllerCapabilitiesCall =
     Return (Inr (ControllerCapabilities (ControllerGetCapabilities (NewControllerServer d))))"
| "handler poll d (ControllerStub s) = Return (Inl (controller_unimplemented s))"
| "handler poll d (StatsCall vid path) = responding Usage (NodeGetVolumeStats vid path)"
| "handler poll d NodeInfoCall = Return (Inr (NodeId (NodeGetInfo (NewNodeServer d))))"
| "handler poll d NodeCapabilitiesCall = Return (Inr (NodeCapabilities (NodeGetCapabilities (NewNodeServer d))))"
| "handler poll d (NodeStub s) = Return (Inl (node_unimplemented s))"
| "handler poll d PluginInfoCall = Return (map_sum id PluginInfo (GetPluginInfo (NewDefaultIdentityServer d)))"
| "handler poll d PluginCapabilitiesCall =
     Return (Inr (PluginCapabilities (GetPluginCapabilities (NewDefaultIdentityServer d))))"
| "handler poll d ProbeCall = Return (Inr (Ready (Probe (NewDefaultIdentityServer d))))"

section \<open>States and steps\<close>

record goroutine =
  go_rpc :: rpc
  go_calls :: "event list"
  go_rest :: "(status + response) prog"

record plugin =
  pl_server :: grpc_state
  pl_world :: world
  pl_running :: "nat \<Rightarrow> goroutine option"
  pl_answers :: "(rpc \<times> event list \<times> (status + response)) list"

definition start_plugin :: "world \<Rightarrow> plugin" where
  "start_plugin w = \<lparr>pl_server = NewNonBlockingGRPCServer, pl_world = w, pl_running = Map.empty, pl_answers = []\<rparr>"

definition accepts :: "plugin \<Rightarrow> rpc \<Rightarrow> bool" where
  "accepts s r \<longleftrightarrow> \<not> gs_fatal (pl_server s) \<and> gs_serve (pl_server s) = Serving \<and> gs_stopper (pl_server s) \<noteq> Stopped \<and>
     (case gs_server (pl_server s) of None \<Rightarrow> False | Some services \<Rightarrow> service_of r \<in> set services)"

lemma accepts_iff:
  "accepts s r \<longleftrightarrow> \<not> gs_fatal (pl_server s) \<and> gs_serve (pl_server s) = Serving \<and> gs_stopper (pl_server s) \<noteq> Stopped \<and>
     (\<exists>services. gs_server (pl_server s) = Some services \<and> service_of r \<in> set services)"
  by (simp add: accepts_def split: option.split)

definition begin_call :: "poller \<Rightarrow> driver \<Rightarrow> nat \<Rightarrow> rpc \<Rightarrow> plugin \<Rightarrow> plugin" where
  "begin_call poll d i r s =
     s\<lparr>pl_running := (pl_running s)(i \<mapsto> \<lparr>go_rpc = r, go_calls = [], go_rest = handler poll d r\<rparr>)\<rparr>"

definition after_event :: "nat \<Rightarrow> goroutine \<Rightarrow> event \<Rightarrow> (status + response) prog \<Rightarrow> world \<Rightarrow> plugin \<Rightarrow> plugin" where
  "after_event i g e q w s =
     s\<lparr>pl_world := w, pl_running := (pl_running s)(i \<mapsto> g\<lparr>go_calls := go_calls g @ [e], go_rest := q\<rparr>)\<rparr>"

definition answer_call :: "nat \<Rightarrow> goroutine \<Rightarrow> status + response \<Rightarrow> plugin \<Rightarrow> plugin" where
  "answer_call i g r s =
     s\<lparr>pl_running := (pl_running s)(i := None), pl_answers := pl_answers s @ [(go_rpc g, go_calls g, r)]\<rparr>"

definition crash :: "plugin \<Rightarrow> plugin" where
  "crash s = s\<lparr>pl_server := (pl_server s)\<lparr>gs_fatal := True\<rparr>\<rparr>"

definition restart :: "plugin \<Rightarrow> plugin" where
  "restart s = s\<lparr>pl_server := NewNonBlockingGRPCServer, pl_running := Map.empty\<rparr>"

text \<open>
  \<open>ok\<close> holds of the requests the orchestrator sends, \<open>C\<close> of the answers the environment gives.
\<close>

inductive plugin_step ::
  "serve_args \<Rightarrow> poller \<Rightarrow> driver \<Rightarrow> (rpc \<Rightarrow> bool) \<Rightarrow> (event \<Rightarrow> bool) \<Rightarrow> plugin \<Rightarrow> plugin \<Rightarrow> bool"
  for a poll d ok C
where
  server_steps: "grpc_step a (pl_server s) g \<Longrightarrow> plugin_step a poll d ok C s (s\<lparr>pl_server := g\<rparr>)"
| call_accepted: "accepts s r \<Longrightarrow> ok r \<Longrightarrow> pl_running s i = None \<Longrightarrow> plugin_step a poll d ok C s (begin_call poll d i r s)"
| call_steps: "\<not> gs_fatal (pl_server s) \<Longrightarrow> pl_running s i = Some g \<Longrightarrow> prog_step (go_rest g) e q \<Longrightarrow> C e \<Longrightarrow>
     u = pl_world s \<or> outside (pl_world s) u \<Longrightarrow> effect e u w \<Longrightarrow> plugin_step a poll d ok C s (after_event i g e q w s)"
| call_answered: "\<not> gs_fatal (pl_server s) \<Longrightarrow> pl_running s i = Some g \<Longrightarrow> go_rest g = Return r \<Longrightarrow>
     plugin_step a poll d ok C s (answer_call i g r s)"
| call_panics: "\<not> gs_fatal (pl_server s) \<Longrightarrow> pl_running s i = Some g \<Longrightarrow> go_rest g = Panic \<Longrightarrow>
     plugin_step a poll d ok C s (crash s)"
| process_restarts: "plugin_step a poll d ok C s (restart s)"

inductive plugin_reachable ::
  "serve_args \<Rightarrow> poller \<Rightarrow> driver \<Rightarrow> (rpc \<Rightarrow> bool) \<Rightarrow> (event \<Rightarrow> bool) \<Rightarrow> world \<Rightarrow> plugin \<Rightarrow> bool"
  for a poll d ok C w0
where
  plugin_start: "plugin_reachable a poll d ok C w0 (start_plugin w0)"
| plugin_next: "plugin_reachable a poll d ok C w0 s \<Longrightarrow> plugin_step a poll d ok C s t \<Longrightarrow> plugin_reachable a poll d ok C w0 t"

section \<open>What the server keeps\<close>

text \<open>
  Every goroutine is somewhere in a run of the handler of an RPC of a registered service, and every
  answer ends such a run, whatever the requests, the others and the environment do.
\<close>

definition call_inv ::
  "serve_args \<Rightarrow> poller \<Rightarrow> driver \<Rightarrow> (rpc \<Rightarrow> bool) \<Rightarrow> (event \<Rightarrow> bool) \<Rightarrow> goroutine \<Rightarrow> bool" where
  "call_inv a poll d ok C g \<longleftrightarrow>
     ok (go_rpc g) \<and> service_of (go_rpc g) \<in> set (registered_services a) \<and>
     residual (handler poll d (go_rpc g)) (go_calls g) (go_rest g) \<and> list_all C (go_calls g)"

fun answer_inv ::
  "serve_args \<Rightarrow> poller \<Rightarrow> driver \<Rightarrow> (rpc \<Rightarrow> bool) \<Rightarrow> (event \<Rightarrow> bool) \<Rightarrow> rpc \<times> event list \<times> (status + response) \<Rightarrow> bool"
where
  "answer_inv a poll d ok C (r, tr, out) \<longleftrightarrow>
     ok r \<and> service_of r \<in> set (registered_services a) \<and> exec (handler poll d r) tr (Done out) \<and> list_all C tr"

definition serving_inv ::
  "serve_args \<Rightarrow> poller \<Rightarrow> driver \<Rightarrow> (rpc \<Rightarrow> bool) \<Rightarrow> (event \<Rightarrow> bool) \<Rightarrow> plugin \<Rightarrow> bool" where
  "serving_inv a poll d ok C s \<longleftrightarrow>
     grpc_inv a (pl_server s) \<and> (\<forall>i g. pl_running s i = Some g \<longrightarrow> call_inv a poll d ok C g) \<and>
     list_all (answer_inv a poll d ok C) (pl_answers s)"

lemma grpc_inv_fresh: "grpc_inv a NewNonBlockingGRPCServer"
  by (simp add: grpc_inv_def NewNonBlockingGRPCServer_def)

lemma grpc_inv_crash: "grpc_inv a g \<Longrightarrow> grpc_inv a (g\<lparr>gs_fatal := True\<rparr>)"
  by (simp add: grpc_inv_def)

lemma accepted_service:
  assumes "grpc_inv a (pl_server s)" and "accepts s r"
  shows "service_of r \<in> set (registered_services a)"
  using assms by (auto simp: grpc_inv_def accepts_iff)

lemma serving_inv_start: "serving_inv a poll d ok C (start_plugin w)"
  by (simp add: serving_inv_def start_plugin_def grpc_inv_fresh)

lemma serving_inv_step:
  assumes "plugin_step a poll d ok C s t" and inv: "serving_inv a poll d ok C s"
  shows "serving_inv a poll d ok C t"
  using assms(1)
proof cases
  case (server_steps g)
  with inv show ?thesis by (auto simp: serving_inv_def intro: grpc_inv_step)
next
  case (call_accepted r i)
  with inv accepted_service [of a s r] show ?thesis by (auto simp: serving_inv_def begin_call_def call_inv_def)
next
  case (call_steps i g e q u w)
  with inv have "call_inv a poll d ok C (g\<lparr>go_calls := go_calls g @ [e], go_rest := q\<rparr>)"
    using residual_step [of "handler poll d (go_rpc g)" "go_calls g" "go_rest g" e q]
    by (simp add: serving_inv_def call_inv_def del: handler.simps)
  with inv call_steps(1) show ?thesis by (auto simp: serving_inv_def after_event_def)
next
  case (call_answered i g r)
  with inv have g: "call_inv a poll d ok C g" by (simp add: serving_inv_def)
  with call_answered(4) have "residual (handler poll d (go_rpc g)) (go_calls g) (Return r)" by (simp add: call_inv_def)
  from residual_returned [OF this] g have "answer_inv a poll d ok C (go_rpc g, go_calls g, r)" by (simp add: call_inv_def)
  with inv call_answered(1) show ?thesis by (auto simp: serving_inv_def answer_call_def)
next
  case (call_panics i g)
  with inv show ?thesis by (simp add: serving_inv_def crash_def grpc_inv_crash)
next
  case process_restarts
  with inv show ?thesis by (simp add: serving_inv_def restart_def grpc_inv_fresh)
qed

lemma serving_inv_reachable: "plugin_reachable a poll d ok C w0 s \<Longrightarrow> serving_inv a poll d ok C s"
  by (induction rule: plugin_reachable.induct) (auto intro: serving_inv_start serving_inv_step)

section \<open>The invariant of the world\<close>

fun rpc_by_context :: "string set \<Rightarrow> driver \<Rightarrow> rpc \<Rightarrow> bool" where
  "rpc_by_context V d (Volume c) = by_context V d c"
| "rpc_by_context V d r = True"

lemma guarded_responding: "guarded G p [] \<Longrightarrow> guarded G (responding f p) []"
  unfolding responding_def by (rule guarded_bind) simp_all

lemma guarded_bindD: "guarded G (bind p f) h \<Longrightarrow> guarded G p h"
  by (induction p arbitrary: h) simp_all

lemma guard_stats: "guarded (claim_guard V) (NodeGetVolumeStats vid path) []"
  by (auto simp: NodeGetVolumeStats_def deref_def split: option.split)

lemma guard_handler:
  assumes "poll_contract poll" and "rpc_by_context V d r"
  shows "guarded (claim_guard V) (handler poll d r) []"
proof (cases r)
  case (Volume c)
  with assms(2) have "by_context V d c" by simp
  from guard_serve_call [OF assms(1) this] Volume show ?thesis
    by (cases c) (auto dest!: guarded_bindD intro: guarded_responding)
qed (simp_all add: guarded_responding guard_stats)

text \<open>The calls the plugin has made: those of the goroutines in flight and of the answered ones.\<close>

definition calls_made :: "plugin \<Rightarrow> event set" where
  "calls_made s = (\<Union>g \<in> ran (pl_running s). set (go_calls g)) \<union> (\<Union>(r, tr, out) \<in> set (pl_answers s). set tr)"

definition plugin_inv ::
  "string set \<Rightarrow> serve_args \<Rightarrow> poller \<Rightarrow> driver \<Rightarrow> (rpc \<Rightarrow> bool) \<Rightarrow> (event \<Rightarrow> bool) \<Rightarrow> world \<Rightarrow> plugin \<Rightarrow> bool" where
  "plugin_inv V a poll d ok C w0 s \<longleftrightarrow>
     serving_inv a poll d ok C s \<and> world_inv V (pl_world s) \<and> keeps_claims w0 (pl_world s) \<and>
     (\<forall>e \<in> calls_made s. sound_read (pl_world s) e)"

lemma plugin_inv_call:
  assumes "poll_contract poll" and "\<And>r. ok r \<Longrightarrow> rpc_by_context V d r" and inv: "plugin_inv V a poll d ok C w0 s"
    and run: "pl_running s i = Some g" and step: "prog_step (go_rest g) e q"
    and u: "u = pl_world s \<or> outside (pl_world s) u" and "effect e u v"
  shows "world_inv V v \<and> keeps_claims (pl_world s) v \<and> sound_read v e"
proof -
  from inv run have g: "residual (handler poll d (go_rpc g)) (go_calls g) (go_rest g)" "ok (go_rpc g)"
    by (auto simp: plugin_inv_def serving_inv_def call_inv_def)
  from residual_guarded [OF g(1) guard_handler [OF assms(1) assms(2) [OF g(2)]]]
  have "guarded (claim_guard V) (go_rest g) (go_calls g)" by simp
  from guarded_step [OF step this] have guard: "claim_guard V (go_calls g) e" by simp
  from run have "set (go_calls g) \<subseteq> calls_made s" by (auto simp: calls_made_def ran_def)
  with inv have "safe_after V (go_calls g) (pl_world s)" by (auto simp: safe_after_def plugin_inv_def)
  with u safe_outside have safe: "safe_after V (go_calls g) u" and keeps: "keeps_claims (pl_world s) u"
    by (auto simp: keeps_claims_def)
  from inv_effect [OF safe \<open>effect e u v\<close> guard] keeps show ?thesis by (auto intro: keeps_claims_trans)
qed

text \<open>A step that leaves the world alone and makes no new call keeps the invariant.\<close>

lemma plugin_inv_quiet:
  assumes "plugin_inv V a poll d ok C w0 s" and "serving_inv a poll d ok C t"
    and "pl_world t = pl_world s" and "calls_made t \<subseteq> calls_made s"
  shows "plugin_inv V a poll d ok C w0 t"
  using assms by (auto simp: plugin_inv_def)

lemma plugin_inv_step:
  assumes "poll_contract poll" and "\<And>r. ok r \<Longrightarrow> rpc_by_context V d r" and step: "plugin_step a poll d ok C s t"
    and inv: "plugin_inv V a poll d ok C w0 s"
  shows "plugin_inv V a poll d ok C w0 t"
proof -
  from inv have "serving_inv a poll d ok C s" by (simp add: plugin_inv_def)
  with step have serving: "serving_inv a poll d ok C t" by (rule serving_inv_step)
  note quiet = plugin_inv_quiet [OF inv serving]
  from step show ?thesis
  proof cases
    case (server_steps g)
    then show ?thesis by (intro quiet) (auto simp: calls_made_def)
  next
    case (call_accepted r i)
    then show ?thesis by (intro quiet) (auto simp: calls_made_def begin_call_def ran_def)
  next
    case (call_steps i g e q u w)
    from plugin_inv_call [OF assms(1,2) inv call_steps(3,4,6,7)]
    have world: "world_inv V w" "keeps_claims (pl_world s) w" "sound_read w e" by auto
    from call_steps(1,3) have "calls_made t \<subseteq> insert e (calls_made s)"
      by (auto simp: calls_made_def after_event_def ran_def split: if_splits)
    with world inv have "\<forall>e \<in> calls_made t. sound_read w e" by (auto simp: plugin_inv_def intro: sound_read_keeps)
    moreover have "pl_world t = w" using call_steps(1) by (simp add: after_event_def)
    ultimately show ?thesis using world inv serving by (auto simp: plugin_inv_def intro: keeps_claims_trans)
  next
    case (call_answered i g r)
    then show ?thesis
      by (intro quiet) (auto simp: calls_made_def answer_call_def ran_def split: if_splits)
  next
    case (call_panics i g)
    then show ?thesis by (intro quiet) (auto simp: calls_made_def crash_def)
  next
    case process_restarts
    then show ?thesis by (intro quiet) (auto simp: calls_made_def restart_def)
  qed
qed

lemma plugin_inv_start: "world_inv V w \<Longrightarrow> plugin_inv V a poll d ok C w (start_plugin w)"
  using serving_inv_start [of a poll d ok C w]
  by (simp add: plugin_inv_def keeps_claims_def calls_made_def start_plugin_def)

lemma plugin_inv_reachable:
  assumes "poll_contract poll" and "\<And>r. ok r \<Longrightarrow> rpc_by_context V d r" and "world_inv V w0"
  shows "plugin_reachable a poll d ok C w0 s \<Longrightarrow> plugin_inv V a poll d ok C w0 s"
proof (induction rule: plugin_reachable.induct)
  case plugin_start
  from assms(3) show ?case by (rule plugin_inv_start)
next
  case (plugin_next s t)
  then show ?case by (blast intro: plugin_inv_step [OF assms(1,2)])
qed

end
