(* ===== verification/Call_Bounds.thy ===== *)
theory Call_Bounds
  imports Publish_Safety Node_Unpublish Node_Info Controller_Properties
begin

text \<open>
  How many calls a handler can make: bounds for the phases, composed along the code, and with
  them the termination of every handler under every environment.  The waits are bounded by the
  number of checks the poller makes in its timeout.
\<close>

section \<open>Bounds on programs\<close>

text \<open>\<^verbatim>\<open>within p n\<close>: whatever the answers, \<open>p\<close> makes at most \<open>n\<close> calls.\<close>

primrec within :: "'a prog \<Rightarrow> nat \<Rightarrow> bool" where
  "within (Return a) n = True"
| "within Panic n = True"
| "within (Act c k) n = (0 < n \<and> (\<forall>r. within (k r) (n - 1)))"
| "within (PvcCall c k) n = (0 < n \<and> (\<forall>r. within (k r) (n - 1)))"
| "within (StsCall c k) n = (0 < n \<and> (\<forall>r. within (k r) (n - 1)))"
| "within (SvcCall c k) n = (0 < n \<and> (\<forall>r. within (k r) (n - 1)))"
| "within (PodCall c k) n = (0 < n \<and> (\<forall>r. within (k r) (n - 1)))"
| "within (ListPVCs ns k) n = (0 < n \<and> (\<forall>r. within (k r) (n - 1)))"
| "within (ListPVs k) n = (0 < n \<and> (\<forall>r. within (k r) (n - 1)))"
| "within (ListSCs k) n = (0 < n \<and> (\<forall>r. within (k r) (n - 1)))"
| "within (ListPods ns k) n = (0 < n \<and> (\<forall>r. within (k r) (n - 1)))"
| "within (MountQuery q k) n = (0 < n \<and> (\<forall>r. within (k r) (n - 1)))"
| "within (ReadDir d k) n = (0 < n \<and> (\<forall>r. within (k r) (n - 1)))"
| "within (Lstat d k) n = (0 < n \<and> (\<forall>r. within (k r) (n - 1)))"
| "within (Stat d k) n = (0 < n \<and> (\<forall>r. within (k r) (n - 1)))"
| "within (Getenv v k) n = (0 < n \<and> (\<forall>r. within (k r) (n - 1)))"
| "within (TcpProbe a t k) n = (0 < n \<and> (\<forall>r. within (k r) (n - 1)))"
| "within (StatFS p k) n = (0 < n \<and> (\<forall>r. within (k r) (n - 1)))"

lemma within_exec: "exec p tr out \<Longrightarrow> within p n \<Longrightarrow> length tr \<le> n"
  by (induction arbitrary: n rule: exec.induct) (force simp del: split_paired_All)+

lemma within_step:
  assumes bound: "\<And>tr out. exec p tr out \<Longrightarrow> length tr \<le> n"
    and lift: "\<And>r tr out. exec (k r) tr out \<Longrightarrow> exec p (ev r # tr) out"
    and IH: "\<And>r m. (\<And>tr out. exec (k r) tr out \<Longrightarrow> length tr \<le> m) \<Longrightarrow> within (k r) m"
  shows "0 < n \<and> (\<forall>r. within (k r) (n - 1))"
proof
  obtain tr out where "exec (k undefined) tr out" using exec_exists by blast
  from bound [OF lift [OF this]] show "0 < n" by simp
  show "\<forall>r. within (k r) (n - 1)"
  proof (intro allI IH)
    fix r tr out
    assume "exec (k r) tr out"
    from bound [OF lift [OF this]] show "length tr \<le> n - 1" by simp
  qed
qed

lemma within_traces: "(\<And>tr out. exec p tr out \<Longrightarrow> length tr \<le> n) \<Longrightarrow> within p n"
proof (induction p arbitrary: n)
  case (Return a)
  then show ?case by simp
next
  case Panic
  then show ?case by simp
qed (unfold within.simps, (rule within_step, assumption, erule exec.intros, blast)+)

lemma within_mono: "within p m \<Longrightarrow> m \<le> n \<Longrightarrow> within p n"
  by (meson within_traces within_exec order_trans)

lemma within_bind:
  assumes "within p m" and "\<And>a. within (f a) n"
  shows "within (bind p f) (m + n)"
proof (rule within_traces)
  fix tr out
  assume "exec (bind p f) tr out"
  then consider "exec p tr Panicked"
    | tr1 a tr2 where "tr = tr1 @ tr2" "exec p tr1 (Done a)" "exec (f a) tr2 out"
    unfolding exec_bind by blast
  then show "length tr \<le> m + n"
    using within_exec [OF _ assms(1)] within_exec [OF _ assms(2)]
    by cases (fastforce intro: add_mono trans_le_add1)+
qed

lemma within_attempt: "within p m \<Longrightarrow> (\<And>a. within (f a) n) \<Longrightarrow> within (attempt p f) (m + n)"
  by (auto simp: attempt_def intro!: within_bind split: sum.split)

lemma within_deref: "(\<And>a. within (k a) n) \<Longrightarrow> within (deref q k) n"
  by (cases q) simp_all

text \<open>A bound on a program is a bound on its runs under every environment.\<close>

lemma within_run: "within p n \<Longrightarrow> length (fst (snd (run E p w))) \<le> n"
  using run_exec [of p E w] by (rule within_exec)

section \<open>Bounded waits\<close>

text \<open>
  The number of checks of \<^verbatim>\<open>wait.PollImmediate(interval, timeout, condition)\<close> is bounded: it stops
  when the timeout is reached.  \<open>b interval timeout\<close> is that bound.
\<close>

definition polls_within :: "(int \<Rightarrow> int \<Rightarrow> nat) \<Rightarrow> poller \<Rightarrow> bool" where
  "polls_within b poll \<longleftrightarrow>
     (\<forall>interval timeout cond tr out. exec (poll interval timeout cond) tr out \<longrightarrow>
        (\<exists>rounds final. tr = concat rounds @ final \<and> length rounds < b interval timeout \<and>
           (\<forall>u \<in> set rounds. exec cond u (Done (False, None))) \<and> (\<exists>o'. exec cond final o')))"

lemma length_concat_bound: "\<forall>u \<in> set us. length u \<le> n \<Longrightarrow> length (concat us) \<le> length us * n"
  by (induction us) (auto intro: add_mono)

lemma within_poll:
  assumes "polls_within b poll" and "within cond n"
  shows "within (poll i t cond) (b i t * n)"
proof (rule within_traces)
  fix tr out
  assume "exec (poll i t cond) tr out"
  with assms(1) obtain rounds final o' where tr: "tr = concat rounds @ final"
    and b: "length rounds < b i t" and r: "\<forall>u \<in> set rounds. exec cond u (Done (False, None))"
    and f: "exec cond final o'"
    unfolding polls_within_def by metis
  from r assms(2) have "length (concat rounds) \<le> length rounds * n"
    by (intro length_concat_bound) (auto dest: within_exec)
  moreover from f assms(2) have "length final \<le> n" by (rule within_exec)
  ultimately have "length tr \<le> Suc (length rounds) * n" by (simp add: tr)
  also from b have "\<dots> \<le> b i t * n" by (intro mult_right_mono) simp_all
  finally show "length tr \<le> b i t * n" .
qed

lemma poll_tries_within:
  "exec (poll_tries n cond) tr out \<Longrightarrow>
     \<exists>rounds final. tr = concat rounds @ final \<and> length rounds < Suc n \<and>
       (\<forall>u \<in> set rounds. exec cond u (Done (False, None))) \<and> (\<exists>o'. exec cond final o')"
proof (induction n arbitrary: tr)
  case 0
  then show ?case by - (rule exI [of _ "[]"], rule exI [of _ tr], auto simp: exec_bind prog_simps)
next
  case (Suc n)
  from Suc.prems consider (last) "\<exists>o'. exec cond tr o'"
    | (check) tr1 tr2 where "tr = tr1 @ tr2" "exec cond tr1 (Done (False, None))" "exec (poll_tries n cond) tr2 out"
    by (auto simp: exec_bind prog_simps split: if_splits)
  then show ?case
  proof cases
    case last
    then show ?thesis by - (rule exI [of _ "[]"], rule exI [of _ tr], simp)
  next
    case check
    with Suc.IH [of tr2] obtain rounds final where "tr2 = concat rounds @ final" "length rounds < Suc n"
      "\<forall>u \<in> set rounds. exec cond u (Done (False, None))" "\<exists>o'. exec cond final o'" by blast
    with check show ?thesis by - (rule exI [of _ "tr1 # rounds"], rule exI [of _ final], simp)
  qed
qed

lemma poll_immediate_within: "polls_within (\<lambda>i t. Suc (nat (t div i))) poll_immediate"
  using poll_tries_within unfolding polls_within_def poll_immediate_def by blast

lemma poll_once_within: "polls_within (\<lambda>i t. 1) poll_once"
  using poll_tries_within [of 0] unfolding polls_within_def poll_once_def by simp

lemma within_waitForPodRunning:
  "polls_within b poll \<Longrightarrow> within (waitForPodRunning poll ns n t) (b Second t)"
  unfolding waitForPodRunning_def
  by (rule within_poll [where n = 1, simplified])
    (auto simp: isPodRunning_def deref_def split: option.splits pod_phase.splits)

lemma within_waitForTcpReady:
  "polls_within b poll \<Longrightarrow> within (waitForTcpReady poll host port t) (b Second t)"
  unfolding waitForTcpReady_def
  by (rule within_poll [where n = 1, simplified]) (auto simp: isTcpReady_def split: option.splits)

section \<open>The phases\<close>

lemma within_require: "within (require_data_pvc ns n) 1"
  by (auto simp: require_data_pvc_def deref_def split: option.splits)

lemma within_statefulset: "within (ensure_statefulset ns n def) 2"
  by (auto simp: ensure_statefulset_def split: option.splits)

lemma within_service: "within (ensure_service ns n def) 2"
  by (auto simp: ensure_service_def split: option.splits)

lemma within_prepare: "within (prepare_target t perms) 2"
  by (auto simp: prepare_target_def split: option.splits)

lemma within_find: "within (find_source a b) 2"
  by (auto simp: find_source_def Let_def split: option.splits)

lemma within_local: "within (mount_local s t ns n) 3"
  by (auto simp: mount_local_def deref_def split: option.splits)

lemma within_chmod: "within (chmodIfPermissionMismatch t mode) 2"
  by (auto simp: chmodIfPermissionMismatch_def Let_def split: option.splits)

lemma within_finish: "within (finish_publish t perms err) 2"
  by (auto simp: finish_publish_def intro!: within_bind [OF within_chmod, of _ 0, simplified] split: option.splits)

lemma within_backend_pod:
  "polls_within b poll \<Longrightarrow> within (wait_backend_pod poll ns n) (Suc (b Second (5 * Minute)))"
  unfolding wait_backend_pod_def
  by (auto simp: deref_def intro!: within_bind [OF within_waitForPodRunning, of _ _ _ 0, simplified]
      split: option.splits)

lemma within_remote:
  assumes "polls_within b poll"
  shows "within (mount_remote poll ns n def t opts) (b Second Minute + 3)"
proof -
  have "within (case err of Some e \<Rightarrow> Return (Inl (Status Canceled (Text (err_text e))))
      | None \<Rightarrow> Act (Mount (ip @ '':/'') t ''nfs'' opts) (\<lambda>_. Return (Inr ()))) 1" for err ip
    by (cases err) simp_all
  from within_attempt [OF within_service within_deref [OF within_bind [OF within_waitForTcpReady [OF assms] this]]]
  show ?thesis unfolding mount_remote_def Let_def by (rule within_mono) simp
qed

lemma within_mount_volume:
  assumes "polls_within b poll"
  shows "within (mount_volume poll vid t p uid podUID) (b Second Minute + 8)"
proof -
  have remote: "within (attempt (mount_remote poll ns n def t opts) (\<lambda>_. finish_publish t perms err))
      (5 + b Second Minute)" for ns n def opts perms err
    by (rule within_mono [OF within_attempt [OF within_remote [OF assms] within_finish]]) simp
  have here: "within (bind (mount_local s t ns n) (finish_publish t perms)) (5 + b Second Minute)" for s ns n perms
    by (rule within_mono [OF within_bind [OF within_local within_finish]]) simp
  have "within (mount_volume poll vid t p uid podUID) (2 + Suc (5 + b Second Minute))"
    unfolding mount_volume_def
    by (intro within_bind [OF within_find]) (auto simp: here remote split: prod.split if_split)
  then show ?thesis by (rule within_mono) simp
qed

lemma within_publish:
  assumes "polls_within b poll"
  shows "within (NodePublishVolume poll drv req) (b Second (5 * Minute) + b Second Minute + 14)"
proof -
  have last: "within (if \<not> notMnt then Return (Inr ()) else mount_volume poll vid t p uid podUID)
      (b Second Minute + 8)" for notMnt vid t p uid podUID
    using within_mount_volume [OF assms] by simp
  have "within (publish_volume poll vid t p)
      (1 + (2 + (Suc (b Second (5 * Minute)) + (2 + (b Second Minute + 8)))))" for vid t p
    unfolding publish_volume_def
    by (intro within_attempt [OF within_require] within_attempt [OF within_statefulset]
        within_attempt [OF within_backend_pod [OF assms]] within_attempt [OF within_prepare] last)
  then have "within (publish_volume poll vid t p) (b Second (5 * Minute) + b Second Minute + 14)" for vid t p
    by (rule within_mono) simp
  then show ?thesis by (simp add: NodePublishVolume_def split: sum.split)
qed

lemma within_unpublish:
  assumes "polls_within b poll"
  shows "within (NodeUnpublishVolume poll req) (b Second (5 * Minute) + 5)"
proof -
  have wait: "within (bind (waitForPodRunning poll ns n (5 * Minute)) (\<lambda>_. Return (Inr ()))) (b Second (5 * Minute))" for ns n
    by (rule within_bind [OF within_waitForPodRunning [OF assms], of _ 0, simplified]) simp
  have del: "within (delete_backend poll vid pv) (b Second (5 * Minute) + 2)" for vid pv
    unfolding delete_backend_def by (rule within_deref) (simp add: wait split: prod.split)
  have used: "within (still_used ref) 1" for ref
    by (auto simp: still_used_def deref_def split: option.splits)
  have get: "within (getPvById vid) 1" for vid
    by (auto simp: getPvById_def deref_def split: option.splits)
  have "within (bind (still_used ref) (\<lambda>used.
      if used then Return (Inr ()) else delete_backend poll vid pv)) (1 + (b Second (5 * Minute) + 2))" for ref vid pv
    by (rule within_bind [OF used]) (simp add: del [simplified])
  then have "within (release_volume poll vid) (1 + (1 + (b Second (5 * Minute) + 2)))" for vid
    unfolding release_volume_def
    by (intro within_bind [OF get]) (auto intro!: within_deref split: sum.split)
  then have "within (release_volume poll vid) (4 + b Second (5 * Minute))" for vid by (rule within_mono) simp
  then show ?thesis by (simp add: NodeUnpublishVolume_def split: option.split)
qed

lemma within_create: "within (CreateVolume req) 3"
proof -
  have choose: "within (choose_storage_class sc) 1" for sc
    by (auto simp: choose_storage_class_def deref_def split: option.splits)
  have ensure: "within (ensure_data_pvc ns n def) 2" for ns n def
    by (auto simp: ensure_data_pvc_def split: option.splits)
  have "within (create_volume name bytes p) (1 + (2 + 0))" for name bytes p
    unfolding create_volume_def Let_def
    by (intro within_bind [OF choose] within_attempt [OF ensure] within_deref) simp
  then show ?thesis by (simp add: CreateVolume_def eval_nat_numeral split: sum.split)
qed

lemma within_delete: "within (DeleteVolume vid) 2"
  by (auto simp: DeleteVolume_def getPvById_def deref_def Let_def split: option.splits)

lemma within_stats: "within (NodeGetVolumeStats vid path) 2"
  by (auto simp: NodeGetVolumeStats_def deref_def split: option.splits)

section \<open>Termination\<close>

lemma run_returns:
  assumes "panic_free C p" and "within p n" and "list_all C (fst (snd (run E p w)))"
  obtains r tr w' where "run E p w = (Done r, tr, w')" and "length tr \<le> n"
proof -
  obtain out tr w' where run: "run E p w = (out, tr, w')" by (cases "run E p w") auto
  from run_execD [OF run] assms(1,3) run have "out \<noteq> Panicked" by (auto dest: panic_free_exec)
  then obtain r where "out = Done r" by (cases out) auto
  with run within_run [OF assms(2), of E w] show thesis by (auto intro: that)
qed

text \<open>
  C15: \<^verbatim>\<open>NodePublishVolume\<close> terminates with an answer against every environment whose client always
  returns an object, after at most 14 calls besides the checks of its two waits; with a poller that
  checks at once and then every second these are 301 reads of the backend pod and 61 probes of the
  service.
\<close>

theorem publish_terminates:
  assumes "poll_contract poll" and "polls_within b poll"
    and "list_all never_nil (fst (snd (run E (NodePublishVolume poll drv req) w)))"
  shows "\<exists>r tr w'. run E (NodePublishVolume poll drv req) w = (Done r, tr, w') \<and>
    length tr \<le> b Second (5 * Minute) + b Second Minute + 14"
  by (rule run_returns [OF publish_panic_free [OF assms(1)] within_publish [OF assms(2)] assms(3)]) blast

theorem publish_terminates_witness:
  "\<exists>r tr w'. run (demo_env cluster) (NodePublishVolume poll_immediate demo_driver demo_publish) () = (Done r, tr, w') \<and>
     length tr \<le> 301 + 61 + 14"
proof -
  have client: "list_all never_nil
      (fst (snd (run (demo_env cluster) (NodePublishVolume poll_immediate demo_driver demo_publish) ())))"
    by code_simp
  have "Suc (nat (5 * Minute div Second)) = 301" "Suc (nat (Minute div Second)) = 61" by code_simp+
  with publish_terminates [OF poll_immediate_contract poll_immediate_within client] show ?thesis by simp
qed

text \<open>The volumes the driver makes are bound before they are published.\<close>

fun bound_volumes :: "event \<Rightarrow> bool" where
  "bound_volumes (EListPVs (Some items, err)) = list_all (\<lambda>pv. pv_ClaimRef pv \<noteq> None) items"
| "bound_volumes e = True"

lemma unpublish_panic_free:
  assumes poll: "poll_contract poll"
  shows "panic_free (\<lambda>e. never_nil e \<and> bound_volumes e) (NodeUnpublishVolume poll req)"
proof -
  have wait: "panic_free (\<lambda>e. never_nil e \<and> bound_volumes e) (waitForPodRunning poll ns n t)" for ns n t
    unfolding waitForPodRunning_def
    by (rule panic_free_mono [OF running.wait_panic_free [OF poll]]) (simp add: never_nil_answered)
  have del: "panic_free (\<lambda>e. never_nil e \<and> bound_volumes e) (delete_backend poll vid pv)" if "pv_CSI pv \<noteq> None" for vid pv
    unfolding delete_backend_def
    by (rule panic_free_deref [OF that]) (auto intro!: panic_free_bind wait split: prod.split)
  have used: "panic_free (\<lambda>e. never_nil e \<and> bound_volumes e) (still_used ref)" for ref
    by (auto simp: still_used_def deref_def split: option.splits)
  have rest: "panic_free (\<lambda>e. never_nil e \<and> bound_volumes e)
      (deref (pv_ClaimRef pv) (\<lambda>ref. bind (still_used ref) (\<lambda>used.
         if used then Return (Inr ()) else delete_backend poll vid pv)))"
    if "find (handles_volume vid) items = Some pv" "list_all (\<lambda>pv. pv_ClaimRef pv \<noteq> None) items" for vid pv items
  proof (rule panic_free_deref)
    from that show "pv_ClaimRef pv \<noteq> None" by (auto simp: find_Some_iff list_all_length)
    from that have "pv_CSI pv \<noteq> None" by (auto simp: find_Some_iff handles_volume_def split: option.splits)
    then show "panic_free (\<lambda>e. never_nil e \<and> bound_volumes e) (bind (still_used ref) (\<lambda>used.
        if used then Return (Inr ()) else delete_backend poll vid pv))" for ref
      by (intro panic_free_bind used) (simp add: del)
  qed
  have "panic_free (\<lambda>e. never_nil e \<and> bound_volumes e) (release_volume poll vid)" for vid
    unfolding release_volume_def getPvById_def
    by (auto simp: deref_def rest [unfolded deref_def] split: option.split)
  then show ?thesis by (auto simp: NodeUnpublishVolume_def split: option.split)
qed

text \<open>
  C22: \<^verbatim>\<open>NodeUnpublishVolume\<close> terminates with an answer against every environment whose client always
  returns an object and lists only bound volumes, after at most five calls besides the reads of
  its wait.
\<close>

theorem unpublish_terminates:
  assumes "poll_contract poll" and "polls_within b poll"
    and "list_all (\<lambda>e. never_nil e \<and> bound_volumes e) (fst (snd (run E (NodeUnpublishVolume poll req) w)))"
  shows "\<exists>r tr w'. run E (NodeUnpublishVolume poll req) w = (Done r, tr, w') \<and>
    length tr \<le> b Second (5 * Minute) + 5"
  by (rule run_returns [OF unpublish_panic_free [OF assms(1)] within_unpublish [OF assms(2)] assms(3)]) blast

theorem unpublish_terminates_witness:
  "\<exists>r tr w'. run (demo_env demo_pv_cluster)
       (NodeUnpublishVolume poll_immediate \<lparr>unpub_VolumeId = ''nfs-1'', unpub_TargetPath = ''/t''\<rparr>) () = (Done r, tr, w') \<and>
     length tr \<le> 301 + 5"
proof -
  let ?req = "\<lparr>unpub_VolumeId = ''nfs-1'', unpub_TargetPath = ''/t''\<rparr>"
  have client: "list_all (\<lambda>e. never_nil e \<and> bound_volumes e)
      (fst (snd (run (demo_env demo_pv_cluster) (NodeUnpublishVolume poll_immediate ?req) ())))"
    by code_simp
  have "Suc (nat (5 * Minute div Second)) = 301" by code_simp
  with unpublish_terminates [OF poll_immediate_contract poll_immediate_within client] show ?thesis by simp
qed

text \<open>
  C33: the controller's \<^verbatim>\<open>CreateVolume\<close> and \<^verbatim>\<open>DeleteVolume\<close> terminate with an answer after at most
  three and two calls against every environment that returns an object with every answer without
  an error.
\<close>

theorem controller_terminates:
  "(list_all answered (fst (snd (run E (CreateVolume req) w))) \<longrightarrow>
      (\<exists>r tr w'. run E (CreateVolume req) w = (Done r, tr, w') \<and> length tr \<le> 3)) \<and>
   (list_all answered (fst (snd (run E (DeleteVolume vid) w))) \<longrightarrow>
      (\<exists>r tr w'. run E (DeleteVolume vid) w = (Done r, tr, w') \<and> length tr \<le> 2))"
  by (intro conjI impI; rule run_returns [OF create_panic_free within_create]
      run_returns [OF delete_panic_free within_delete]; assumption?; blast)

theorem controller_terminates_witness:
  "\<exists>r tr w'. run (demo_env demo_pv_cluster) (DeleteVolume ''nfs-1'') () = (Done r, tr, w') \<and> length tr \<le> 2"
proof -
  have "list_all answered (fst (snd (run (demo_env demo_pv_cluster) (DeleteVolume ''nfs-1'') ())))"
    by code_simp
  with controller_terminates [of "demo_env demo_pv_cluster" _ "()" "''nfs-1''"] show ?thesis by blast
qed

end
