(* ===== verification/Plugin_Properties.thy ===== *)
theory Plugin_Properties
  imports Server_System Call_Bounds
begin

text \<open>
  Properties of the plugin as a whole: its invariant through crashes and restarts, when it cannot
  panic, and what a panic costs.
\<close>

abbreviation plugin_steps ::
  "serve_args \<Rightarrow> poller \<Rightarrow> driver \<Rightarrow> (rpc \<Rightarrow> bool) \<Rightarrow> (event \<Rightarrow> bool) \<Rightarrow> plugin \<Rightarrow> plugin \<Rightarrow> bool" where
  "plugin_steps a poll d ok C \<equiv> (plugin_step a poll d ok C)\<^sup>*\<^sup>*"

lemma plugin_steps_reachable:
  "plugin_reachable a poll d ok C w0 s \<Longrightarrow> plugin_steps a poll d ok C s t \<Longrightarrow> plugin_reachable a poll d ok C w0 t"
  by (rotate_tac, induction rule: rtranclp_induct) (auto intro: plugin_next)

section \<open>A serving plugin\<close>

lemma grpc_steps_plugin:
  "grpc_reachable a g \<Longrightarrow> plugin_reachable a poll d ok C w0 ((start_plugin w0)\<lparr>pl_server := g\<rparr>)"
proof (induction rule: grpc_reachable.induct)
  case grpc_init
  then show ?case using plugin_start [of a poll d ok C w0] by (simp add: start_plugin_def)
next
  case (grpc_next s t)
  from plugin_next [OF grpc_next.IH server_steps [of a _ t]] grpc_next.hyps(2) show ?case by simp
qed

definition demo_plugin :: "world \<Rightarrow> plugin" where
  "demo_plugin w = (start_plugin w)\<lparr>pl_server := demo_serving\<rparr>"

lemma demo_plugin_reachable: "plugin_reachable demo_args poll d ok C w (demo_plugin w)"
  unfolding demo_plugin_def by (rule grpc_steps_plugin [OF demo_serving_reachable])

lemma demo_plugin_accepts: "accepts (demo_plugin w) r"
  by (cases r rule: service_of.cases)
    (simp_all add: accepts_iff demo_plugin_def demo_serving_def demo_listening_def registered_services_def demo_args_def
      Start_def NewNonBlockingGRPCServer_def)

section \<open>A call served alone\<close>

text \<open>The calls of one goroutine, one after the other, with nothing in between.\<close>

lemma plugin_runs:
  assumes "\<not> gs_fatal (pl_server s)" and "pl_running s i = Some g" and "residual (go_rest g) h q"
    and "evolves h (pl_world s) w" and "list_all C h"
  shows "plugin_steps a poll d ok C s
    (s\<lparr>pl_world := w, pl_running := (pl_running s)(i \<mapsto> g\<lparr>go_calls := go_calls g @ h, go_rest := q\<rparr>)\<rparr>)"
  using assms
proof (induction h arbitrary: s g)
  case Nil
  then have "pl_running s = (pl_running s)(i \<mapsto> g)" by auto
  with Nil show ?case by simp
next
  case (Cons e h)
  from Cons.prems(3,4) obtain u v where u: "prog_step (go_rest g) e u" "residual u h q"
    and v: "effect e (pl_world s) v" "evolves h v w" by auto
  let ?g = "g\<lparr>go_calls := go_calls g @ [e], go_rest := u\<rparr>"
  let ?t = "after_event i g e u v s"
  from Cons.prems(5) have "plugin_step a poll d ok C s ?t"
    by (intro call_steps [OF Cons.prems(1,2) u(1) _ _ v(1)]) simp_all
  moreover have "plugin_steps a poll d ok C ?t
    (?t\<lparr>pl_world := w, pl_running := (pl_running ?t)(i \<mapsto> ?g\<lparr>go_calls := go_calls ?g @ h, go_rest := q\<rparr>)\<rparr>)"
    by (rule Cons.IH) (use Cons.prems u v in \<open>simp_all add: after_event_def\<close>)
  ultimately have "plugin_steps a poll d ok C s
    (?t\<lparr>pl_world := w, pl_running := (pl_running ?t)(i \<mapsto> ?g\<lparr>go_calls := go_calls ?g @ h, go_rest := q\<rparr>)\<rparr>)"
    by (rule converse_rtranclp_into_rtranclp)
  then show ?case by (simp add: after_event_def fun_upd_def cong: if_cong)
qed

lemma exec_ends: "exec p h out \<longleftrightarrow> residual p h (case out of Done a \<Rightarrow> Return a | Panicked \<Rightarrow> Panic)"
  using exec_residual [of p h "[]" out] by (cases out) (auto simp: prog_simps exec_Nil_iff)

lemma plugin_serves:
  assumes "accepts s r" and "ok r" and "pl_running s i = None" and "exec (handler poll d r) tr (Done out)"
    and "evolves tr (pl_world s) w" and "list_all C tr"
  shows "plugin_steps a poll d ok C s (s\<lparr>pl_world := w, pl_answers := pl_answers s @ [(r, tr, out)]\<rparr>)"
proof -
  let ?g = "\<lparr>go_rpc = r, go_calls = [], go_rest = handler poll d r\<rparr>"
  let ?g' = "?g\<lparr>go_calls := go_calls ?g @ tr, go_rest := Return out\<rparr>"
  let ?s1 = "begin_call poll d i r s"
  let ?s2 = "?s1\<lparr>pl_world := w, pl_running := (pl_running ?s1)(i \<mapsto> ?g')\<rparr>"
  from assms(1) have alive: "\<not> gs_fatal (pl_server s)" by (simp add: accepts_iff)
  from assms(1-3) have "plugin_step a poll d ok C s ?s1" by (rule call_accepted)
  moreover from assms(4) have "residual (handler poll d r) tr (Return out)" by (simp only: exec_ends outcome.case)
  with assms(5,6) have "plugin_steps a poll d ok C ?s1 ?s2"
    by (intro plugin_runs) (simp_all add: begin_call_def alive)
  moreover have "plugin_step a poll d ok C ?s2 (answer_call i ?g' out ?s2)"
    by (rule call_answered) (simp_all add: begin_call_def alive)
  ultimately have "plugin_steps a poll d ok C s (answer_call i ?g' out ?s2)"
    by (meson converse_rtranclp_into_rtranclp rtranclp.rtrancl_into_rtrancl)
  moreover have "(pl_running s)(i := None) = pl_running s" using assms(3) by auto
  ultimately show ?thesis by (simp add: answer_call_def begin_call_def)
qed

text \<open>The demonstration plugin after it has served one call of \<^verbatim>\<open>NodePublishVolume\<close>.\<close>

abbreviation demo_rpc :: rpc where
  "demo_rpc \<equiv> Volume (Publish demo_publish)"

abbreviation demo_ok :: "rpc \<Rightarrow> bool" where
  "demo_ok \<equiv> rpc_by_context UNIV demo_driver"

definition demo_served_calls :: "event list" where
  "demo_served_calls = fst (snd (run store_env (handler poll_once demo_driver demo_rpc) (add_claim demo_key empty_world)))"

definition demo_served :: plugin where
  "demo_served = (demo_plugin (add_claim demo_key empty_world))
     \<lparr>pl_world := serve_store (Publish demo_publish) (add_claim demo_key empty_world),
      pl_answers := [(demo_rpc, demo_served_calls, Inr Empty)]\<rparr>"

lemma demo_ok_rpc: "demo_ok demo_rpc"
  by code_simp

lemma demo_served_reachable:
  "plugin_reachable demo_args poll_once demo_driver demo_ok (\<lambda>e. True) (add_claim demo_key empty_world) demo_served"
proof -
  let ?w0 = "add_claim demo_key empty_world"
  let ?run = "run store_env (handler poll_once demo_driver demo_rpc) ?w0"
  let ?w1 = "serve_store (Publish demo_publish) ?w0"
  let ?run' = "run store_env (NodePublishVolume poll_once demo_driver demo_publish) ?w0"
  have run: "?run = apfst (map_result (map_sum id (\<lambda>_. Empty))) ?run'" by (simp add: responding_def run_result)
  have served: "run store_env (serve_call poll_once demo_driver (Publish demo_publish)) ?w0 =
      apfst (map_result (\<lambda>r. case r of Inl e \<Rightarrow> Some e | Inr _ \<Rightarrow> None)) ?run'"
    using run_result by (simp add: report_def [abs_def])
  obtain out tr w where run': "?run' = (out, tr, w)" by (cases ?run') auto
  from demo_stored have "out = Done (Inr ())" unfolding served run' by (cases out) (auto split: sum.splits)
  with run run' served have "fst ?run = Done (Inr Empty)" "snd (snd ?run) = ?w1" by (simp_all add: serve_store_def)
  moreover have "evolves (fst (snd ?run)) ?w0 (snd (snd ?run))" by (rule run_evolves [OF store_env_truthful])
  ultimately have "exec (handler poll_once demo_driver demo_rpc) demo_served_calls (Done (Inr Empty))"
    and "evolves demo_served_calls ?w0 ?w1"
    using run_exec [of "handler poll_once demo_driver demo_rpc" store_env ?w0]
    by (simp_all add: demo_served_calls_def del: handler.simps)
  with demo_ok_rpc demo_plugin_accepts [of ?w0 demo_rpc]
  have "plugin_steps demo_args poll_once demo_driver demo_ok (\<lambda>e. True) (demo_plugin ?w0)
      ((demo_plugin ?w0)\<lparr>pl_world := ?w1, pl_answers := pl_answers (demo_plugin ?w0) @ [(demo_rpc, demo_served_calls, Inr Empty)]\<rparr>)"
    by (intro plugin_serves [where i = 0]) (simp_all add: demo_plugin_def start_plugin_def list_all_iff)
  with demo_plugin_reachable have "plugin_reachable demo_args poll_once demo_driver demo_ok (\<lambda>e. True) ?w0
      ((demo_plugin ?w0)\<lparr>pl_world := ?w1, pl_answers := pl_answers (demo_plugin ?w0) @ [(demo_rpc, demo_served_calls, Inr Empty)]\<rparr>)"
    by (rule plugin_steps_reachable)
  then show ?thesis by (simp add: demo_served_def demo_plugin_def start_plugin_def)
qed

lemma demo_world_inv: "world_inv V (add_claim demo_key empty_world)"
  by (simp add: world_inv_def empty_world_def)

section \<open>The invariant\<close>

text \<open>
  Whatever RPCs the plugin serves at once, however their calls interleave with each other and
  with what users, the provisioner and the plugins of other nodes change, and whenever it panics,
  is killed and starts again, every NFS backend of a volume in \<open>V\<close> has its data claim and no claim
  in a named namespace is taken away (as long as the other plugins, for which the same theorem
  holds, and the users keep to this too).
\<close>

theorem plugin_keeps_claims:
  assumes "poll_contract poll" and "\<And>r. ok r \<Longrightarrow> rpc_by_context V d r" and "plugin_reachable a poll d ok C w0 s"
    and "world_inv V w0"
  shows "{k \<in> w_backends (pl_world s). snd k \<in> V} \<subseteq> w_claims (pl_world s) \<and>
    {k \<in> w_claims w0. fst k \<noteq> []} \<subseteq> w_claims (pl_world s)"
  using plugin_inv_reachable [OF assms(1,2,4,3)]
  by (auto simp: plugin_inv_def world_inv_def keeps_claims_def)

theorem plugin_keeps_claims_witness:
  "demo_key \<in> w_claims (pl_world (restart demo_served))"
proof -
  from demo_served_reachable process_restarts
  have "plugin_reachable demo_args poll_once demo_driver demo_ok (\<lambda>e. True) (add_claim demo_key empty_world) (restart demo_served)"
    by (rule plugin_next)
  from plugin_keeps_claims [where V = UNIV, OF poll_once_contract _ this demo_world_inv] show ?thesis by (auto simp: demo_key_def)
qed

section \<open>Panics\<close>

definition sound_client :: "event \<Rightarrow> bool" where
  "sound_client e \<longleftrightarrow> never_nil e \<and> bound_volumes e"

lemma panic_free_responding: "panic_free C p \<Longrightarrow> panic_free C (responding f p)"
  unfolding responding_def by (rule panic_free_bind) simp_all

lemma handler_panic_free:
  assumes "poll_contract poll"
  shows "panic_free sound_client (handler poll d r)"
proof (cases r)
  case (Volume c)
  have answered: "panic_free answered p \<Longrightarrow> panic_free sound_client p" for p :: "(status + 'a) prog"
    by (erule panic_free_mono) (simp add: sound_client_def never_nil_answered)
  have "panic_free sound_client (NodePublishVolume poll d req)" for req
    by (rule panic_free_mono [OF publish_panic_free [OF assms]]) (simp add: sound_client_def)
  moreover have "panic_free sound_client (NodeUnpublishVolume poll req)" for req
    by (rule panic_free_mono [OF unpublish_panic_free [OF assms]]) (simp add: sound_client_def)
  ultimately show ?thesis
    unfolding Volume
    by (cases c) (auto intro: panic_free_responding answered [OF create_panic_free] answered [OF delete_panic_free])
next
  case (StatsCall vid path)
  have "panic_free sound_client (NodeGetVolumeStats vid path)"
    by (auto simp: NodeGetVolumeStats_def deref_def sound_client_def split: option.split)
  then show ?thesis unfolding StatsCall by (simp add: panic_free_responding)
qed simp_all

lemma goroutine_panic_free:
  assumes "poll_contract poll" and "plugin_reachable a poll d ok sound_client w0 s" and "pl_running s i = Some g"
  shows "panic_free sound_client (go_rest g)"
proof -
  from serving_inv_reachable [OF assms(2)] assms(3)
  have "residual (handler poll d (go_rpc g)) (go_calls g) (go_rest g)" "list_all sound_client (go_calls g)"
    by (auto simp: serving_inv_def call_inv_def)
  from residual_panic_free [OF this(1) handler_panic_free [OF assms(1)] this(2)] show ?thesis .
qed

text \<open>A cluster that never leaves a call without an answer.\<close>

definition no_metrics :: volume_metrics where
  "no_metrics = (let q = \<lparr>quantity_AsInt64 = (0, True), quantity_String = []\<rparr>
     in \<lparr>vm_Available = q, vm_Capacity = q, vm_Used = q, vm_InodesFree = q, vm_Inodes = q, vm_InodesUsed = q\<rparr>)"

definition patient_env :: "world environment" where
  "patient_env = store_env
     \<lparr>env_list_pvs := (\<lambda>w. ((Some [], Some absent), w)), env_statfs := (\<lambda>p w. ((Some no_metrics, Some absent), w))\<rparr>"

lemma patient_env_truthful: "truthful patient_env (\<lambda>w. w)"
  using store_env_truthful by (simp add: truthful_def patient_env_def answers_truly_def)

lemma patient_after_call:
  assumes "sound_client (ev (fst answer))" and "\<And>r w. list_all sound_client (fst (snd (rest r w)))"
  shows "list_all sound_client (fst (snd (after_call answer ev rest)))"
  using assms by (simp add: after_call_def split: prod.split) (metis fst_conv snd_conv)

lemma patient_env_sound: "list_all sound_client (fst (snd (run patient_env p w)))"
proof (induction p arbitrary: w)
  case (Return a)
  then show ?case by simp
next
  case Panic
  then show ?case by simp
qed (unfold run.simps, (rule patient_after_call, simp add: patient_env_def store_env_def sound_client_def split: pvc_call.split sts_call.split svc_call.split pod_call.split, simp)+)

text \<open>
  C14: as long as the client returns objects and the volumes it lists are bound, no call of the
  plugin panics or gets stuck: from every reachable state of a live process, whatever requests it
  accepted, whatever the world it started in and whatever the other goroutines are doing, each call
  in flight can run to its answer with none of them moving.
\<close>

theorem plugin_calls_finish:
  assumes "poll_contract poll" and "plugin_reachable a poll d ok sound_client w0 s"
    and "pl_running s i = Some g" and "\<not> gs_fatal (pl_server s)"
  shows "go_rest g \<noteq> Panic \<and> (\<exists>t h out. plugin_steps a poll d ok sound_client s t \<and>
    pl_running t = (pl_running s)(i := None) \<and> pl_answers t = pl_answers s @ [(go_rpc g, go_calls g @ h, out)])"
proof -
  have free: "panic_free sound_client (go_rest g)" by (rule goroutine_panic_free [OF assms(1-3)])
  let ?run = "run patient_env (go_rest g) (pl_world s)"
  let ?h = "fst (snd ?run)" and ?w = "snd (snd ?run)"
  from panic_free_exec [OF run_exec free patient_env_sound] obtain out where "fst ?run = Done out"
    by (cases "fst ?run") auto
  with run_exec [of "go_rest g" patient_env "pl_world s"] have "residual (go_rest g) ?h (Return out)"
    by (simp add: exec_ends)
  let ?g = "g\<lparr>go_calls := go_calls g @ ?h, go_rest := Return out\<rparr>"
  let ?s = "s\<lparr>pl_world := ?w, pl_running := (pl_running s)(i \<mapsto> ?g)\<rparr>"
  have "plugin_steps a poll d ok sound_client s ?s"
    by (rule plugin_runs [OF assms(4,3)]) (fact, rule run_evolves [OF patient_env_truthful], rule patient_env_sound)
  moreover have "plugin_step a poll d ok sound_client ?s (answer_call i ?g out ?s)"
    by (rule call_answered) (simp_all add: assms(4))
  ultimately have "plugin_steps a poll d ok sound_client s (answer_call i ?g out ?s)" by (rule rtranclp.rtrancl_into_rtrancl)
  moreover have "pl_running (answer_call i ?g out ?s) = (pl_running s)(i := None)"
    "pl_answers (answer_call i ?g out ?s) = pl_answers s @ [(go_rpc g, go_calls g @ ?h, out)]"
    by (simp_all add: answer_call_def)
  moreover from free have "go_rest g \<noteq> Panic" by auto
  ultimately show ?thesis by blast
qed

text \<open>A static volume, whose claim is not named like it, is being published.\<close>

definition static_publish :: publish_request where
  "static_publish = demo_publish\<lparr>pub_VolumeId := ''static-1'',
     pub_VolumeContext := [(''dataVolumeClaim'', ''pvc-local''), (''dataNamespace'', ''ns'')]\<rparr>"

theorem plugin_calls_finish_witness:
  "\<exists>t h out. plugin_steps demo_args poll_once demo_driver (\<lambda>r. True) sound_client
     (begin_call poll_once demo_driver 0 (Volume (Publish static_publish)) (demo_plugin empty_world)) t \<and>
     pl_answers t = [(Volume (Publish static_publish), h, out)]"
proof -
  let ?r = "Volume (Publish static_publish)"
  let ?s = "begin_call poll_once demo_driver 0 ?r (demo_plugin empty_world)"
  let ?g = "\<lparr>go_rpc = ?r, go_calls = [], go_rest = handler poll_once demo_driver ?r\<rparr>"
  have "plugin_step demo_args poll_once demo_driver (\<lambda>r. True) sound_client (demo_plugin empty_world) ?s"
    by (rule call_accepted, rule demo_plugin_accepts) (simp_all add: demo_plugin_def start_plugin_def)
  with demo_plugin_reachable have reach: "plugin_reachable demo_args poll_once demo_driver (\<lambda>r. True) sound_client empty_world ?s"
    by (rule plugin_next)
  have "pl_running ?s 0 = Some ?g" "\<not> gs_fatal (pl_server ?s)" "pl_answers ?s = []"
    by (simp_all add: begin_call_def demo_plugin_def start_plugin_def demo_serving_def demo_listening_def Start_def
        NewNonBlockingGRPCServer_def del: handler.simps)
  with plugin_calls_finish [OF poll_once_contract reach this(1,2)] show ?thesis by (simp del: handler.simps) blast
qed

lemma fatal_steps:
  assumes "gs_fatal (pl_server s)" and "plugin_step a poll d ok C s t"
  shows "t = restart s"
  using assms(2)
proof cases
  case (server_steps g)
  from server_steps(2) assms(1) show ?thesis by cases simp_all
qed (use assms(1) in \<open>simp_all add: accepts_iff\<close>)

lemma exec_unpublish_unbound:
  assumes "unpub_VolumeId req \<noteq> []" "unpub_TargetPath req \<noteq> []"
    and "find (handles_volume (unpub_VolumeId req)) vs = Some pv" and "pv_ClaimRef pv = None"
  shows "exec (handler poll d (Volume (Unpublish req)))
    [EAct (CleanupMountPoint (unpub_TargetPath req) True) None, EListPVs (Some vs, None)] Panicked"
proof -
  have "exec (release_volume poll (unpub_VolumeId req)) [EListPVs (Some vs, None)] Panicked"
    using assms(3,4) by (simp add: release_volume_def getPvById_def prog_simps)
  with assms(1,2) show ?thesis by (simp add: responding_def exec_bind exec_NodeUnpublishVolume)
qed

text \<open>
  C20: one \<^verbatim>\<open>NodeUnpublishVolume\<close> of a volume that is not bound ends the whole plugin: from every
  state in which the request is accepted, whatever other calls are in flight, the plugin can come
  to a state in which its process is dead; all it can do then is start again, with every call that
  was in flight lost and none of them answered.
\<close>

theorem unbound_volume_ends_plugin:
  assumes "accepts s (Volume (Unpublish req))" and "ok (Volume (Unpublish req))" and "pl_running s i = None"
    and "unpub_VolumeId req \<noteq> []" "unpub_TargetPath req \<noteq> []"
    and "find (handles_volume (unpub_VolumeId req)) (w_volumes (pl_world s)) = Some pv" and "pv_ClaimRef pv = None"
  shows "\<exists>t. plugin_steps a poll d ok (\<lambda>e. True) s t \<and> gs_fatal (pl_server t) \<and> pl_answers t = pl_answers s \<and>
    (\<forall>t'. plugin_step a poll d ok (\<lambda>e. True) t t' \<longrightarrow> t' = restart t \<and> pl_running t' = Map.empty \<and> pl_answers t' = pl_answers s)"
proof -
  let ?C = "\<lambda>e :: event. True" and ?r = "Volume (Unpublish req)"
  let ?h = "[EAct (CleanupMountPoint (unpub_TargetPath req) True) None, EListPVs (Some (w_volumes (pl_world s)), None)]"
  let ?g = "\<lparr>go_rpc = ?r, go_calls = [], go_rest = handler poll d ?r\<rparr>"
  let ?s1 = "begin_call poll d i ?r s"
  let ?s2 = "?s1\<lparr>pl_world := rm_mount (unpub_TargetPath req) (pl_world s),
    pl_running := (pl_running ?s1)(i \<mapsto> ?g\<lparr>go_calls := go_calls ?g @ ?h, go_rest := Panic\<rparr>)\<rparr>"
  from assms(1) have alive: "\<not> gs_fatal (pl_server s)" by (simp add: accepts_iff)
  have 1: "plugin_step a poll d ok ?C s ?s1" using assms(1-3) by (rule call_accepted)
  have "residual (handler poll d ?r) ?h Panic"
    using exec_unpublish_unbound [OF assms(4-7)] by (simp only: exec_ends outcome.case)
  moreover have "evolves ?h (pl_world s) (rm_mount (unpub_TargetPath req) (pl_world s))" by (simp add: after_write_def)
  ultimately have 2: "plugin_steps a poll d ok ?C ?s1 ?s2"
    by (intro plugin_runs) (simp_all add: begin_call_def alive list_all_iff)
  have 3: "plugin_step a poll d ok ?C ?s2 (crash ?s2)"
    by (rule call_panics [where i = i and g = "?g\<lparr>go_calls := go_calls ?g @ ?h, go_rest := Panic\<rparr>"])
      (simp_all add: begin_call_def alive)
  from 1 2 3 have "plugin_steps a poll d ok ?C s (crash ?s2)" by (meson converse_rtranclp_into_rtranclp rtranclp.rtrancl_into_rtrancl)
  moreover have fatal: "gs_fatal (pl_server (crash ?s2))" by (simp add: crash_def)
  moreover have answers: "pl_answers (crash ?s2) = pl_answers s" by (simp add: crash_def begin_call_def)
  moreover have "t' = restart (crash ?s2) \<and> pl_running t' = Map.empty \<and> pl_answers t' = pl_answers s"
    if "plugin_step a poll d ok ?C (crash ?s2) t'" for t'
  proof -
    from fatal_steps [OF fatal that] have t': "t' = restart (crash ?s2)" .
    then show ?thesis by (simp add: restart_def crash_def begin_call_def)
  qed
  ultimately show ?thesis by blast
qed

definition unbound_pv :: pv where
  "unbound_pv = demo_pv\<lparr>pv_ClaimRef := None\<rparr>"

theorem unbound_volume_ends_plugin_witness:
  "\<exists>t. plugin_steps demo_args poll_once demo_driver demo_ok (\<lambda>e. True)
     (demo_plugin (empty_world\<lparr>w_volumes := [unbound_pv]\<rparr>)) t \<and> gs_fatal (pl_server t)"
proof -
  let ?s = "demo_plugin (empty_world\<lparr>w_volumes := [unbound_pv]\<rparr>)"
  have "find (handles_volume (unpub_VolumeId demo_unpublish)) (w_volumes (pl_world ?s)) = Some unbound_pv"
    "pv_ClaimRef unbound_pv = None"
    by (simp_all add: demo_plugin_def start_plugin_def unbound_pv_def demo_pv_def demo_unpublish_def handles_volume_def)
  moreover have "demo_ok (Volume (Unpublish demo_unpublish))" "pl_running ?s 0 = None"
    "unpub_VolumeId demo_unpublish \<noteq> []" "unpub_TargetPath demo_unpublish \<noteq> []"
    by (simp_all add: demo_plugin_def start_plugin_def demo_unpublish_def)
  ultimately show ?thesis
    using unbound_volume_ends_plugin [OF demo_plugin_accepts, of demo_ok demo_unpublish "empty_world\<lparr>w_volumes := [unbound_pv]\<rparr>"
      0 unbound_pv demo_args poll_once demo_driver] by blast
qed

end
