(* ===== verification/Deployment.thy ===== *)
theory Deployment
  imports Plugin_Properties Publish_Runs
begin

text \<open>
  The driver deployed: one plugin per node and one for the controller, all on the same cluster, each
  with the mounts of its own node.  What Plugin_Properties assumes of the plugins elsewhere is here
  what they do, so that their invariants hold together and none rests on another's.
\<close>

section \<open>States and steps\<close>

text \<open>What the plugin of another node sees when the cluster has become that of \<open>v\<close>.\<close>

definition see_cluster :: "world \<Rightarrow> plugin \<Rightarrow> plugin" where
  "see_cluster v s = s\<lparr>pl_world := v\<lparr>w_mounts := w_mounts (pl_world s)\<rparr>\<rparr>"

definition node_moves :: "nat \<Rightarrow> plugin \<Rightarrow> (nat \<Rightarrow> plugin) \<Rightarrow> nat \<Rightarrow> plugin" where
  "node_moves n t P = (\<lambda>m. if m = n then t else see_cluster (pl_world t) (P m))"

text \<open>
  Arguments, configuration and requests are each node's own; \<open>M n\<close> is what is mounted on node \<open>n\<close>
  at first.  The \<^const>\<open>outside\<close> changes of a step are left for users and the provisioner.
\<close>

inductive deployed ::
  "(nat \<Rightarrow> serve_args) \<Rightarrow> poller \<Rightarrow> (nat \<Rightarrow> driver) \<Rightarrow> (nat \<Rightarrow> rpc \<Rightarrow> bool) \<Rightarrow> (event \<Rightarrow> bool) \<Rightarrow>
     world \<Rightarrow> (nat \<Rightarrow> string set) \<Rightarrow> (nat \<Rightarrow> plugin) \<Rightarrow> bool"
  for a poll d ok C w0 M
where
  deploy: "deployed a poll d ok C w0 M (\<lambda>n. start_plugin (w0\<lparr>w_mounts := M n\<rparr>))"
| node_step: "deployed a poll d ok C w0 M P \<Longrightarrow> plugin_step (a n) poll (d n) (ok n) C (P n) t \<Longrightarrow>
     deployed a poll d ok C w0 M (node_moves n t P)"

definition same_cluster :: "world \<Rightarrow> world \<Rightarrow> bool" where
  "same_cluster v w \<longleftrightarrow> v\<lparr>w_mounts := w_mounts w\<rparr> = w"

lemma same_cluster_iff:
  "same_cluster v w \<longleftrightarrow> w_claims v = w_claims w \<and> w_backends v = w_backends w \<and>
     w_services v = w_services w \<and> w_volumes v = w_volumes w"
  unfolding same_cluster_def by (cases v, cases w) simp

lemma see_cluster_simps [simp]:
  "w_claims (pl_world (see_cluster v s)) = w_claims v" "w_backends (pl_world (see_cluster v s)) = w_backends v"
  "w_services (pl_world (see_cluster v s)) = w_services v" "w_volumes (pl_world (see_cluster v s)) = w_volumes v"
  "w_mounts (pl_world (see_cluster v s)) = w_mounts (pl_world s)" "pl_server (see_cluster v s) = pl_server s"
  "pl_running (see_cluster v s) = pl_running s" "pl_answers (see_cluster v s) = pl_answers s"
  by (simp_all add: see_cluster_def)

lemma see_cluster_twice: "see_cluster v (see_cluster u s) = see_cluster v s"
  by (simp add: see_cluster_def)

section \<open>What a step means for the others\<close>

text \<open>The guarantee of a plugin: its invariant kept, and the claims it has found.\<close>

lemma plugin_step_guarantee:
  assumes "poll_contract poll" and "\<And>r. ok r \<Longrightarrow> rpc_by_context V d r" and "plugin_step a poll d ok C s t"
    and "plugin_inv V a poll d ok C w0 s"
  shows "plugin_inv V a poll d ok C (pl_world s) t"
proof -
  from assms(4) have "plugin_inv V a poll d ok C (pl_world s) s" by (simp add: plugin_inv_def keeps_claims_def)
  with assms(1-3) show ?thesis by (rule plugin_inv_step)
qed

text \<open>It is all another plugin relies on.\<close>

lemma plugin_inv_rely:
  assumes "plugin_inv V a poll d ok C w0 s" and "world_inv V v" and "keeps_claims (pl_world s) v"
  shows "plugin_inv V a poll d ok C w0 (see_cluster v s)"
proof -
  from assms(3) have keeps: "keeps_claims (pl_world s) (pl_world (see_cluster v s))" by (simp add: keeps_claims_def)
  with assms(1) have "keeps_claims w0 (pl_world (see_cluster v s))"
    unfolding plugin_inv_def by (blast intro: keeps_claims_trans)
  moreover from assms(2) have "world_inv V (pl_world (see_cluster v s))" by (simp add: world_inv_def)
  moreover have "calls_made (see_cluster v s) = calls_made s" by (simp add: calls_made_def)
  ultimately show ?thesis using assms(1) keeps by (auto simp: plugin_inv_def serving_inv_def intro: sound_read_keeps)
qed

lemma plugin_inv_origin: "keeps_claims v w0 \<Longrightarrow> plugin_inv V a poll d ok C w0 s \<Longrightarrow> plugin_inv V a poll d ok C v s"
  by (auto simp: plugin_inv_def intro: keeps_claims_trans)

lemma deployed_inv:
  assumes "poll_contract poll" and "\<And>n r. ok n r \<Longrightarrow> rpc_by_context V (d n) r" and "world_inv V w0"
    and "deployed a poll d ok C w0 M P"
  shows "(\<forall>n. plugin_inv V (a n) poll (d n) (ok n) C w0 (P n)) \<and> (\<forall>n m. same_cluster (pl_world (P n)) (pl_world (P m)))"
  using assms(4)
proof (induction rule: deployed.induct)
  case deploy
  have "plugin_inv V (a n) poll (d n) (ok n) C w0 (start_plugin (w0\<lparr>w_mounts := M n\<rparr>))" for n
  proof (rule plugin_inv_origin [OF _ plugin_inv_start])
    show "keeps_claims w0 (w0\<lparr>w_mounts := M n\<rparr>)" by (simp add: keeps_claims_def)
    show "world_inv V (w0\<lparr>w_mounts := M n\<rparr>)" using assms(3) by (simp add: world_inv_def)
  qed
  then show ?case by (simp add: start_plugin_def same_cluster_iff)
next
  case (node_step P n t)
  then have inv: "plugin_inv V (a m) poll (d m) (ok m) C w0 (P m)" and same: "same_cluster (pl_world (P n)) (pl_world (P m))" for m
    by blast+
  from plugin_step_guarantee [OF assms(1,2) node_step.hyps(2) inv]
  have t: "plugin_inv V (a n) poll (d n) (ok n) C (pl_world (P n)) t" .
  then have world: "world_inv V (pl_world t)" and keeps: "keeps_claims (pl_world (P n)) (pl_world t)"
    by (simp_all add: plugin_inv_def)
  have "keeps_claims (pl_world (P m)) (pl_world t)" for m
    using same [of m] keeps by (simp add: same_cluster_iff keeps_claims_def)
  with plugin_inv_rely [OF inv world] have "plugin_inv V (a m) poll (d m) (ok m) C w0 (see_cluster (pl_world t) (P m))" for m
    by blast
  moreover from inv [of n] have "keeps_claims w0 (pl_world (P n))" by (simp add: plugin_inv_def)
  from plugin_inv_origin [OF this t] have "plugin_inv V (a n) poll (d n) (ok n) C w0 t" .
  ultimately show ?case by (auto simp: node_moves_def same_cluster_iff)
qed

section \<open>The claims of the whole cluster\<close>

text \<open>
  The volumes that are only ever published with the claim of their own name, as the volumes of
  \<^verbatim>\<open>CreateVolume\<close> are; a static volume may name any claim.
\<close>

definition publishes_own_claim :: "(nat \<Rightarrow> driver) \<Rightarrow> (nat \<Rightarrow> rpc \<Rightarrow> bool) \<Rightarrow> string \<Rightarrow> bool" where
  "publishes_own_claim d ok vid \<longleftrightarrow> (\<forall>n req p. ok n (Volume (Publish req)) \<longrightarrow> pub_VolumeId req = vid \<longrightarrow>
     publish_parse (d n) req = Inr p \<longrightarrow> pp_dataPVCName p = vid)"

lemma own_claims_by_context:
  assumes "\<And>vid. vid \<in> V \<Longrightarrow> publishes_own_claim d ok vid" and "ok n r"
  shows "rpc_by_context V (d n) r"
proof (cases r)
  case (Volume c)
  show ?thesis
  proof (cases c)
    case (Publish req)
    from assms(1) [of "pub_VolumeId req"] assms(2) show ?thesis
      by (auto simp: Volume Publish publishes_own_claim_def split: sum.split)
  qed (simp_all add: Volume)
qed simp_all

text \<open>
  C9: in a cluster where every node and the controller run the plugin, whatever RPCs each of them
  serves at once, however the calls of all of them interleave, and whichever of them panic, are
  killed and start again, all of them see the same claims, backends, services and volumes, and no
  claim in a named namespace is taken away; and the backend of every volume that is only published
  with the claim of its own name (those of \<^verbatim>\<open>CreateVolume\<close>; a static volume may name another) has that
  claim, if it had at first.  Side conditions: no volume has the attribute \<^verbatim>\<open>nfsNamespace\<close> (neither
  \<^verbatim>\<open>CreateVolume\<close> nor the static example sets it), and what users and the provisioner do in between is
  as \<^const>\<open>outside\<close> allows: they delete no claim, and stateful sets they add have the claim of their name.
\<close>

theorem cluster_keeps_claims:
  assumes "poll_contract poll" and "list_all spares_claims (w_volumes w0)" and "deployed a poll d ok C w0 M P"
  shows "{k \<in> w_claims w0. fst k \<noteq> []} \<subseteq> w_claims (pl_world (P n)) \<and> same_cluster (pl_world (P n)) (pl_world (P m)) \<and>
    (\<forall>vid. publishes_own_claim d ok vid \<and>
        (\<forall>ns. (ns, vid) \<in> w_backends w0 \<longrightarrow> ns \<noteq> [] \<and> (ns, vid) \<in> w_claims w0) \<longrightarrow>
      (\<forall>ns. (ns, vid) \<in> w_backends (pl_world (P n)) \<longrightarrow> (ns, vid) \<in> w_claims (pl_world (P n))))"
proof -
  define V where "V = {vid. publishes_own_claim d ok vid \<and>
      (\<forall>ns. (ns, vid) \<in> w_backends w0 \<longrightarrow> ns \<noteq> [] \<and> (ns, vid) \<in> w_claims w0)}"
  have "world_inv V w0" using assms(2) by (auto simp: world_inv_def V_def)
  moreover have "rpc_by_context V (d n) r" if "ok n r" for n r
    using own_claims_by_context [of V d ok] that by (auto simp: V_def)
  ultimately have inv: "\<forall>n. plugin_inv V (a n) poll (d n) (ok n) C w0 (P n)"
    and same: "same_cluster (pl_world (P n)) (pl_world (P m))"
    using deployed_inv [OF assms(1) _ _ assms(3), of V] by blast+
  from inv have world: "world_inv V (pl_world (P n))" and keeps: "keeps_claims w0 (pl_world (P n))"
    by (simp_all add: plugin_inv_def)
  from keeps have "{k \<in> w_claims w0. fst k \<noteq> []} \<subseteq> w_claims (pl_world (P n))" by (auto simp: keeps_claims_def)
  moreover from world have "(ns, vid) \<in> w_claims (pl_world (P n))"
    if "vid \<in> V" "(ns, vid) \<in> w_backends (pl_world (P n))" for vid ns
    using that by (auto simp: world_inv_def)
  ultimately show ?thesis using same by (simp add: V_def)
qed

text \<open>
  C11: what the plugins have answered holds in the cluster from then on.  In a deployment, with
  whatever calls in flight, crashes and restarts: an answered \<^verbatim>\<open>CreateVolume\<close> is the one its request
  determines, and if that has a namespace, its data claim is in the cluster as every plugin sees it;
  and for a publication that was answered with success the claim it was asked to export, own or
  static, is there too.  (Side conditions as for C9.)
\<close>

theorem answered_volumes_have_claims:
  assumes "poll_contract poll" and "list_all spares_claims (w_volumes w0)" and "deployed a poll d ok C w0 M P"
  shows "(\<forall>req tr resp. (Volume (Create req), tr, Inr resp) \<in> set (pl_answers (P n)) \<longrightarrow>
      (\<exists>p. create_parse req = Inr p \<and> resp = CreatedVolume (create_answer (req_Name req) p) \<and>
         (cp_nfsPVCNamespace p \<noteq> [] \<longrightarrow>
            (cp_nfsPVCNamespace p, volume_id (req_Name req)) \<in> w_claims (pl_world (P m))))) \<and>
    (\<forall>req tr resp. (Volume (Publish req), tr, Inr resp) \<in> set (pl_answers (P n)) \<longrightarrow>
      (\<exists>p. publish_parse (d n) req = Inr p \<and> (pp_dataNamespace p, pp_dataPVCName p) \<in> w_claims (pl_world (P m))))"
proof (intro conjI allI impI)
  have "world_inv {} w0" using assms(2) by (simp add: world_inv_def)
  moreover have "rpc_by_context {} (d n) r" for n r using own_claims_by_context [of "{}" d "\<lambda>n r. True"] by simp
  ultimately have inv: "plugin_inv {} (a n) poll (d n) (ok n) C w0 (P n)"
    and same: "same_cluster (pl_world (P n)) (pl_world (P m))"
    using deployed_inv [OF assms(1) _ _ assms(3), of "{}"] by blast+
  have run: "exec (handler poll (d n) r) tr (Done (Inr resp)) \<and> (\<forall>e \<in> set tr. sound_read (pl_world (P m)) e)"
    if "(r, tr, Inr resp) \<in> set (pl_answers (P n))" for r tr resp
  proof -
    from that have "set tr \<subseteq> calls_made (P n)" by (auto simp: calls_made_def)
    with inv have "\<forall>e \<in> set tr. sound_read (pl_world (P n)) e" by (auto simp: plugin_inv_def)
    moreover have "keeps_claims (pl_world (P n)) (pl_world (P m))"
      using same by (simp add: same_cluster_iff keeps_claims_def)
    ultimately have "\<forall>e \<in> set tr. sound_read (pl_world (P m)) e" by (auto intro: sound_read_keeps)
    with inv that show ?thesis by (auto simp: plugin_inv_def serving_inv_def list_all_iff)
  qed
  {
    fix req tr resp
    assume "(Volume (Create req), tr, Inr resp) \<in> set (pl_answers (P n))"
    from run [OF this] obtain vol where ex: "exec (CreateVolume req) tr (Done (Inr vol))" and resp: "resp = CreatedVolume vol"
      and sound: "\<forall>e \<in> set tr. sound_read (pl_world (P m)) e"
      by (auto simp: responding_result)
    from ex obtain p where p: "create_parse req = Inr p" by (auto simp: exec_CreateVolume split: sum.splits)
    from create_ensured [OF p ex] sound
    have "cp_nfsPVCNamespace p \<noteq> [] \<longrightarrow> (cp_nfsPVCNamespace p, volume_id (req_Name req)) \<in> w_claims (pl_world (P m))"
      by (fastforce simp: dataPVCDef_def)
    with p create_ensured [OF p ex] resp
    show "\<exists>p. create_parse req = Inr p \<and> resp = CreatedVolume (create_answer (req_Name req) p) \<and>
         (cp_nfsPVCNamespace p \<noteq> [] \<longrightarrow>
            (cp_nfsPVCNamespace p, volume_id (req_Name req)) \<in> w_claims (pl_world (P m)))" by blast
  next
    fix req tr resp
    assume "(Volume (Publish req), tr, Inr resp) \<in> set (pl_answers (P n))"
    from run [OF this] obtain u where ex: "exec (NodePublishVolume poll (d n) req) tr (Done (Inr u))"
      and sound: "\<forall>e \<in> set tr. sound_read (pl_world (P m)) e"
      by (auto simp: responding_result)
    from publish_read_claim [OF ex] obtain p pvc where p: "publish_parse (d n) req = Inr p"
      and "EPvc (GetPVC (pp_dataNamespace p) (pp_dataPVCName p)) (Some pvc, None) \<in> set tr" .
    with sound publish_parse_fields [OF p] have "(pp_dataNamespace p, pp_dataPVCName p) \<in> w_claims (pl_world (P m))"
      by fastforce
    with p show "\<exists>p. publish_parse (d n) req = Inr p \<and> (pp_dataNamespace p, pp_dataPVCName p) \<in> w_claims (pl_world (P m))"
      by blast
  }
qed

lemma deployed_steps:
  assumes "deployed a poll d ok C w0 M P" and "plugin_steps (a n) poll (d n) (ok n) C (P n) t"
    and "P = node_moves n (P n) P"
  shows "deployed a poll d ok C w0 M (node_moves n t P)"
  using assms(2)
proof (induction rule: rtranclp_induct)
  case base
  with assms(1,3) show ?case by simp
next
  case (step s t)
  have "node_moves n t (node_moves n s P) = node_moves n t P" by (auto simp: node_moves_def see_cluster_twice)
  with node_step [OF step.IH, of n t] step.hyps(2) show ?case by (simp add: node_moves_def)
qed

lemma reachable_steps: "plugin_reachable a poll d ok C w0 s \<Longrightarrow> plugin_steps a poll d ok C (start_plugin w0) s"
  by (induction rule: plugin_reachable.induct) (auto intro: rtranclp.rtrancl_into_rtrancl)

text \<open>Node 0 publishes the volume and dies; node 1 sees the backend, its claim, and no mount.\<close>

theorem cluster_keeps_claims_witness:
  "let P = node_moves 0 (restart demo_served) (\<lambda>n. start_plugin (add_claim demo_key empty_world)) in
   demo_key \<in> w_backends (pl_world (P 1)) \<and> demo_key \<in> w_claims (pl_world (P 1)) \<and> w_mounts (pl_world (P 1)) = {}"
proof -
  let ?w0 = "add_claim demo_key empty_world" and ?ok = "\<lambda>n :: nat. demo_ok"
  let ?P = "node_moves 0 (restart demo_served) (\<lambda>n. start_plugin ?w0)"
  have w0: "?w0\<lparr>w_mounts := {}\<rparr> = ?w0" by (simp add: empty_world_def world_defs)
  from plugin_next [OF demo_served_reachable process_restarts]
  have steps: "plugin_steps demo_args poll_once demo_driver demo_ok (\<lambda>e. True) (start_plugin ?w0) (restart demo_served)"
    by (rule reachable_steps)
  have "deployed (\<lambda>n. demo_args) poll_once (\<lambda>n. demo_driver) ?ok (\<lambda>e. True) ?w0 (\<lambda>n. {}) ?P"
    by (rule deployed_steps [OF deploy [of "\<lambda>n. demo_args" poll_once "\<lambda>n. demo_driver" ?ok "\<lambda>e. True" ?w0 "\<lambda>n. {}", unfolded w0] steps])
      (auto simp: node_moves_def see_cluster_def start_plugin_def)
  moreover have "list_all spares_claims (w_volumes ?w0)" by (simp add: empty_world_def)
  moreover have "publishes_own_claim (\<lambda>n. demo_driver) ?ok ''nfs-1''" by (auto simp: publishes_own_claim_def)
  ultimately have keeps: "demo_key \<in> w_backends (pl_world (?P 1)) \<longrightarrow> demo_key \<in> w_claims (pl_world (?P 1))"
    using cluster_keeps_claims [OF poll_once_contract, of ?w0 "\<lambda>n. demo_args" "\<lambda>n. demo_driver" ?ok "\<lambda>e. True" "\<lambda>n. {}" ?P 1 0]
    by (simp add: demo_key_def empty_world_def)
  have "w_backends (pl_world (restart demo_served)) = {demo_key}"
    using demo_stored by (auto simp: restart_def demo_served_def serve_store_def demo_plugin_def start_plugin_def empty_world_def prod_eq_iff)
  then have "demo_key \<in> w_backends (pl_world (?P 1))" by (simp add: node_moves_def)
  moreover have "w_mounts (pl_world (?P 1)) = {}"
    by (simp add: node_moves_def start_plugin_def empty_world_def world_defs)
  ultimately show ?thesis using keeps by (auto simp: Let_def)
qed

text \<open>Node 0 creates the volume and dies; node 1 sees the claim.\<close>

definition created_plugin :: plugin where
  "created_plugin = (let r = Volume (Create demo_create); ran = run store_env (handler poll_once demo_driver r) empty_world
     in (demo_plugin empty_world)\<lparr>pl_world := snd (snd ran),
       pl_answers := [(r, fst (snd ran), Inr (CreatedVolume (create_answer ''pvc-1'' demo_create_params)))]\<rparr>)"

lemma created_plugin_steps:
  "plugin_steps demo_args poll_once demo_driver (\<lambda>r. True) (\<lambda>e. True) (start_plugin empty_world) created_plugin"
proof -
  let ?r = "Volume (Create demo_create)" and ?s = "demo_plugin empty_world"
  let ?run = "run store_env (handler poll_once demo_driver ?r) empty_world"
  have "fst ?run = Done (Inr (CreatedVolume (create_answer ''pvc-1'' demo_create_params)))" by code_simp
  then have "exec (handler poll_once demo_driver ?r) (fst (snd ?run))
      (Done (Inr (CreatedVolume (create_answer ''pvc-1'' demo_create_params))))"
    using run_exec [of "handler poll_once demo_driver ?r" store_env empty_world] by simp
  moreover have "evolves (fst (snd ?run)) (pl_world ?s) (snd (snd ?run))"
    using run_evolves [OF store_env_truthful] by (simp add: demo_plugin_def start_plugin_def)
  ultimately have "plugin_steps demo_args poll_once demo_driver (\<lambda>r. True) (\<lambda>e. True) ?s created_plugin"
    using plugin_serves [OF demo_plugin_accepts, of "\<lambda>r. True" ?r empty_world 0 poll_once demo_driver _ _ _ "\<lambda>e. True" demo_args]
    by (simp add: created_plugin_def demo_plugin_def start_plugin_def list_all_iff Let_def del: handler.simps)
  with reachable_steps [OF demo_plugin_reachable] show ?thesis by (rule rtranclp_trans)
qed

theorem answered_volumes_have_claims_witness:
  "demo_key \<in> w_claims (pl_world (node_moves 0 (restart created_plugin) (\<lambda>n. start_plugin empty_world) 1))"
proof -
  let ?ok = "\<lambda>(n :: nat) r. True" and ?P = "node_moves 0 (restart created_plugin) (\<lambda>n. start_plugin empty_world)"
  let ?answer = "CreatedVolume (create_answer ''pvc-1'' demo_create_params)"
  have w0: "empty_world\<lparr>w_mounts := {}\<rparr> = empty_world" by (simp add: empty_world_def)
  from created_plugin_steps process_restarts
  have "plugin_steps demo_args poll_once demo_driver (\<lambda>r. True) (\<lambda>e. True) (start_plugin empty_world) (restart created_plugin)"
    by (rule rtranclp.rtrancl_into_rtrancl)
  then have "deployed (\<lambda>n. demo_args) poll_once (\<lambda>n. demo_driver) ?ok (\<lambda>e. True) empty_world (\<lambda>n. {}) ?P"
    by (intro deployed_steps [OF deploy [of "\<lambda>n. demo_args" poll_once "\<lambda>n. demo_driver" ?ok "\<lambda>e. True" empty_world "\<lambda>n. {}", unfolded w0]])
      (auto simp: node_moves_def see_cluster_def start_plugin_def)
  from answered_volumes_have_claims [OF poll_once_contract _ this, of 0 1]
  have "\<forall>req tr resp. (Volume (Create req), tr, Inr resp) \<in> set (pl_answers (?P 0)) \<longrightarrow>
      (\<exists>p. create_parse req = Inr p \<and> resp = CreatedVolume (create_answer (req_Name req) p) \<and>
         (cp_nfsPVCNamespace p \<noteq> [] \<longrightarrow> (cp_nfsPVCNamespace p, volume_id (req_Name req)) \<in> w_claims (pl_world (?P 1))))"
    by (simp add: empty_world_def)
  moreover have "(Volume (Create demo_create), fst (snd (run store_env (handler poll_once demo_driver (Volume (Create demo_create))) empty_world)), Inr ?answer)
      \<in> set (pl_answers (?P 0))"
    by (simp add: node_moves_def restart_def created_plugin_def Let_def del: handler.simps)
  ultimately obtain p where "create_parse demo_create = Inr p"
    "cp_nfsPVCNamespace p \<noteq> [] \<longrightarrow> (cp_nfsPVCNamespace p, volume_id (req_Name demo_create)) \<in> w_claims (pl_world (?P 1))"
    by blast
  moreover have "cp_nfsPVCNamespace demo_create_params = ''ns''" "volume_id (req_Name demo_create) = ''nfs-1''" by code_simp+
  ultimately show ?thesis using demo_create_parse by (simp add: demo_key_def)
qed

end
