(* ===== verification/Backend_Safety.thy ===== *)
theory Backend_Safety
  imports Deployment
begin

text \<open>
  Who takes a backend away: the guards of the handlers, carried to the goroutines of
  every plugin deployed, single out the one call of the one RPC that removes a stateful set, and what its
  goroutine has seen before.
\<close>

text \<open>A stateful set is deleted only while unpublishing, after the clean-up and a listing without users.\<close>

fun deletion_guard :: "rpc \<Rightarrow> event list \<Rightarrow> event \<Rightarrow> bool" where
  "deletion_guard r h (EAct (DeleteSTS ns n) x) =
     (\<exists>req. r = Volume (Unpublish req) \<and> n = unpub_VolumeId req \<and>
        EAct (CleanupMountPoint (unpub_TargetPath req) True) None \<in> set h \<and> volume_released n ns h)"
| "deletion_guard r h e = True"

fun deletes_sts :: "event \<Rightarrow> bool" where
  "deletes_sts (EAct (DeleteSTS ns n) x) = True"
| "deletes_sts e = False"

lemma deletion_guard_other: "\<not> deletes_sts e \<Longrightarrow> deletion_guard r h e"
  by (cases "(r, h, e)" rule: deletion_guard.cases) simp_all

lemma guarded_harmless: "emits (\<lambda>e. \<not> deletes_sts e) p \<Longrightarrow> guarded (deletion_guard r) p []"
  by (erule guarded_emits, rule deletion_guard_other)

lemma create_deletes_none: "emits (\<lambda>e. \<not> deletes_sts e) (CreateVolume req)"
  by (auto simp: CreateVolume_def create_volume_def choose_storage_class_def ensure_data_pvc_def Let_def
      intro!: emits_intros split: option.split sum.split)

lemma delete_deletes_none: "emits (\<lambda>e. \<not> deletes_sts e) (DeleteVolume vid)"
  by (auto simp: DeleteVolume_def Let_def intro!: emits_intros getPvById_emits split: sum.split)

lemma stats_delete_none: "emits (\<lambda>e. \<not> deletes_sts e) (NodeGetVolumeStats vid path)"
  by (auto simp: NodeGetVolumeStats_def deref_def split: option.split)

lemma deletion_publish:
  assumes "poll_contract poll"
  shows "guarded (deletion_guard r) (NodePublishVolume poll d req) []"
proof (cases "publish_parse d req")
  case (Inl e)
  then show ?thesis by (simp add: NodePublishVolume_def)
next
  case (Inr p)
  have "deletion_guard r h e" if "publish_permits p (pub_VolumeId req) (pub_TargetPath req) h e" for h e
    using that by (cases "(r, h, e)" rule: deletion_guard.cases) auto
  with permits_NodePublishVolume [OF assms Inr] show ?thesis by (auto intro: guarded_mono)
qed

lemma deletion_unpublish:
  assumes "poll_contract poll"
  shows "guarded (deletion_guard (Volume (Unpublish req))) (NodeUnpublishVolume poll req) []"
proof -
  have "deletion_guard (Volume (Unpublish req)) h e" if "unpublish_permits req h e" for h e
    using that by (cases "(Volume (Unpublish req), h, e)" rule: deletion_guard.cases) auto
  with permits_NodeUnpublishVolume [OF assms] show ?thesis by (auto intro: guarded_mono)
qed

lemma deletion_handler:
  assumes "poll_contract poll"
  shows "guarded (deletion_guard r) (handler poll d r) []"
proof (cases r)
  case (Volume c)
  then show ?thesis
    by (cases c) (simp_all add: guarded_responding deletion_publish [OF assms] deletion_unpublish [OF assms]
        guarded_harmless create_deletes_none delete_deletes_none)
qed (simp_all add: guarded_responding guarded_harmless stats_delete_none)

text \<open>Of the documented effects only that call's takes a backend away.\<close>

lemma effect_removes:
  assumes "effect e u w" and "k \<in> w_backends u" and "k \<notin> w_backends w"
  shows "\<exists>x. e = EAct (DeleteSTS (fst k) (snd k)) x"
  using assms by (cases "(e, u, w)" rule: effect.cases) (auto simp: after_write_def)

section \<open>The goroutines of the plugins\<close>

text \<open>Each goroutine is somewhere in a run of its handler, whatever the requests and the answers are.\<close>

lemma serving_deployed: "deployed a poll d ok C w0 M P \<Longrightarrow> serving_inv (a n) poll (d n) (ok n) C (P n)"
proof (induction arbitrary: n rule: deployed.induct)
  case deploy
  show ?case by (rule serving_inv_start)
next
  case (node_step P m t)
  from serving_inv_step [OF node_step.hyps(2) node_step.IH] node_step.IH [of n] show ?case
    by (cases "n = m") (simp_all add: node_moves_def serving_inv_def)
qed

text \<open>
  C10: no plugin takes the backend of a volume away but in a call of \<^verbatim>\<open>NodeUnpublishVolume\<close> for that
  volume, whose goroutine has by then cleaned its target up, found the volume in a listing and, in
  a listing of the pods of the volume's claim, none that uses it (or the volume names no claim):
  whichever goroutine of whichever plugin of a deployment makes the next call, with whatever else
  in flight and whatever world it finds, if a backend is there before that call and gone after it,
  it is such a goroutine.
\<close>

theorem backend_removed_only_unused:
  assumes "poll_contract poll" and "deployed a poll d ok C w0 M P" and "pl_running (P n) i = Some g"
    and "prog_step (go_rest g) e q" and "effect e u w" and "k \<in> w_backends u" and "k \<notin> w_backends w"
  shows "\<exists>req. go_rpc g = Volume (Unpublish req) \<and> e \<in> range (EAct (DeleteSTS (fst k) (unpub_VolumeId req))) \<and>
    snd k = unpub_VolumeId req \<and> EAct (CleanupMountPoint (unpub_TargetPath req) True) None \<in> set (go_calls g) \<and>
    volume_released (unpub_VolumeId req) (fst k) (go_calls g)"
proof -
  from effect_removes [OF assms(5-7)] obtain x where e: "e = EAct (DeleteSTS (fst k) (snd k)) x" by blast
  from serving_deployed [OF assms(2), of n] assms(3)
  have "residual (handler poll (d n) (go_rpc g)) (go_calls g) (go_rest g)" by (simp add: serving_inv_def call_inv_def)
  from residual_guarded [OF this deletion_handler [OF assms(1)]]
  have "guarded (deletion_guard (go_rpc g)) (go_rest g) (go_calls g)" by simp
  from guarded_step [OF assms(4) this] have "deletion_guard (go_rpc g) (go_calls g) e" by simp
  with e show ?thesis by auto
qed

text \<open>A plugin about to delete the backend of the demonstration volume.\<close>

definition last_calls :: "event list" where
  "last_calls = [EAct (CleanupMountPoint ''/t'' True) None, EListPVs (Some [demo_pv], None), EListPods ''ns'' (Some [], None)]"

theorem backend_removed_only_unused_witness:
  "volume_released ''nfs-1'' ''ns'' last_calls"
proof -
  let ?w0 = "(add_backend demo_key (add_claim demo_key empty_world))\<lparr>w_volumes := [demo_pv]\<rparr>"
  let ?r = "Volume (Unpublish demo_unpublish)" and ?e = "EAct (DeleteSTS ''ns'' ''nfs-1'') None"
  let ?p = "handler poll_once demo_driver ?r"
  let ?tr = "fst (snd (run store_env ?p ?w0))"
  have "take 4 ?tr = last_calls @ [?e]" by code_simp
  then have "?tr = last_calls @ ?e # drop 4 ?tr" by (metis append.assoc append_Cons append_Nil append_take_drop_id)
  with run_exec [of ?p store_env ?w0] have "exec ?p (last_calls @ ?e # drop 4 ?tr) (fst (run store_env ?p ?w0))" by simp
  then obtain q q' where q: "residual ?p last_calls q" "prog_step q ?e q'" by (auto simp: exec_residual exec_Cons_iff)
  let ?g = "\<lparr>go_rpc = ?r, go_calls = [], go_rest = ?p\<rparr>"
  let ?s0 = "demo_plugin ?w0" and ?g' = "?g\<lparr>go_calls := go_calls ?g @ last_calls, go_rest := q\<rparr>"
  let ?s1 = "begin_call poll_once demo_driver 0 ?r ?s0"
  let ?s2 = "?s1\<lparr>pl_world := ?w0, pl_running := (pl_running ?s1)(0 \<mapsto> ?g')\<rparr>"
  have "plugin_step demo_args poll_once demo_driver (\<lambda>r. True) (\<lambda>e. True) ?s0 ?s1"
    by (rule call_accepted [OF demo_plugin_accepts]) (simp_all add: demo_plugin_def start_plugin_def)
  moreover have "plugin_steps demo_args poll_once demo_driver (\<lambda>r. True) (\<lambda>e. True) ?s1 ?s2"
  proof (rule plugin_runs)
    show "residual (go_rest ?g) last_calls q" using q(1) by simp
    show "evolves last_calls (pl_world ?s1) ?w0"
      by (simp add: last_calls_def begin_call_def demo_plugin_def start_plugin_def after_write_def world_defs empty_world_def)
  qed (simp_all add: begin_call_def demo_plugin_def start_plugin_def demo_serving_def demo_listening_def Start_def
      NewNonBlockingGRPCServer_def list_all_iff del: handler.simps)
  ultimately have "plugin_steps demo_args poll_once demo_driver (\<lambda>r. True) (\<lambda>e. True) (start_plugin ?w0) ?s2"
    using reachable_steps [OF demo_plugin_reachable] by (meson converse_rtranclp_into_rtranclp rtranclp_trans)
  moreover have w0: "?w0\<lparr>w_mounts := {}\<rparr> = ?w0" by (simp add: empty_world_def world_defs)
  ultimately have "deployed (\<lambda>n. demo_args) poll_once (\<lambda>n. demo_driver) (\<lambda>n r. True) (\<lambda>e. True) ?w0 (\<lambda>n. {})
      (node_moves 0 ?s2 (\<lambda>n. start_plugin ?w0))"
    by (intro deployed_steps [OF deploy [of "\<lambda>n. demo_args" poll_once "\<lambda>n. demo_driver" "\<lambda>n r. True" "\<lambda>e. True" ?w0 "\<lambda>n. {}", unfolded w0]])
      (auto simp: node_moves_def see_cluster_def start_plugin_def)
  moreover have "pl_running (node_moves 0 ?s2 (\<lambda>n. start_plugin ?w0) 0) 0 = Some ?g'" by (simp add: node_moves_def)
  moreover have "prog_step (go_rest ?g') ?e q'" using q(2) by simp
  ultimately have "\<exists>req. go_rpc ?g' = Volume (Unpublish req) \<and> volume_released (unpub_VolumeId req) (fst demo_key) (go_calls ?g')"
    using backend_removed_only_unused [OF poll_once_contract, where e = ?e and k = demo_key and u = ?w0 and w = "rm_backend demo_key ?w0"]
    by (fastforce simp: after_write_def demo_key_def simp del: handler.simps)
  then show ?thesis by (simp add: demo_key_def demo_unpublish_def)
qed

end
