(* ===== verification/Healthy_Runs.thy ===== *)
theory Healthy_Runs
  imports Cluster_System
begin

text \<open>
  Success: against a healthy cluster and node every valid RPC is answered without an error; for
  publishing the node has to be the one that hosts the volume's backend pod.
\<close>

section \<open>What every run of a program ends with\<close>

text \<open>
  \<^verbatim>\<open>always C Q p\<close>: when every answer satisfies \<open>C\<close>, the program ends without a panic and with a
  result in \<open>Q\<close>.
\<close>

primrec always :: "(event \<Rightarrow> bool) \<Rightarrow> ('a \<Rightarrow> bool) \<Rightarrow> 'a prog \<Rightarrow> bool" where
  "always C Q (Return a) = Q a"
| "always C Q Panic = False"
| "always C Q (Act c k) = (\<forall>r. C (EAct c r) \<longrightarrow> always C Q (k r))"
| "always C Q (PvcCall c k) = (\<forall>r. C (EPvc c r) \<longrightarrow> always C Q (k r))"
| "always C Q (StsCall c k) = (\<forall>r. C (ESts c r) \<longrightarrow> always C Q (k r))"
| "always C Q (SvcCall c k) = (\<forall>r. C (ESvc c r) \<longrightarrow> always C Q (k r))"
| "always C Q (PodCall c k) = (\<forall>r. C (EPod c r) \<longrightarrow> always C Q (k r))"
| "always C Q (ListPVCs ns k) = (\<forall>r. C (EListPVCs ns r) \<longrightarrow> always C Q (k r))"
| "always C Q (ListPVs k) = (\<forall>r. C (EListPVs r) \<longrightarrow> always C Q (k r))"
| "always C Q (ListSCs k) = (\<forall>r. C (EListSCs r) \<longrightarrow> always C Q (k r))"
| "always C Q (ListPods ns k) = (\<forall>r. C (EListPods ns r) \<longrightarrow> always C Q (k r))"
| "always C Q (MountQuery q k) = (\<forall>r. C (EMountQuery q r) \<longrightarrow> always C Q (k r))"
| "always C Q (ReadDir d k) = (\<forall>r. C (EReadDir d r) \<longrightarrow> always C Q (k r))"
| "always C Q (Lstat d k) = (\<forall>r. C (ELstat d r) \<longrightarrow> always C Q (k r))"
| "always C Q (Stat d k) = (\<forall>r. C (EStat d r) \<longrightarrow> always C Q (k r))"
| "always C Q (Getenv n k) = (\<forall>r. C (EGetenv n r) \<longrightarrow> always C Q (k r))"
| "always C Q (TcpProbe a t k) = (\<forall>r. C (ETcpProbe a t r) \<longrightarrow> always C Q (k r))"
| "always C Q (StatFS p k) = (\<forall>r. C (EStatFS p r) \<longrightarrow> always C Q (k r))"

lemma always_exec: "exec p tr out \<Longrightarrow> always C Q p \<Longrightarrow> list_all C tr \<Longrightarrow> \<exists>a. out = Done a \<and> Q a"
  by (induction rule: exec.induct) (simp_all del: split_paired_All)

lemma always_traces:
  "(\<And>tr out. exec p tr out \<Longrightarrow> list_all C tr \<Longrightarrow> \<exists>a. out = Done a \<and> Q a) \<Longrightarrow> always C Q p"
proof (induction p)
  case (Return a)
  then show ?case by (auto simp: prog_simps)
next
  case Panic
  then show ?case by (auto simp: prog_simps)
qed (unfold always.simps, (intro allI impI,
    metis exec.intros list.pred_inject(2) rangeI)+)

lemma always_bind:
  assumes "always C R p" and "\<And>a. R a \<Longrightarrow> always C Q (f a)"
  shows "always C Q (bind p f)"
  using assms by (induction p) simp_all

lemma always_mono: "always C Q p \<Longrightarrow> (\<And>e. D e \<Longrightarrow> C e) \<Longrightarrow> always D Q p"
  by (induction p) simp_all

lemma always_attempt:
  assumes "always C (\<lambda>r. \<exists>a. r = Inr a \<and> R a) p" and "\<And>a. R a \<Longrightarrow> always C Q (f a)"
  shows "always C Q (attempt p f)"
  unfolding attempt_def by (rule always_bind [OF assms(1)]) (auto simp: assms(2))

lemma always_poll:
  assumes "poll_contract poll" and "always C (\<lambda>(ok, err). ok \<and> err = None) cond"
  shows "always C (\<lambda>r. r = None) (poll i t cond)"
proof (rule always_traces)
  fix tr out
  assume ex: "exec (poll i t cond) tr out" and C: "list_all C tr"
  show "\<exists>a. out = Done a \<and> a = None"
  proof (cases out)
    case (Done r)
    with ex assms(1) obtain rounds final ok err where "tr = concat rounds @ final"
      and final: "exec cond final (Done (ok, err))" and r: "r = poll_verdict ok err"
      by (elim poll_contractE) simp
    with C have "list_all C final" by simp
    from always_exec [OF final assms(2) this] r Done show ?thesis by (simp add: poll_verdict_def)
  next
    case Panicked
    with ex assms(1) obtain rounds final where "tr = concat rounds @ final" and final: "exec cond final Panicked"
      unfolding poll_contract_def by fastforce
    with C have "list_all C final" by simp
    from always_exec [OF final assms(2) this] show ?thesis by simp
  qed
qed

lemma always_poll_returns:
  assumes "poll_contract poll" and "always C (\<lambda>_. True) cond"
  shows "always C (\<lambda>_. True) (poll i t cond)"
proof (rule always_traces)
  fix tr out
  assume ex: "exec (poll i t cond) tr out" and C: "list_all C tr"
  show "\<exists>a. out = Done a \<and> True"
  proof (cases out)
    case Panicked
    with ex assms(1) obtain rounds final where "tr = concat rounds @ final" and final: "exec cond final Panicked"
      unfolding poll_contract_def by fastforce
    with C have "list_all C final" by simp
    from always_exec [OF final assms(2) this] show ?thesis by simp
  qed simp
qed

section \<open>Healthy answers\<close>

text \<open>
  For a volume, \<^verbatim>\<open>healthy\<close> says: reads find what is there or say that it is not, creations,
  directory, mount and mode operations succeed, an answered address has its port open, pods are
  answered as objects (in whatever phase), listings that are answered have items, and the listed
  volume with this handle is bound.
\<close>

fun healthy :: "string \<Rightarrow> event \<Rightarrow> bool" where
  "healthy vid (EPvc (GetPVC ns n) (obj, err)) = (err = None \<longrightarrow> obj \<noteq> None)"
| "healthy vid (EPvc (CreatePVC ns d) (obj, err)) = (obj \<noteq> None \<and> err = None)"
| "healthy vid (ESts (GetSTS ns n) r) = True"
| "healthy vid (ESts (CreateSTS ns d) (obj, err)) = (err = None)"
| "healthy vid (ESvc (GetSVC ns n) (obj, err)) = (err = None \<longrightarrow> obj \<noteq> None)"
| "healthy vid (ESvc (CreateSVC ns d) (obj, err)) = (obj \<noteq> None \<and> err = None)"
| "healthy vid (EPod (GetPod ns n) (obj, err)) = (obj \<noteq> None)"
| "healthy vid (EMountQuery (IsLikelyNotMountPoint t) (b, err)) = (case err of None \<Rightarrow> True | Some e \<Rightarrow> IsNotExist e)"
| "healthy vid (EAct (Mount s t f opts) err) = (err = None)"
| "healthy vid (EAct (MkdirAll t m) err) = (err = None)"
| "healthy vid (EAct (Chmod t m) err) = (err = None)"
| "healthy vid (EAct (CleanupMountPoint t ext) err) = (err = None)"
| "healthy vid (ELstat t (info, err)) = (err = None)"
| "healthy vid (ETcpProbe a t (res, err)) = (res = ProbeSuccess \<and> err = None)"
| "healthy vid (EListPVs (obj, err)) = (case obj of None \<Rightarrow> err \<noteq> None
     | Some pvs \<Rightarrow> list_all (\<lambda>pv. handles_volume vid pv \<longrightarrow> pv_ClaimRef pv \<noteq> None) pvs)"
| "healthy vid (EListSCs (obj, err)) = (err = None \<longrightarrow> obj \<noteq> None)"
| "healthy vid (EListPods ns (obj, err)) = (obj \<noteq> None)"
| "healthy vid e = True"

text \<open>
  What publishing needs besides: the data claim is there, the backend pod is Running, and its
  volume directory can be read, so that the node hosts the pod (without the directory an NFS mount
  is answered with an error, see \<^verbatim>\<open>Publish_Remote\<close>).  The application pod may be in any phase.
\<close>

fun hosting :: "string \<Rightarrow> event \<Rightarrow> bool" where
  "hosting vid (EPvc (GetPVC ns n) (obj, err)) = (err = None)"
| "hosting vid (EPod (GetPod ns n) (obj, err)) = (n = vid @ ''-0'' \<longrightarrow>
     err = None \<and> (case obj of None \<Rightarrow> False | Some p \<Rightarrow> pod_Phase p = PodRunning))"
| "hosting vid (EReadDir d (ds, err)) = (err = None)"
| "hosting vid e = True"

definition ready :: "string \<Rightarrow> event \<Rightarrow> bool" where
  "ready vid e \<longleftrightarrow> healthy vid e \<and> hosting vid e"

lemma always_ready: "always (healthy vid) Q p \<Longrightarrow> always (ready vid) Q p"
  by (erule always_mono) (simp add: ready_def)

lemma ready_wait_pod:
  "poll_contract poll \<Longrightarrow> always (ready vid) (\<lambda>r. r = None) (waitForPodRunning poll ns (vid @ ''-0'') t)"
  unfolding waitForPodRunning_def
  by (rule always_poll) (auto simp: isPodRunning_def deref_def ready_def split: option.splits)

lemma healthy_wait_pod: "poll_contract poll \<Longrightarrow> always (healthy vid) (\<lambda>_. True) (waitForPodRunning poll ns n t)"
  unfolding waitForPodRunning_def
  by (rule always_poll_returns) (auto simp: isPodRunning_def deref_def split: option.splits pod_phase.split)

lemma healthy_wait_tcp: "poll_contract poll \<Longrightarrow> always (healthy vid) (\<lambda>r. r = None) (waitForTcpReady poll host port t)"
  unfolding waitForTcpReady_def
  by (rule always_poll) (auto simp: isTcpReady_def split: option.splits)

lemma healthy_publish:
  assumes poll: "poll_contract poll" and parse: "publish_parse drv req = Inr p" and vid: "vid = pub_VolumeId req"
  shows "always (ready vid) (\<lambda>r. r = Inr ()) (NodePublishVolume poll drv req)"
proof -
  have claim: "always (ready vid) (\<lambda>r. \<exists>uid. r = Inr uid \<and> True) (require_data_pvc ns n)" for ns n
    by (auto simp: require_data_pvc_def ready_def)
  have sts: "always (healthy vid) (\<lambda>r. \<exists>u. r = Inr u \<and> True) (ensure_statefulset ns n def)" for ns n def
    by (auto simp: ensure_statefulset_def split: option.split)
  have pod: "always (ready vid) (\<lambda>r. \<exists>uid. r = Inr uid \<and> True) (wait_backend_pod poll ns (vid @ ''-0''))" for ns
    unfolding wait_backend_pod_def
    by (auto simp: ready_def [of _ "EPod c r" for c r] intro!: always_bind [OF ready_wait_pod [OF poll]] split: option.splits)
  have target: "always (healthy vid) (\<lambda>r. \<exists>b. r = Inr b \<and> True) (prepare_target t perms)" for t perms
    by (auto simp: prepare_target_def split: option.splits)
  have source: "always (ready vid) (\<lambda>(source, err). err = None) (find_source a b)" for a b
    by (auto simp: find_source_def Let_def ready_def)
  have here: "always (healthy vid) (\<lambda>r. r = None) (mount_local s t ns n)" for s t ns n
    by (auto simp: mount_local_def split: option.splits)
  have svc: "always (healthy vid) (\<lambda>r. \<exists>svc. r = Inr svc \<and> svc \<noteq> None) (ensure_service ns n def)" for ns n def
    by (auto simp: ensure_service_def split: option.splits)
  have remote: "always (healthy vid) (\<lambda>r. \<exists>u. r = Inr u \<and> True) (mount_remote poll ns n def t opts)" for ns n def t opts
    unfolding mount_remote_def
    by (rule always_attempt [OF svc])
      (auto simp: Let_def intro!: always_bind [OF healthy_wait_tcp [OF poll]])
  have chmod: "always (healthy vid) (\<lambda>r. r = None) (chmodIfPermissionMismatch t mode)" for t mode
    by (auto simp: chmodIfPermissionMismatch_def Let_def)
  have finish: "always (ready vid) (\<lambda>r. r = Inr ()) (finish_publish t perms None)" for t perms
    by (rule always_ready) (auto simp: finish_publish_def intro!: always_bind [OF chmod])
  have mounted: "always (ready vid) (\<lambda>r. r = Inr ()) (mount_volume poll v t p uid podUID)" for v t uid podUID
    unfolding mount_volume_def
    by (rule always_bind [OF source])
      (auto simp: ready_def [of _ "EMountQuery q r" for q r]
        intro!: always_bind [OF always_ready [OF here]] always_attempt [OF always_ready [OF remote]] finish)
  show ?thesis
    unfolding NodePublishVolume_def parse sum.case publish_volume_def vid [symmetric]
    by (intro always_attempt [OF claim] always_attempt [OF always_ready [OF sts]]
        always_attempt [OF pod] always_attempt [OF always_ready [OF target]])
      (simp add: mounted)
qed

lemma healthy_create:
  assumes "create_parse req = Inr p"
  shows "always (healthy vid) (\<lambda>r. \<exists>vol. r = Inr vol) (CreateVolume req)"
proof -
  have choose: "always (healthy vid) (\<lambda>sc. True) (choose_storage_class sc)" for sc
    by (auto simp: choose_storage_class_def deref_def split: option.split)
  have claim: "always (healthy vid) (\<lambda>r. \<exists>pvc. r = Inr pvc \<and> pvc \<noteq> None) (ensure_data_pvc ns n def)" for ns n def
    by (auto simp: ensure_data_pvc_def split: option.split)
  show ?thesis
    unfolding CreateVolume_def assms sum.case create_volume_def Let_def
    by (intro always_bind [OF choose] always_attempt [OF claim]) auto
qed

lemma healthy_getPvById:
  "always (healthy vid) (\<lambda>r. \<forall>pv. r = Inr pv \<longrightarrow> pv_ClaimRef pv \<noteq> None \<and> pv_CSI pv \<noteq> None) (getPvById vid)"
  by (auto simp: getPvById_def deref_def find_Some_iff handles_volume_def list_all_length split: option.splits)

lemma healthy_unpublish:
  assumes poll: "poll_contract poll" and "unpub_VolumeId req \<noteq> []" "unpub_TargetPath req \<noteq> []"
    and vid: "vid = unpub_VolumeId req"
  shows "always (healthy vid) (\<lambda>r. r = Inr ()) (NodeUnpublishVolume poll req)"
proof -
  have used: "always (healthy vid) (\<lambda>u. True) (still_used ref)" for ref
    by (auto simp: still_used_def)
  have del: "always (healthy vid) (\<lambda>r. r = Inr ()) (delete_backend poll vid pv)" if "pv_CSI pv \<noteq> None" for pv
    using that by (auto simp: delete_backend_def intro!: always_bind [OF healthy_wait_pod [OF poll]] split: prod.split)
  have "always (healthy vid) (\<lambda>r. r = Inr ()) (release_volume poll vid)"
    unfolding release_volume_def
  proof (rule always_bind [OF healthy_getPvById])
    fix r :: "go_error + pv"
    assume "\<forall>pv. r = Inr pv \<longrightarrow> pv_ClaimRef pv \<noteq> None \<and> pv_CSI pv \<noteq> None"
    then show "always (healthy vid) (\<lambda>r. r = Inr ()) (case r of Inl _ \<Rightarrow> Return (Inr ())
       | Inr nfsPV \<Rightarrow> deref (pv_ClaimRef nfsPV) (\<lambda>ref. bind (still_used ref) (\<lambda>used.
             if used then Return (Inr ()) else delete_backend poll vid nfsPV)))"
      by (cases r) (auto intro!: always_bind [OF used] del)
  qed
  with assms(2,3) show ?thesis by (simp add: NodeUnpublishVolume_def vid)
qed

lemma healthy_delete: "vid \<noteq> [] \<Longrightarrow> always (healthy vid) (\<lambda>r. r = Inr ()) (DeleteVolume vid)"
  unfolding DeleteVolume_def
  by (simp, rule always_bind [OF healthy_getPvById]) (auto simp: Let_def split: sum.split)

section \<open>Properties\<close>

text \<open>The requests the handlers accept.\<close>

fun valid_call :: "driver \<Rightarrow> call \<Rightarrow> bool" where
  "valid_call drv (Create req) = (case create_parse req of Inl e \<Rightarrow> False | Inr p \<Rightarrow> True)"
| "valid_call drv (Publish req) = (case publish_parse drv req of Inl e \<Rightarrow> False | Inr p \<Rightarrow> True)"
| "valid_call drv (Unpublish req) = (unpub_VolumeId req \<noteq> [] \<and> unpub_TargetPath req \<noteq> [])"
| "valid_call drv (Delete vid) = (vid \<noteq> [])"

text \<open>The volume a request is about.\<close>

fun volume_of :: "call \<Rightarrow> string" where
  "volume_of (Create req) = volume_id (req_Name req)"
| "volume_of (Publish req) = pub_VolumeId req"
| "volume_of (Unpublish req) = unpub_VolumeId req"
| "volume_of (Delete vid) = vid"

text \<open>
  C13: when the cluster and the node are healthy for the volume, every request the handlers accept is
  served without a panic and answered without an error.  Healthy means: reads find the object or
  say it is missing, creations, directory, clean-up, mount and mode operations succeed, an address
  that is dialled has its port open, pod reads return an object, listings have items, and the
  volume, if listed, is bound.  For \<^verbatim>\<open>NodePublishVolume\<close> three conditions come on top: the data claim is
  found, the backend pod is Running at each read, and its volume directory can be read on this
  node (on the other nodes publishing is answered with an error: C16).
\<close>

theorem healthy_calls_succeed:
  assumes "poll_contract poll" and "valid_call drv c" and "exec (serve_call poll drv c) tr out"
    and "list_all (healthy (volume_of c)) tr"
    and "\<And>req. c = Publish req \<Longrightarrow> list_all (hosting (pub_VolumeId req)) tr"
  shows "out = Done None"
proof -
  have report: "always C (\<lambda>r. r = None) (bind p report)" if "always C (\<lambda>r. \<exists>a. r = Inr a) p" for C and p :: "(status + 'b) prog"
    by (rule always_bind [OF that]) (auto simp: report_def)
  have unit: "always C (\<lambda>r. \<exists>a. r = Inr a) p" if "always C (\<lambda>r. r = Inr ()) p" for C and p :: "(status + unit) prog"
    using always_bind [OF that, of "\<lambda>r. \<exists>a. r = Inr a" Return] by simp
  show ?thesis
  proof (cases "\<exists>req. c = Publish req")
    case True
    with assms(2) obtain req p where c: "c = Publish req" and "publish_parse drv req = Inr p"
      by (auto split: sum.splits)
    from healthy_publish [OF assms(1) this(2) refl]
    have "always (ready (pub_VolumeId req)) (\<lambda>r. r = None) (serve_call poll drv c)"
      by (simp add: c report unit)
    moreover from assms(4,5) c have "list_all (ready (pub_VolumeId req)) tr" by (simp add: ready_def list_all_iff)
    ultimately show ?thesis using always_exec [OF assms(3)] by blast
  next
    case False
    with assms(2) have "always (healthy (volume_of c)) (\<lambda>r. r = None) (serve_call poll drv c)"
      by (cases c) (auto intro!: report unit healthy_create healthy_unpublish healthy_delete assms(1) split: sum.splits)
    from always_exec [OF assms(3) this assms(4)] show ?thesis by simp
  qed
qed

text \<open>
  The node of the backend pod: its volume directory holds a mount point, which is bound to the
  target; the application pod is still pending.
\<close>

definition hosting_cluster :: "world environment" where
  "hosting_cluster = store_env\<lparr>
     env_pod := (\<lambda>a w. (case a of
         GetPod ns n \<Rightarrow> (Some (demo_pod\<lparr>pod_Phase := if n = ''nfs-1-0'' then PodRunning else PodPending\<rparr>), None)
       | UpdatePod ns d \<Rightarrow> (Some d, None), w)),
     env_read_dir := (\<lambda>d w. (([''kubernetes.io~csi''], None), w)),
     env_mount_query := (\<lambda>q w. ((case q of IsNotMountPoint t \<Rightarrow> False | _ \<Rightarrow> True, None), w))\<rparr>"

theorem healthy_calls_succeed_witness:
  "let (out, tr, w) = run hosting_cluster (serve_call poll_immediate demo_driver (Publish demo_publish))
       (add_claim demo_key empty_world)
   in out = Done None \<and> list_ex (\<lambda>e. case e of EPod c (Some p, None) \<Rightarrow> pod_Phase p = PodPending | _ \<Rightarrow> False) tr"
proof -
  let ?run = "run hosting_cluster (serve_call poll_immediate demo_driver (Publish demo_publish)) (add_claim demo_key empty_world)"
  have valid: "valid_call demo_driver (Publish demo_publish)" by code_simp
  have "list_all (ready ''nfs-1'') (fst (snd ?run))" by code_simp
  then have healthy: "list_all (healthy (volume_of (Publish demo_publish))) (fst (snd ?run))"
    "list_all (hosting ''nfs-1'') (fst (snd ?run))"
    by (simp_all add: ready_def list_all_iff demo_publish_def)
  have "fst ?run = Done None"
    by (rule healthy_calls_succeed [OF poll_immediate_contract valid run_exec healthy(1)])
      (use healthy(2) in \<open>simp add: demo_publish_def\<close>)
  moreover have "list_ex (\<lambda>e. case e of EPod c (Some p, None) \<Rightarrow> pod_Phase p = PodPending | _ \<Rightarrow> False) (fst (snd ?run))"
    by code_simp
  ultimately show ?thesis by (simp add: case_prod_beta del: serve_call.simps)
qed

end
