(* ===== verification/Written_Objects.thy ===== *)
theory Written_Objects
  imports Cluster_System
begin

text \<open>
  The type discipline of the objects the driver hands to the API server: what Kubernetes requires
  of their shape, and that every object written by any RPC has it.
\<close>

section \<open>Well-formed objects\<close>

text \<open>A Go map has one entry per key; an object written has a name.\<close>

definition wf_meta :: "object_meta \<Rightarrow> bool" where
  "wf_meta m \<longleftrightarrow> meta_Name m \<noteq> [] \<and> wf_gomap (meta_Labels m) \<and>
     (case meta_Annotations m of None \<Rightarrow> True | Some a \<Rightarrow> wf_gomap a) \<and>
     list_all (\<lambda>r. owner_Kind r \<noteq> [] \<and> owner_Name r \<noteq> []) (meta_OwnerReferences m)"

text \<open>Port numbers and the lengths of port names are bounded, and names are unique in a list of ports.\<close>

definition wf_ports :: "(string \<times> nat) list \<Rightarrow> bool" where
  "wf_ports ps \<longleftrightarrow> distinct (map fst ps) \<and>
     list_all (\<lambda>(n, p). n \<noteq> [] \<and> length n \<le> 15 \<and> 0 < p \<and> p < 2 ^ 16) ps"

definition wf_container :: "pod_volume list \<Rightarrow> container \<Rightarrow> bool" where
  "wf_container vols c \<longleftrightarrow> ctr_Name c \<noteq> [] \<and> ctr_Image c \<noteq> [] \<and>
     wf_ports (map (\<lambda>p. (cport_Name p, cport_ContainerPort p)) (ctr_Ports c)) \<and>
     distinct (map env_Name (ctr_Env c)) \<and>
     probe_PortName (ctr_ReadinessProbe c) \<in> cport_Name ` set (ctr_Ports c) \<and>
     0 < probe_SuccessThreshold (ctr_ReadinessProbe c) \<and> 0 < probe_PeriodSeconds (ctr_ReadinessProbe c) \<and>
     list_all (\<lambda>m. vm_Name m \<in> vol_Name ` set vols \<and> has_prefix (vm_MountPath m) ''/'') (ctr_VolumeMounts c)"

definition wf_statefulset :: "statefulset \<Rightarrow> bool" where
  "wf_statefulset s \<longleftrightarrow> wf_meta (sts_meta s) \<and> wf_gomap (sts_MatchLabels s) \<and> sts_MatchLabels s \<noteq> [] \<and>
     wf_gomap (tmpl_Labels (sts_Template s)) \<and> selects (sts_MatchLabels s) (tmpl_Labels (sts_Template s)) \<and>
     sts_ServiceName s \<noteq> [] \<and>
     (let spec = tmpl_Spec (sts_Template s) in
        spec_RestartPolicy spec = RestartPolicyAlways \<and> spec_Containers spec \<noteq> [] \<and>
        distinct (map vol_Name (spec_Volumes spec)) \<and> distinct (map ctr_Name (spec_Containers spec)) \<and>
        list_all (\<lambda>v. vol_ClaimName v \<noteq> Some []) (spec_Volumes spec) \<and>
        list_all (wf_container (spec_Volumes spec)) (spec_Containers spec))"

definition wf_service :: "service \<Rightarrow> bool" where
  "wf_service s \<longleftrightarrow> wf_meta (svc_meta s) \<and> wf_gomap (svc_Selector s) \<and> svc_Selector s \<noteq> [] \<and>
     svc_Ports s \<noteq> [] \<and> wf_ports (map (\<lambda>p. (sport_Name p, sport_Port p)) (svc_Ports s)) \<and>
     distinct (map (\<lambda>p. (sport_Port p, sport_Protocol p)) (svc_Ports s))"

definition wf_claim :: "pvc \<Rightarrow> bool" where
  "wf_claim c \<longleftrightarrow> wf_meta (pvc_meta c) \<and> pvc_AccessModes c \<noteq> [] \<and> pvc_StorageRequest c \<noteq> None"

text \<open>What is asked of a pod that is read, and promised of the pod that is written back.\<close>

definition wf_pod :: "pod \<Rightarrow> bool" where
  "wf_pod p \<longleftrightarrow> wf_meta (pod_meta p)"

fun typed_read :: "event \<Rightarrow> bool" where
  "typed_read (EPod (GetPod ns n) (Some p, err)) = wf_pod p"
| "typed_read e = True"

text \<open>Objects are written into a named namespace; a pod is only written back.\<close>

fun typed_write :: "event \<Rightarrow> bool" where
  "typed_write (EPvc (CreatePVC ns d) r) = wf_claim d"
| "typed_write (ESts (CreateSTS ns d) r) = (ns \<noteq> [] \<and> wf_statefulset d)"
| "typed_write (ESvc (CreateSVC ns d) r) = (ns \<noteq> [] \<and> wf_service d)"
| "typed_write (EPod (UpdatePod ns p) r) = (wf_pod p \<and> (\<exists>a. meta_Annotations (pod_meta p) = Some a))"
| "typed_write e = True"

section \<open>The objects of the code\<close>

lemma wf_nfsMeta: "vid \<noteq> [] \<Longrightarrow> claim \<noteq> [] \<Longrightarrow> wf_meta (nfsMeta vid claim uid)"
  by (simp add: wf_meta_def nfsMeta_def pvc_owner_def wf_gomap_def)

lemma wf_nfsContainer: "img \<noteq> [] \<Longrightarrow> wf_container [\<lparr>vol_Name = ''data'', vol_ClaimName = c\<rparr>] (nfsContainer img hosts)"
  by (simp add: wf_container_def nfsContainer_def wf_ports_def has_prefix_def)

lemma wf_nfsSTSDef:
  "vid \<noteq> [] \<Longrightarrow> claim \<noteq> [] \<Longrightarrow> img \<noteq> [] \<Longrightarrow> wf_statefulset (nfsSTSDef vid claim uid img hosts)"
  by (simp add: wf_statefulset_def nfsSTSDef_def wf_nfsMeta wf_nfsContainer wf_gomap_def selects_def)

lemma wf_nfsSVCDef: "vid \<noteq> [] \<Longrightarrow> claim \<noteq> [] \<Longrightarrow> wf_service (nfsSVCDef vid claim uid)"
  by (simp add: wf_service_def nfsSVCDef_def wf_nfsMeta wf_ports_def wf_gomap_def)

lemma volume_id_nonempty: "name \<noteq> [] \<Longrightarrow> volume_id name \<noteq> []"
  unfolding volume_id_def by (metis length_0_conv length_replace1 length_Cons)

lemma wf_dataPVCDef: "name \<noteq> [] \<Longrightarrow> wf_claim (dataPVCDef (volume_id name) sc bytes)"
  by (simp add: wf_claim_def dataPVCDef_def wf_meta_def wf_gomap_def volume_id_nonempty)

lemma wf_update: "wf_gomap m \<Longrightarrow> wf_gomap (AList.update k v m)"
  by (simp add: wf_gomap_def distinct_update)

lemma wf_gomap_single: "wf_gomap [(k, v)]"
  by (simp add: wf_gomap_def)

lemma wf_annotate_pod: "wf_pod p \<Longrightarrow> wf_pod (annotate_pod p) \<and> (\<exists>a. meta_Annotations (pod_meta (annotate_pod p)) = Some a)"
  by (auto simp: wf_pod_def wf_meta_def annotate_pod_def Let_def wf_update wf_gomap_single split: option.splits)

section \<open>Every object written\<close>

lemma publish_parse_wf:
  "publish_parse drv req = Inr p \<Longrightarrow> pub_VolumeId req \<noteq> [] \<and> pp_dataPVCName p \<noteq> [] \<and> pp_dataNamespace p \<noteq> [] \<and>
     pp_nfsPodImage p \<noteq> []"
  by (auto simp: publish_parse_def defaultNfsImage_def split: option.splits if_splits sum.splits)

lemma permitted_typed:
  assumes "publish_permits p vid tgt h e" and "list_all typed_read h"
    and "vid \<noteq> []" "pp_dataPVCName p \<noteq> []" "pp_dataNamespace p \<noteq> []" "pp_nfsPodImage p \<noteq> []"
  shows "typed_write e"
  using assms(1)
proof (cases e rule: typed_write.cases)
  case (4 ns q r)
  with assms(1) obtain q0 where "EPod (GetPod ns (pp_appPodName p)) (Some q0, None) \<in> set h" and "q = annotate_pod q0"
    by auto
  moreover from this(1) assms(2) have "wf_pod q0" by (force simp: list_all_iff)
  ultimately show ?thesis using 4 wf_annotate_pod by simp
qed (auto simp: wf_nfsSTSDef wf_nfsSVCDef assms(3-6))

lemma typed_publish:
  assumes "poll_contract poll" and "exec (NodePublishVolume poll drv req) tr out" and "list_all typed_read tr"
  shows "list_all typed_write tr"
proof (cases "publish_parse drv req")
  case (Inl s)
  with assms(2) show ?thesis by (simp add: NodePublishVolume_def prog_simps)
next
  case (Inr p)
  show ?thesis
    unfolding list_all_iff
  proof
    fix e
    assume "e \<in> set tr"
    then obtain tr1 tr2 where tr: "tr = tr1 @ e # tr2" by (auto dest: split_list)
    from guardedD [OF permits_NodePublishVolume [OF assms(1) Inr]] assms(2)
    have "publish_permits p (pub_VolumeId req) (pub_TargetPath req) tr1 e" by (simp add: tr)
    with assms(3) publish_parse_wf [OF Inr] show "typed_write e" by (auto simp: tr intro: permitted_typed)
  qed
qed

lemma typed_pod_read: "is_pod_read e \<Longrightarrow> typed_write e"
  by (cases e rule: is_pod_read.cases) simp_all

lemma typed_unpublish:
  assumes "poll_contract poll"
  shows "emits typed_write (NodeUnpublishVolume poll req)"
proof -
  have wait: "emits typed_write (waitForPodRunning poll ns n t)" for ns n t
    unfolding waitForPodRunning_def by (rule running.wait_emits [OF assms], erule typed_pod_read)
  have "emits typed_write (release_volume poll vid)" for vid
    unfolding release_volume_def still_used_def delete_backend_def
    by (auto intro!: emits_intros getPvById_emits wait split: sum.split prod.split)
  then show ?thesis by (auto simp: NodeUnpublishVolume_def split: option.split)
qed

lemma typed_create: "emits typed_write (CreateVolume req)"
proof (cases "create_parse req")
  case (Inr p)
  then have "req_Name req \<noteq> []" by (simp add: create_parse_iff)
  with Inr show ?thesis
    by (auto simp: CreateVolume_def create_volume_def choose_storage_class_def ensure_data_pvc_def Let_def
        wf_dataPVCDef intro!: emits_intros split: option.split)
qed (simp add: CreateVolume_def)

lemma typed_delete: "emits typed_write (DeleteVolume vid)"
  by (auto simp: DeleteVolume_def Let_def intro!: emits_intros getPvById_emits split: sum.split)

lemma report_trace: "exec (bind p report) tr out \<Longrightarrow> \<exists>o'. exec p tr o'"
  by (auto simp: exec_bind report_def prog_simps)

text \<open>
  C12: every object any RPC hands to the API server is well-formed: it is named and has unique map
  keys, stateful sets and services have bounded, uniquely named ports, a selector that matches, a
  probe on one of the container's ports and mounts of declared volumes, claims ask for storage,
  and a pod is written back with the annotations it had and one more, as long as the pods read
  were well-formed.
\<close>

theorem written_objects_well_typed:
  assumes "poll_contract poll" and "exec (serve_call poll drv c) tr out" and "list_all typed_read tr"
  shows "list_all typed_write tr"
proof (cases c)
  case (Publish req)
  with assms show ?thesis by (auto dest!: report_trace intro: typed_publish)
qed (use assms(1,2) in \<open>auto dest!: report_trace intro: emits_exec typed_create typed_unpublish typed_delete\<close>)

theorem written_objects_well_typed_witness:
  "\<exists>def reply. ESts (CreateSTS ''ns'' def) reply \<in>
       set (fst (snd (run store_env (serve_call poll_once demo_driver (Publish demo_publish)) (add_claim demo_key empty_world)))) \<and>
     wf_statefulset def"
proof -
  let ?tr = "fst (snd (run store_env (serve_call poll_once demo_driver (Publish demo_publish)) (add_claim demo_key empty_world)))"
  let ?def = "nfsSTSDef ''nfs-1'' ''nfs-1'' ''uid'' defaultNfsImage []"
  have "let tr = ?tr in list_all typed_read tr \<and> list_ex (\<lambda>e. e = ESts (CreateSTS ''ns'' ?def) (Some ?def, None)) tr" by code_simp
  then have "list_all typed_read ?tr" and created: "ESts (CreateSTS ''ns'' ?def) (Some ?def, None) \<in> set ?tr"
    by (auto simp: Let_def list_ex_iff)
  from written_objects_well_typed [OF poll_once_contract run_exec this(1)] have "list_all typed_write ?tr" .
  with created have "typed_write (ESts (CreateSTS ''ns'' ?def) (Some ?def, None))" by (simp only: list_all_iff)
  with created show ?thesis by auto
qed

end
