(* ===== verification/Helper_Properties.thy ===== *)
theory Helper_Properties
  imports Utils K8utils
begin

text \<open>
  The properties of the helpers of \<^verbatim>\<open>utils.go\<close> and \<^verbatim>\<open>k8utils.go\<close>: endpoints, volume locks, string
  maps, and the searches and waits over the cluster.
\<close>

section \<open>Endpoints\<close>

lemma to_lower_colon: "c \<in> set s \<Longrightarrow> lower_char c \<in> set (to_lower s)"
  by (simp add: to_lower_def)

lemma prefix_to_lower_split:
  assumes "prefix p (to_lower s)"
  obtains u v where "s = u @ v" and "to_lower u = p"
proof
  show "s = take (length p) s @ drop (length p) s" by simp
  from assms obtain w where "to_lower s = p @ w" by (auto simp: prefix_def)
  then show "to_lower (take (length p) s) = p" by (simp add: to_lower_take)
qed

lemma lower_char_special: "lower_char c = CHR '':'' \<longleftrightarrow> c = CHR '':''" "lower_char c = CHR ''/'' \<longleftrightarrow> c = CHR ''/''"
proof -
  have "lower_char c = d \<longleftrightarrow> c = d" if d: "(of_char d :: nat) < 65" for d
  proof
    assume "lower_char c = d"
    then have eq: "(of_char (lower_char c) :: nat) = of_char d" by simp
    then have "\<not> (65 \<le> (of_char c :: nat) \<and> (of_char c :: nat) \<le> 90)"
      using d by (auto simp: of_char_lower_char)
    with eq show "c = d" by (simp add: of_char_lower_char split: if_splits)
  next
    assume "c = d"
    with d show "lower_char c = d" by (simp add: lower_char_def Let_def)
  qed
  from this [of "CHR '':''"] this [of "CHR ''/''"]
  show "lower_char c = CHR '':'' \<longleftrightarrow> c = CHR '':''" "lower_char c = CHR ''/'' \<longleftrightarrow> c = CHR ''/''" by simp_all
qed

lemma to_lower_sep: "to_lower s = ''://'' \<longleftrightarrow> s = ''://''"
  by (auto simp: to_lower_def map_eq_Cons_conv lower_char_special)

lemma scheme_split:
  assumes "prefix (scheme @ ''://'') (to_lower ep)"
  obtains proto addr where "ep = proto @ ''://'' @ addr" and "to_lower proto = scheme"
proof -
  from assms obtain u addr where ep: "ep = u @ addr" and u: "to_lower u = scheme @ ''://''"
    by (rule prefix_to_lower_split)
  let ?p = "take (length scheme) u" and ?q = "drop (length scheme) u"
  from u have "to_lower ?p = scheme" by (simp add: to_lower_take)
  moreover from u have "to_lower ?q = ''://''" by (simp add: to_lower_def flip: drop_map)
  then have "?q = ''://''" by (simp add: to_lower_sep)
  then have "ep = ?p @ ''://'' @ addr" unfolding ep by (metis append_take_drop_id append_assoc)
  ultimately show thesis by (intro that)
qed

lemma split_scheme: "CHR '':'' \<notin> set proto \<Longrightarrow> split_n2 (proto @ ''://'' @ addr) ''://'' = [proto, addr]"
  using split_n2_found [of "CHR '':''" proto "''//''" addr] by simp

text \<open>
  \<^verbatim>\<open>ParseEndpoint\<close> accepts exactly the texts \<^verbatim>\<open><scheme>://<address>\<close> with a scheme that is
  \<^verbatim>\<open>unix\<close> or \<^verbatim>\<open>tcp\<close> in any case and a non-empty address, and answers the scheme as it was written
  and the address.
\<close>

theorem parse_endpoint_iff:
  "ParseEndpoint ep = Inr (proto, addr) \<longleftrightarrow>
     ep = proto @ ''://'' @ addr \<and> to_lower proto \<in> {''unix'', ''tcp''} \<and> addr \<noteq> []"
proof -
  have plain: "CHR '':'' \<notin> set q" if "to_lower q \<in> {''unix'', ''tcp''}" for q
    using that to_lower_colon [of "CHR '':''" q] by (auto simp: lower_char_special [THEN iffD2])
  have accept: "has_prefix (to_lower (q @ ''://'' @ a)) ''unix://'' \<or> has_prefix (to_lower (q @ ''://'' @ a)) ''tcp://''"
    if "to_lower q \<in> {''unix'', ''tcp''}" for q a
  proof -
    have "to_lower (q @ ''://'' @ a) = to_lower q @ ''://'' @ to_lower a"
      by (simp only: to_lower_append to_lower_sep [THEN iffD2])
    with that show ?thesis by (auto simp: has_prefix_def)
  qed
  show ?thesis
  proof
    assume parse: "ParseEndpoint ep = Inr (proto, addr)"
    then have "prefix (''unix'' @ ''://'') (to_lower ep) \<or> prefix (''tcp'' @ ''://'') (to_lower ep)"
      by (auto simp: ParseEndpoint_def has_prefix_def split: if_splits)
    then obtain q a where ep: "ep = q @ ''://'' @ a" and q: "to_lower q \<in> {''unix'', ''tcp''}"
      by (metis insertCI scheme_split)
    with parse accept [OF q, of a] split_scheme [OF plain [OF q], of a] show
      "ep = proto @ ''://'' @ addr \<and> to_lower proto \<in> {''unix'', ''tcp''} \<and> addr \<noteq> []"
      by (simp add: ParseEndpoint_def Let_def split: if_splits)
  next
    assume "ep = proto @ ''://'' @ addr \<and> to_lower proto \<in> {''unix'', ''tcp''} \<and> addr \<noteq> []"
    then have ep: "ep = proto @ ''://'' @ addr" and q: "to_lower proto \<in> {''unix'', ''tcp''}" and a: "addr \<noteq> []"
      by simp_all
    from accept [OF q, of addr] split_scheme [OF plain [OF q], of addr] a show "ParseEndpoint ep = Inr (proto, addr)"
      unfolding ep by (simp add: ParseEndpoint_def)
  qed
qed

section \<open>Volume locks\<close>

text \<open>
  C40: goroutines that take volume locks with \<^verbatim>\<open>TryAcquire\<close> and release only what they took never
  hold one volume twice, and \<^verbatim>\<open>TryAcquire\<close> succeeds exactly when nobody holds the volume.
\<close>

theorem volume_locks_exclusive:
  assumes "lock_reachable s" and "sys_owner s i = Some v"
  shows "{j. sys_owner s j = Some v} = {i} \<and>
    (fst (TryAcquire (sys_locks s) w) \<longleftrightarrow> w \<notin> ran (sys_owner s))"
  using vlock.agrees_exclusive [OF lock_inv_reachable [OF assms(1)]]
    vlock.agrees_acquire_iff [OF lock_inv_reachable [OF assms(1)]] assms(2)
  by (auto simp: ran_def)

definition demo_locked :: lock_system where
  "demo_locked = \<lparr>sys_locks = \<lparr>locks = {''v''}\<rparr>, sys_owner = [0 \<mapsto> ''v'']\<rparr>"

lemma demo_locked_reachable: "lock_reachable demo_locked"
proof -
  have "lock_step lock_init (lock_init\<lparr>sys_locks := \<lparr>locks = {''v''}\<rparr>, sys_owner := (sys_owner lock_init)(0 := Some ''v'')\<rparr>)"
    by (rule lock_taken) (simp_all add: lock_init_def NewVolumeLocks_def TryAcquire_def)
  then have "lock_step lock_init demo_locked" by (simp add: lock_init_def demo_locked_def)
  with lock_start show ?thesis by (rule lock_next)
qed

theorem volume_locks_exclusive_witness:
  "{j. sys_owner demo_locked j = Some ''v''} = {0} \<and> \<not> fst (TryAcquire (sys_locks demo_locked) ''v'')"
proof -
  have "sys_owner demo_locked 0 = Some ''v''" by (simp add: demo_locked_def)
  from volume_locks_exclusive [OF demo_locked_reachable this, of "''v''"] show ?thesis
    by (auto simp: demo_locked_def ran_def)
qed

section \<open>String maps\<close>

lemma lower_keys_update:
  "lower_keys (AList.update k v m) =
     (case map_of m k of None \<Rightarrow> lower_keys m @ [to_lower k] | Some _ \<Rightarrow> lower_keys m)"
  by (induction m) (auto split: option.splits)

lemma length_update_map_of:
  "length (AList.update k v m) = (case map_of m k of None \<Rightarrow> Suc (length m) | Some _ \<Rightarrow> length m)"
  by (induction m) (auto split: option.splits)

lemma update_member: "(k, v) \<in> set (AList.update k v m)"
  by (induction m) auto

lemma param_value_update:
  "distinct (lower_keys (AList.update k v m)) \<Longrightarrow> param_value (to_lower k) (AList.update k v m) d = v"
  by (rule param_value_unique [OF _ update_member]) simp_all

lemma param_value_update_other:
  "to_lower k \<noteq> key \<Longrightarrow> param_value key (AList.update k v m) d = param_value key m d"
  by (induction m arbitrary: d) auto

text \<open>
  On a map whose keys differ by more than case, \<^verbatim>\<open>setKeyValueInMap\<close> leaves such a map again, in
  which the key, read in any case, has the new value and every other key its old one: it replaces
  the entry with that key in whatever case it is stored, and adds one only when there is none.
\<close>

theorem set_key_value_in_map:
  assumes "distinct (lower_keys m)"
  shows "\<exists>m'. setKeyValueInMap (Some m) key v = Some m' \<and> distinct (lower_keys m') \<and>
    length m' = (if to_lower key \<in> set (lower_keys m) then length m else Suc (length m)) \<and>
    param_value (to_lower key) m' [] = v \<and>
    (\<forall>k. k = to_lower key \<or> param_value k m' [] = param_value k m [])"
proof (cases "find (\<lambda>(k, v). equal_fold k key) m")
  case None
  then have new: "to_lower key \<notin> set (lower_keys m)" by (simp add: find_fold_None)
  then have "map_of m key = None" by (auto simp: lower_keys_def map_of_eq_None_iff)
  with new have "lower_keys (AList.update key v m) = lower_keys m @ [to_lower key]"
    and len: "length (AList.update key v m) = Suc (length m)"
    by (simp_all add: lower_keys_update length_update_map_of)
  with assms new have d: "distinct (lower_keys (AList.update key v m))" by simp
  have "k = to_lower key \<or> param_value k (AList.update key v m) [] = param_value k m []" for k
    using param_value_update_other [of key k v m "[]"] by blast
  with None new len d param_value_update [OF d] show ?thesis by (simp add: setKeyValueInMap_def)
next
  case (Some kv)
  obtain k w where kv: "kv = (k, w)" by (cases kv)
  have "find (\<lambda>(k, v). equal_fold k key) m = Some (k, w)" using Some kv by simp
  from find_fold_Some [OF this] have k: "to_lower k = to_lower key" and mem: "(k, w) \<in> set m"
    by (simp_all add: equal_fold_def)
  from mem obtain x where "map_of m k = Some x" by (metis weak_map_of_SomeI)
  then have lk: "lower_keys (AList.update k v m) = lower_keys m"
    and len: "length (AList.update k v m) = length m"
    by (simp_all add: lower_keys_update length_update_map_of)
  with assms have d: "distinct (lower_keys (AList.update k v m))" by simp
  from mem have "to_lower k \<in> set (lower_keys m)" by (force simp: lower_keys_def)
  moreover have "j = to_lower key \<or> param_value j (AList.update k v m) [] = param_value j m []" for j
    using param_value_update_other [of k j v m "[]"] k by metis
  ultimately show ?thesis using Some kv k d len param_value_update [OF d] by (simp add: setKeyValueInMap_def)
qed

theorem set_key_value_in_map_witness:
  "param_value ''server'' (the (setKeyValueInMap (Some [(''Server'', ''a''), (''share'', ''b'')]) ''SERVER'' ''c'')) [] = ''c''"
proof -
  have "distinct (lower_keys [(''Server'', ''a''), (''share'', ''b'')])" by code_simp
  from set_key_value_in_map [OF this, of "''SERVER''" "''c''"]
  obtain m' where "setKeyValueInMap (Some [(''Server'', ''a''), (''share'', ''b'')]) ''SERVER'' ''c'' = Some m'"
    and "param_value (to_lower ''SERVER'') m' [] = ''c''" by blast
  moreover have "to_lower ''SERVER'' = ''server''" by code_simp
  ultimately show ?thesis by simp
qed

text \<open>
  When no two keys differ only in case, \<^verbatim>\<open>getMountOptions\<close> returns the value of the
  \<^verbatim>\<open>mountOptions\<close> key in any case, in whatever order Go visits the map, and the empty text when
  there is none.
\<close>

theorem get_mount_options:
  assumes "distinct (lower_keys m)" and "mset n = mset m"
  shows "getMountOptions n = getMountOptions m \<and>
    (\<forall>k v. (k, v) \<notin> set m \<or> to_lower k \<noteq> mountOptionsField \<or> getMountOptions m = v) \<and>
    (mountOptionsField \<in> set (lower_keys m) \<or> getMountOptions m = [])"
proof -
  from assms have n: "distinct (lower_keys n)"
    by (metis lower_keys_mset mset_eq_imp_distinct_iff)
  from assms(2) have same: "set n = set m" by (rule mset_eq_setD)
  note val = getMountOptions_param_value [OF assms(1)] getMountOptions_param_value [OF n]
  have hit: "getMountOptions m = v \<and> getMountOptions n = v" if "(k, v) \<in> set m" "to_lower k = mountOptionsField" for k v
    using that param_value_unique [OF assms(1), of k v] param_value_unique [OF n, of k v] val same by simp
  have none: "getMountOptions m = [] \<and> getMountOptions n = []" if "mountOptionsField \<notin> set (lower_keys m)"
    using that val same by (simp add: param_value_absent lower_keys_def)
  show ?thesis
  proof (cases "mountOptionsField \<in> set (lower_keys m)")
    case True
    then obtain k v where "(k, v) \<in> set m" "to_lower k = mountOptionsField" by (auto simp: lower_keys_def)
    with hit True show ?thesis by metis
  next
    case False
    have "to_lower k \<in> set (lower_keys m)" if "(k, v) \<in> set m" for k v
      using that by (force simp: lower_keys_def)
    with none False show ?thesis by metis
  qed
qed

theorem get_mount_options_witness:
  "getMountOptions [(''share'', ''/''), (''mountOptions'', ''nfsvers=4'')] = ''nfsvers=4''"
proof -
  let ?m = "[(''mountOptions'', ''nfsvers=4''), (''share'', ''/'')]"
  have "distinct (lower_keys ?m)" by code_simp
  from get_mount_options [OF this, of "[(''share'', ''/''), (''mountOptions'', ''nfsvers=4'')]"]
  have "getMountOptions [(''share'', ''/''), (''mountOptions'', ''nfsvers=4'')] = getMountOptions ?m"
    by (simp add: add.commute)
  moreover have "getMountOptions ?m = ''nfsvers=4''" by code_simp
  ultimately show ?thesis by simp
qed

section \<open>Searches and waits\<close>

text \<open>
  \<^verbatim>\<open>getPVCByUidStr\<close> finds a claim with the UID when one is listed; when none is, it returns the
  last claim of the list instead of an error (unless that claim has no name): the loop variable
  keeps its last value.
\<close>

theorem get_pvc_by_uid:
  assumes "items \<noteq> []" and "\<forall>p \<in> set items. meta_Name (pvc_meta p) \<noteq> []"
  shows "exec (getPVCByUidStr uid) [EListPVCs [] (Some items, None)] (Done (Inr pvc)) \<longleftrightarrow>
    pvc = (case find (\<lambda>p. meta_UID (pvc_meta p) = uid) items of Some p \<Rightarrow> p | None \<Rightarrow> last items)"
proof -
  have loop: "pvc_loop cur items uid =
      (case find (\<lambda>p. meta_UID (pvc_meta p) = uid) items of Some p \<Rightarrow> p | None \<Rightarrow> last (cur # items))" for cur
    by (induction items arbitrary: cur) (auto split: option.split)
  have "pvc_loop zero_pvc items uid \<in> set items"
    using assms(1) by (auto simp: loop find_Some_iff split: option.split)
  moreover have "pvc_loop zero_pvc items uid =
      (case find (\<lambda>p. meta_UID (pvc_meta p) = uid) items of Some p \<Rightarrow> p | None \<Rightarrow> last items)"
    using assms(1) by (cases "find (\<lambda>p. meta_UID (pvc_meta p) = uid) items") (simp_all add: loop)
  ultimately show ?thesis using assms(2) by (auto simp: exec_getPVCByUidStr_Inr)
qed

theorem get_pvc_by_uid_witness:
  "exec (getPVCByUidStr ''other'') [EListPVCs [] (Some [zero_pvc\<lparr>pvc_meta := zero_meta\<lparr>meta_Name := ''a'', meta_UID := ''u''\<rparr>\<rparr>], None)]
     (Done (Inr (zero_pvc\<lparr>pvc_meta := zero_meta\<lparr>meta_Name := ''a'', meta_UID := ''u''\<rparr>\<rparr>)))"
  using get_pvc_by_uid [of "[zero_pvc\<lparr>pvc_meta := zero_meta\<lparr>meta_Name := ''a'', meta_UID := ''u''\<rparr>\<rparr>]" "''other''"]
  by simp

text \<open>
  \<^verbatim>\<open>waitForPodNotRunning\<close> ends without error only by seeing the pod still there in a phase
  other than Running, Failed and Succeeded: when the pod is gone or has completed, the wait ends
  with an error.
\<close>

theorem wait_for_pod_not_running:
  assumes "poll_contract poll" and "exec (waitForPodNotRunning poll namespace podName timeout) tr (Done None)"
  shows "\<exists>tr' p. tr = tr' @ [EPod (GetPod namespace podName) (Some p, None)] \<and>
    pod_Phase p \<notin> {PodRunning, PodFailed, PodSucceeded}"
proof -
  from assms(2) have "exec (poll Second timeout (isPodNotRunning podName namespace)) tr (Done None)"
    by (simp add: waitForPodNotRunning_def)
  with assms(1) obtain rounds final ok err where tr: "tr = concat rounds @ final"
    and final: "exec (isPodNotRunning podName namespace) final (Done (ok, err))" and v: "None = poll_verdict ok err"
    by (rule poll_contractE)
  from v have ok: "ok" "err = None" by (auto simp: poll_verdict_def split: option.splits if_splits)
  from final obtain obj e rest where f: "final = EPod (GetPod namespace podName) (obj, e) # rest"
    and k: "exec (case e of Some e \<Rightarrow> Return (True, Some e)
       | None \<Rightarrow> deref obj (\<lambda>pod. case pod_Phase pod of
             PodRunning \<Rightarrow> Return (False, None)
           | PodFailed \<Rightarrow> Return (True, Some ErrPodCompleted)
           | PodSucceeded \<Rightarrow> Return (True, Some ErrPodCompleted)
           | _ \<Rightarrow> Return (True, None))) rest (Done (ok, err))"
    by (auto simp: isPodNotRunning_def exec_PodCall_iff)
  from k ok have e: "e = None" by (cases e) (simp_all add: prog_simps)
  with k obtain p where p: "obj = Some p" by (cases obj) (simp_all add: prog_simps)
  from k e p ok have "rest = [] \<and> pod_Phase p \<notin> {PodRunning, PodFailed, PodSucceeded}"
    by (cases "pod_Phase p") (simp_all add: prog_simps)
  with tr f e p show ?thesis by blast
qed

theorem wait_for_pod_not_running_witness:
  "\<exists>tr' p. [EPod (GetPod ''ns'' ''v-0'') (Some \<lparr>pod_meta = zero_meta, pod_Volumes = [], pod_Phase = PodPending\<rparr>, None)] =
      tr' @ [EPod (GetPod ''ns'' ''v-0'') (Some p, None)] \<and> pod_Phase p \<notin> {PodRunning, PodFailed, PodSucceeded}"
proof (rule wait_for_pod_not_running [OF poll_immediate_contract])
  show "exec (waitForPodNotRunning poll_immediate ''ns'' ''v-0'' 0)
      [EPod (GetPod ''ns'' ''v-0'') (Some \<lparr>pod_meta = zero_meta, pod_Volumes = [], pod_Phase = PodPending\<rparr>, None)] (Done None)"
    by (simp add: waitForPodNotRunning_def poll_immediate_def isPodNotRunning_def prog_simps poll_verdict_def)
qed

end
