(* ===== verification/Plugin_Races.thy ===== *)
theory Plugin_Races
  imports Plugin_Properties Publish_Properties
begin

text \<open>
  A race the driver does not exclude: \<^verbatim>\<open>NodeUnpublishVolume\<close> decides that no pod uses a volume while
  \<^verbatim>\<open>NodePublishVolume\<close> has already found its backend, and deletes the backend under it.
\<close>

section \<open>The runs\<close>

lemma exec_attemptI: "exec p tr1 (Done (Inr a)) \<Longrightarrow> exec (f a) tr2 out \<Longrightarrow> exec (attempt p f) (tr1 @ tr2) out"
  by (auto simp: exec_attempt)

text \<open>What \<^verbatim>\<open>NodePublishVolume\<close> does up to the moment it has found the stateful set.\<close>

definition finds_backend :: "publish_params \<Rightarrow> string \<Rightarrow> event list" where
  "finds_backend p vid =
     [EPvc (GetPVC (pp_dataNamespace p) (pp_dataPVCName p)) (Some zero_pvc, None),
      ESts (GetSTS (pp_dataNamespace p) vid) (None, None)]"

text \<open>And from then on: the backend's pod is still running, the volume is mounted over NFS.\<close>

definition ready_pod :: "string \<Rightarrow> string \<Rightarrow> event" where
  "ready_pod ns vid = EPod (GetPod ns (vid @ ''-0'')) (Some demo_pod, None)"

definition backend_service :: "publish_params \<Rightarrow> string \<Rightarrow> service" where
  "backend_service p vid = nfsSVCDef vid (pp_dataPVCName p) []"

definition cluster_ip :: string where
  "cluster_ip = ''10.0.0.9''"

definition addressed :: "service \<Rightarrow> service" where
  "addressed svc = svc\<lparr>svc_ClusterIP := cluster_ip\<rparr>"

definition sets_mode :: "publish_params \<Rightarrow> string \<Rightarrow> event list" where
  "sets_mode p t =
     (if pp_mountPermissions p > 0 then
        [ELstat t (\<lparr>info_Mode = 0, info_IsDir = True\<rparr>, None)] @
        (if (ucast (pp_mountPermissions p) :: 32 word) \<noteq> 0 then [EAct (Chmod t (ucast (pp_mountPermissions p))) None] else [])
      else [])"

definition mounts_volume :: "publish_params \<Rightarrow> string \<Rightarrow> string \<Rightarrow> event list" where
  "mounts_volume p vid t =
     [ready_pod (pp_dataNamespace p) vid, ready_pod (pp_dataNamespace p) vid,
      EMountQuery (IsLikelyNotMountPoint t) (True, None), EGetenv ''KUBELET_ROOT'' ''/var/lib/kubelet'',
      EReadDir (podVolumesDir ''/var/lib/kubelet'' (meta_UID (pod_meta demo_pod))) ([], None), EMountQuery (IsNotMountPoint []) (True, None),
      ESvc (GetSVC (pp_dataNamespace p) vid) (None, Some absent),
      ESvc (CreateSVC (pp_dataNamespace p) (backend_service p vid)) (Some (addressed (backend_service p vid)), None),
      ETcpProbe (JoinHostPort cluster_ip (itoa 2049)) Second (ProbeSuccess, None),
      EAct (Mount (cluster_ip @ '':/'') t ''nfs'' (pp_mountOptions p)) None] @ sets_mode p t"

lemma exec_wait_ready: "exec (waitForPodRunning poll_immediate ns (vid @ ''-0'') timeout) [ready_pod ns vid] (Done None)"
  unfolding waitForPodRunning_def poll_immediate_def ready_pod_def
  by (rule poll_tries_at_once) (simp add: isPodRunning_def prog_simps demo_pod_def)

lemma exec_wait_open:
  "exec (waitForTcpReady poll_immediate host 2049 timeout) [ETcpProbe (JoinHostPort host (itoa 2049)) Second (ProbeSuccess, None)] (Done None)"
  unfolding waitForTcpReady_def poll_immediate_def
  by (rule poll_tries_at_once) (simp add: isTcpReady_def prog_simps)

lemma exec_finish: "exec (finish_publish t perms None) (sets_mode p t) (Done (Inr ()))" if "perms = pp_mountPermissions p"
  using that by (simp add: finish_publish_def sets_mode_def chmodIfPermissionMismatch_def prog_simps)

lemma exec_race_remote:
  "exec (mount_remote poll_immediate (pp_dataNamespace p) vid (backend_service p vid) t (pp_mountOptions p))
    ([ESvc (GetSVC (pp_dataNamespace p) vid) (None, Some absent),
      ESvc (CreateSVC (pp_dataNamespace p) (backend_service p vid)) (Some (addressed (backend_service p vid)), None)] @
     [ETcpProbe (JoinHostPort cluster_ip (itoa 2049)) Second (ProbeSuccess, None)] @ [EAct (Mount (cluster_ip @ '':/'') t ''nfs'' (pp_mountOptions p)) None])
    (Done (Inr ()))"
  unfolding mount_remote_def
proof (rule exec_attemptI)
  show "exec (ensure_service (pp_dataNamespace p) vid (backend_service p vid))
      [ESvc (GetSVC (pp_dataNamespace p) vid) (None, Some absent),
       ESvc (CreateSVC (pp_dataNamespace p) (backend_service p vid)) (Some (addressed (backend_service p vid)), None)]
      (Done (Inr (Some (addressed (backend_service p vid)))))"
    by (simp add: ensure_service_def prog_simps)
  have "svc_ClusterIP (addressed svc) = cluster_ip" for svc by (simp add: addressed_def)
  then show "exec (deref (Some (addressed (backend_service p vid))) (\<lambda>nfsSVC. let nfsIP = svc_ClusterIP nfsSVC in
      bind (waitForTcpReady poll_immediate nfsIP 2049 Minute) (\<lambda>err. case err of
        Some e \<Rightarrow> Return (Inl (Status Canceled (Text (err_text e))))
      | None \<Rightarrow> Act (Mount (nfsIP @ '':/'') t ''nfs'' (pp_mountOptions p)) (\<lambda>_. Return (Inr ())))))
      ([ETcpProbe (JoinHostPort cluster_ip (itoa 2049)) Second (ProbeSuccess, None)] @ [EAct (Mount (cluster_ip @ '':/'') t ''nfs'' (pp_mountOptions p)) None])
      (Done (Inr ()))"
    by (simp add: Let_def del: append.simps) (rule exec_bindI [OF exec_wait_open], simp add: prog_simps)
qed

lemma exec_race_publish:
  assumes "publish_parse d req = Inr p"
  shows "exec (NodePublishVolume poll_immediate d req)
    (finds_backend p (pub_VolumeId req) @ mounts_volume p (pub_VolumeId req) (pub_TargetPath req)) (Done (Inr ()))"
proof -
  let ?ns = "pp_dataNamespace p" and ?vid = "pub_VolumeId req" and ?t = "pub_TargetPath req"
  let ?uid = "meta_UID (pod_meta demo_pod)"
  have claim: "exec (require_data_pvc ?ns (pp_dataPVCName p)) [EPvc (GetPVC ?ns (pp_dataPVCName p)) (Some zero_pvc, None)] (Done (Inr []))"
    by (simp add: require_data_pvc_def prog_simps zero_pvc_def zero_meta_def)
  have sts: "exec (ensure_statefulset ?ns ?vid def) [ESts (GetSTS ?ns ?vid) (None, None)] (Done (Inr ()))" for def
    by (simp add: ensure_statefulset_def prog_simps)
  have pod: "exec (wait_backend_pod poll_immediate ?ns (?vid @ ''-0'')) ([ready_pod ?ns ?vid] @ [ready_pod ?ns ?vid]) (Done (Inr ?uid))"
  proof -
    from exec_bindI [OF exec_wait_ready, of "\<lambda>err. case err of
        Some e \<Rightarrow> Return (Inl (Status Canceled (Text (err_text e)))) | None \<Rightarrow> Return (Inr ?uid)" "[]" "Done (Inr ?uid)"]
    show ?thesis by (simp add: wait_backend_pod_def prog_simps ready_pod_def)
  qed
  have target: "exec (prepare_target ?t perms) [EMountQuery (IsLikelyNotMountPoint ?t) (True, None)] (Done (Inr True))" for perms
    by (auto simp: prepare_target_def prog_simps)
  let ?source = "[EGetenv ''KUBELET_ROOT'' ''/var/lib/kubelet'', EReadDir (podVolumesDir ''/var/lib/kubelet'' ?uid) ([], None)]"
  have source: "exec (find_source ?uid []) ?source (Done ([], None))"
    by (simp add: find_source_def Let_def prog_simps)
  note remote = exec_attemptI [OF exec_race_remote [of p ?vid ?t], of "\<lambda>_. finish_publish ?t (pp_mountPermissions p) None",
      OF exec_finish [OF refl]]
  have "exec (mount_volume poll_immediate ?vid ?t p [] ?uid) (?source @ EMountQuery (IsNotMountPoint []) (True, None) #
      ([ESvc (GetSVC ?ns ?vid) (None, Some absent),
        ESvc (CreateSVC ?ns (backend_service p ?vid)) (Some (addressed (backend_service p ?vid)), None)] @
       [ETcpProbe (JoinHostPort cluster_ip (itoa 2049)) Second (ProbeSuccess, None)] @
       [EAct (Mount (cluster_ip @ '':/'') ?t ''nfs'' (pp_mountOptions p)) None]) @ sets_mode p ?t) (Done (Inr ()))"
    unfolding mount_volume_def
    by (rule exec_bindI [OF source], unfold prod.case, rule exec_MountQuery, unfold prod.case not_True_eq_False if_False)
      (fold backend_service_def, rule remote)
  then have mount: "exec (mount_volume poll_immediate ?vid ?t p [] ?uid) (drop 3 (mounts_volume p ?vid ?t)) (Done (Inr ()))"
    by (simp add: mounts_volume_def)
  have calls: "finds_backend p ?vid @ mounts_volume p ?vid ?t =
      [EPvc (GetPVC ?ns (pp_dataPVCName p)) (Some zero_pvc, None)] @ [ESts (GetSTS ?ns ?vid) (None, None)] @
      ([ready_pod ?ns ?vid] @ [ready_pod ?ns ?vid]) @ [EMountQuery (IsLikelyNotMountPoint ?t) (True, None)] @
      drop 3 (mounts_volume p ?vid ?t)"
    by (simp add: finds_backend_def mounts_volume_def)
  have "exec (publish_volume poll_immediate ?vid ?t p) (finds_backend p ?vid @ mounts_volume p ?vid ?t) (Done (Inr ()))"
    unfolding publish_volume_def calls
    by (rule exec_attemptI [OF claim], rule exec_attemptI [OF sts], rule exec_attemptI [OF pod], rule exec_attemptI [OF target])
      (simp add: mount)
  with assms show ?thesis by (simp add: NodePublishVolume_def)
qed

text \<open>What \<^verbatim>\<open>NodeUnpublishVolume\<close> does when no pod is listed yet that uses the volume.\<close>

definition deletes_backend :: "unpublish_request \<Rightarrow> pv list \<Rightarrow> claim_ref \<Rightarrow> string \<Rightarrow> event list" where
  "deletes_backend req vs ref ns =
     [EAct (CleanupMountPoint (unpub_TargetPath req) True) None, EListPVs (Some vs, None)] @
     (if ref_Name ref \<noteq> [] \<and> ref_Namespace ref \<noteq> [] then [EListPods (ref_Namespace ref) (Some [], None)] else []) @
     [EAct (DeleteSTS ns (unpub_VolumeId req)) None, EAct (DeleteSVC ns (unpub_VolumeId req)) None,
      ready_pod ns (unpub_VolumeId req)]"

lemma exec_race_unpublish:
  assumes "unpub_VolumeId req \<noteq> []" "unpub_TargetPath req \<noteq> []"
    and "find (handles_volume (unpub_VolumeId req)) vs = Some pv" and csi: "pv_CSI pv = Some csi" and "pv_ClaimRef pv = Some ref"
    and ns: "param_value paramDataNamespace (csi_VolumeAttributes csi) [] = ns"
  shows "exec (NodeUnpublishVolume poll_immediate req) (deletes_backend req vs ref ns) (Done (Inr ()))"
proof -
  let ?vid = "unpub_VolumeId req"
  let ?list = "if ref_Name ref \<noteq> [] \<and> ref_Namespace ref \<noteq> [] then [EListPods (ref_Namespace ref) (Some [], None)] else []"
  let ?del = "[EAct (DeleteSTS ns ?vid) None, EAct (DeleteSVC ns ?vid) None, ready_pod ns ?vid]"
  from exec_bindI [OF exec_wait_ready, of "\<lambda>_. Return (Inr ())" "[]" "Done (Inr ())"]
  have del: "exec (delete_backend poll_immediate ?vid pv) ?del (Done (Inr ()))"
    by (simp add: delete_backend_def attributes_loop_values csi ns prog_simps)
  have used: "exec (still_used ref) ?list (Done False)" by (simp add: exec_still_used)
  from assms(3) have "exec (getPvById ?vid) [EListPVs (Some vs, None)] (Done (Inr pv))" by (simp add: exec_getPvById_Inr)
  then have "exec (release_volume poll_immediate ?vid) ([EListPVs (Some vs, None)] @ ?list @ ?del) (Done (Inr ()))"
    unfolding release_volume_def
  proof (rule exec_bindI)
    have "exec (bind (still_used ref) (\<lambda>used. if used then Return (Inr ()) else delete_backend poll_immediate ?vid pv))
        (?list @ ?del) (Done (Inr ()))"
      by (rule exec_bindI [OF used]) (simp add: del)
    then show "exec (case Inr pv of Inl _ \<Rightarrow> Return (Inr ()) | Inr nfsPV \<Rightarrow> deref (pv_ClaimRef nfsPV) (\<lambda>ref.
        bind (still_used ref) (\<lambda>used. if used then Return (Inr ()) else delete_backend poll_immediate ?vid nfsPV)))
        (?list @ ?del) (Done (Inr ()))"
      by (simp only: sum.case assms(5) deref_Some)
  qed
  with assms(1,2) show ?thesis by (simp add: exec_NodeUnpublishVolume deletes_backend_def)
qed

section \<open>The race\<close>

lemma exec_responding: "exec p tr (Done (Inr a)) \<Longrightarrow> exec (responding f p) tr (Done (Inr (f a)))"
  unfolding responding_def using exec_bindI [of p tr "Inr a" "\<lambda>r. Return (map_sum id f r)" "[]"] by (simp add: prog_simps)

lemma evolves_mode: "evolves (sets_mode p t) w w"
  by (simp add: sets_mode_def)

text \<open>
  C19: a publication and an unpublication of the same volume that run at once can both succeed and
  leave a mounted target without a backend: when the unpublication lists the pods before the new
  pod is there, and deletes the stateful set after the publication has found it, the publication
  goes on, sees the old pod still running, mounts the volume and answers with success.
\<close>

theorem unpublish_races_publish:
  assumes acc: "accepts s (Volume (Publish preq))" and ok: "ok (Volume (Publish preq))" "ok (Volume (Unpublish ureq))"
    and free: "pl_running s i = None" "pl_running s j = None" "i \<noteq> j"
    and parse: "publish_parse d preq = Inr p" and vid: "unpub_VolumeId ureq = pub_VolumeId preq"
    and tgt: "unpub_TargetPath ureq \<noteq> []"
    and pv: "find (handles_volume (pub_VolumeId preq)) (w_volumes (pl_world s)) = Some pv" "pv_CSI pv = Some csi"
      "pv_ClaimRef pv = Some ref" "param_value paramDataNamespace (csi_VolumeAttributes csi) [] = pp_dataNamespace p"
    and there: "(pp_dataNamespace p, pp_dataPVCName p) \<in> w_claims (pl_world s)"
      "(pp_dataNamespace p, pub_VolumeId preq) \<in> w_backends (pl_world s)"
  shows "\<exists>t h h'. plugin_steps a poll_immediate d ok (\<lambda>e. True) s t \<and> pl_running t = pl_running s \<and>
    pl_answers t = pl_answers s @ [(Volume (Unpublish ureq), h, Inr Empty), (Volume (Publish preq), h', Inr Empty)] \<and>
    (pp_dataNamespace p, pub_VolumeId preq) \<notin> w_backends (pl_world t) \<and> pub_TargetPath preq \<in> w_mounts (pl_world t)"
proof -
  let ?C = "\<lambda>e :: event. True" and ?pub = "Volume (Publish preq)" and ?unp = "Volume (Unpublish ureq)"
  let ?steps = "plugin_steps a poll_immediate d ok ?C"
  let ?ns = "pp_dataNamespace p" and ?vid = "pub_VolumeId preq" and ?w = "pl_world s"
  let ?A = "finds_backend p ?vid" and ?B = "mounts_volume p ?vid (pub_TargetPath preq)"
  let ?U = "deletes_backend ureq (w_volumes ?w) ref ?ns"
  let ?w1 = "rm_service (?ns, ?vid) (rm_backend (?ns, ?vid) (rm_mount (unpub_TargetPath ureq) ?w))"
  let ?w2 = "add_mount (pub_TargetPath preq) (add_service (?ns, ?vid) ?w1)"
  let ?g = "\<lambda>h q. \<lparr>go_rpc = ?pub, go_calls = h, go_rest = q\<rparr>"
  from acc have alive: "\<not> gs_fatal (pl_server s)" by (simp add: accepts_iff)
  from exec_responding [OF exec_race_publish [OF parse], of "\<lambda>_. Empty"]
  obtain q where q: "residual (handler poll_immediate d ?pub) ?A q" "exec q ?B (Done (Inr Empty))"
    by (auto simp: exec_residual)
  from parse have "?vid \<noteq> []" by (auto simp: publish_parse_def split: option.splits if_splits)
  with exec_responding [OF exec_race_unpublish [OF _ tgt, unfolded vid, OF _ pv]]
  have unp: "exec (handler poll_immediate d ?unp) ?U (Done (Inr Empty))" by simp
  let ?s1 = "begin_call poll_immediate d i ?pub s"
  let ?s2 = "s\<lparr>pl_running := (pl_running s)(i \<mapsto> ?g ?A q)\<rparr>"
  let ?s3 = "?s2\<lparr>pl_world := ?w1, pl_answers := pl_answers s @ [(?unp, ?U, Inr Empty)]\<rparr>"
  let ?s4 = "?s3\<lparr>pl_world := ?w2, pl_running := (pl_running s)(i \<mapsto> ?g (?A @ ?B) (Return (Inr Empty)))\<rparr>"
  from acc ok(1) free(1) have "plugin_step a poll_immediate d ok ?C s ?s1" by (rule call_accepted)
  moreover have "?steps ?s1 ?s2"
    using plugin_runs [of ?s1 i "?g [] (handler poll_immediate d ?pub)" ?A q ?w ?C a poll_immediate d ok] q(1) there alive
    by (simp add: begin_call_def finds_backend_def del: handler.simps)
  moreover have "?steps ?s2 ?s3"
    using plugin_serves [of ?s2 ?unp ok j poll_immediate d ?U "Inr Empty" ?w1 ?C a] acc ok(2) free unp
    by (auto simp: accepts_iff deletes_backend_def after_write_def vid ready_pod_def simp del: handler.simps)
  moreover have "evolves ?B ?w1 ?w2"
    by (simp add: mounts_volume_def evolves_append evolves_mode after_write_def ready_pod_def backend_service_def
        nfsSVCDef_def nfsMeta_def)
  then have "?steps ?s3 ?s4"
    using plugin_runs [of ?s3 i "?g ?A q" ?B "Return (Inr Empty)" ?w2 ?C a poll_immediate d ok] q(2) alive
    by (simp add: exec_ends list_all_iff)
  moreover have "plugin_step a poll_immediate d ok ?C ?s4 (answer_call i (?g (?A @ ?B) (Return (Inr Empty))) (Inr Empty) ?s4)"
    by (rule call_answered) (simp_all add: alive)
  ultimately have "?steps s (answer_call i (?g (?A @ ?B) (Return (Inr Empty))) (Inr Empty) ?s4)"
    by (meson converse_rtranclp_into_rtranclp rtranclp.rtrancl_into_rtrancl rtranclp_trans)
  moreover have "((pl_running s)(i := x))(i := None) = pl_running s" for x using free(1) by auto
  ultimately show ?thesis
    by - (rule exI [of _ "answer_call i (?g (?A @ ?B) (Return (Inr Empty))) (Inr Empty) ?s4"], rule exI [of _ ?U],
      rule exI [of _ "?A @ ?B"], simp add: answer_call_def add_mount_def)
qed

theorem unpublish_races_publish_witness:
  "\<exists>t. plugin_steps demo_args poll_immediate demo_driver demo_ok (\<lambda>e. True)
     (demo_plugin ((add_backend demo_key (add_claim demo_key empty_world))\<lparr>w_volumes := [demo_pv]\<rparr>)) t \<and>
     demo_key \<notin> w_backends (pl_world t) \<and> ''/t'' \<in> w_mounts (pl_world t)"
proof -
  let ?w = "(add_backend demo_key (add_claim demo_key empty_world))\<lparr>w_volumes := [demo_pv]\<rparr>"
  have find: "find (handles_volume (pub_VolumeId demo_publish)) (w_volumes (pl_world (demo_plugin ?w))) = Some demo_pv"
    by (simp add: demo_plugin_def start_plugin_def demo_pv_def demo_publish_def handles_volume_def)
  obtain csi ref where pv: "pv_CSI demo_pv = Some csi" "pv_ClaimRef demo_pv = Some ref" by (simp add: demo_pv_def)
  have "param_value paramDataNamespace (csi_VolumeAttributes (the (pv_CSI demo_pv))) [] = ''ns''" by code_simp
  then have ns: "param_value paramDataNamespace (csi_VolumeAttributes csi) [] = pp_dataNamespace demo_params"
    by (simp add: pv demo_params_def)
  have vid: "unpub_VolumeId demo_unpublish = pub_VolumeId demo_publish" "unpub_TargetPath demo_unpublish \<noteq> []"
    by (simp_all add: demo_unpublish_def demo_publish_def)
  have free: "pl_running (demo_plugin ?w) i = None" for i by (simp add: demo_plugin_def start_plugin_def)
  have there: "(pp_dataNamespace demo_params, pp_dataPVCName demo_params) \<in> w_claims (pl_world (demo_plugin ?w))"
    "(pp_dataNamespace demo_params, pub_VolumeId demo_publish) \<in> w_backends (pl_world (demo_plugin ?w))"
    by (simp_all add: demo_plugin_def start_plugin_def demo_params_def demo_publish_def demo_key_def add_backend_def add_claim_def)
  have ok: "demo_ok (Volume (Unpublish demo_unpublish))" by simp
  have "(0 :: nat) \<noteq> 1" by simp
  from unpublish_races_publish [of _ _ demo_ok, OF demo_plugin_accepts demo_ok_rpc ok free free this demo_parse vid find pv ns there, of demo_args]
  show ?thesis by (auto simp: demo_params_def demo_publish_def demo_key_def)
qed

end
