(* ===== verification/Plugin_Start.thy ===== *)
theory Plugin_Start
  imports Plugin_Properties
begin

text \<open>
  From the command line to the services: what the plugin that \<^verbatim>\<open>main\<close> starts serves, and where.
\<close>

lemma plugin_server_step:
  assumes "plugin_step a poll d ok C s t"
  shows "grpc_step a (pl_server s) (pl_server t) \<or> pl_server t = pl_server s \<or>
    pl_server t = (pl_server s)\<lparr>gs_fatal := True\<rparr> \<or> pl_server t = NewNonBlockingGRPCServer"
  using assms
  by cases (simp_all add: begin_call_def after_event_def answer_call_def crash_def restart_def)

lemma plugin_server_inv: "plugin_reachable a poll d ok C w0 s \<Longrightarrow> grpc_inv a (pl_server s)"
proof (induction rule: plugin_reachable.induct)
  case plugin_start
  then show ?case by (simp add: start_plugin_def grpc_inv_fresh)
next
  case (plugin_next s t)
  then show ?case
    using plugin_server_step [OF plugin_next.hyps(2)] grpc_inv_step grpc_inv_crash grpc_inv_fresh by metis
qed

lemma accepts_serving: "grpc_inv a (pl_server s) \<Longrightarrow> accepts s r \<Longrightarrow>
  gs_server (pl_server s) = Some (registered_services a) \<and> gs_serve (pl_server s) = Serving \<and>
  \<not> gs_fatal (pl_server s) \<and> gs_listener (pl_server s) = listen_address (sa_endpoint a)"
  by (auto simp: grpc_inv_def accepts_iff)

text \<open>
  C39: the plugin \<^verbatim>\<open>main\<close> starts serves all or nothing: once it accepts one RPC it accepts every RPC of
  the three services; it listens at the endpoint of the command line, a unix socket at the path made
  absolute; and it never stops by itself: no goroutine stops the server, and \<^verbatim>\<open>Run\<close> is still blocked.
\<close>

theorem started_plugin_serves:
  assumes "handle version yaml client f = Inr a" and "plugin_reachable a poll d ok C w0 s" and "accepts s r"
  shows "accepts s r' \<and> gs_listener (pl_server s) = listen_address (flag_endpoint f) \<and>
    (\<forall>path. flag_endpoint f \<noteq> ''unix://'' @ path \<or> path = [] \<or> gs_listener (pl_server s) = Some (''unix'', ''/'' @ path)) \<and>
    gs_stopper (pl_server s) = NoStopper \<and> \<not> Wait_returns (pl_server s)"
proof -
  from assms(1) have a: "a = \<lparr>sa_endpoint = flag_endpoint f, sa_ids = True, sa_cs = True, sa_ns = True, sa_testMode = False\<rparr>"
    by (auto simp: handle_def Run_def Let_def NewDriver_def AddControllerServiceCapabilities_def
        AddNodeServiceCapabilities_def driver_options_of_def split: sum.splits)
  have inv: "grpc_inv a (pl_server s)" by (rule plugin_server_inv [OF assms(2)])
  note serving = accepts_serving [OF this assms(3)]
  from inv serving a have stopper: "gs_stopper (pl_server s) = NoStopper" and wg: "gs_wg (pl_server s) = 1"
    by (auto simp: grpc_inv_def)
  have "service_of r' \<in> set (registered_services a)" by (cases r' rule: service_of.cases) (simp_all add: registered_services_def a)
  with serving stopper have "accepts s r'" by (simp add: accepts_iff)
  moreover have "listen_address (''unix://'' @ path) = Some (''unix'', ''/'' @ path)" if "path \<noteq> []" for path
    using that by (rule listen_address_unix)
  ultimately show ?thesis using serving stopper wg by (auto simp: a Wait_returns_def)
qed

section \<open>A production start\<close>

text \<open>The arguments of \<^verbatim>\<open>main\<close> for \<^verbatim>\<open>--endpoint=unix://tmp/csi.sock\<close>, and the server they bring up.\<close>

definition prod_args :: serve_args where
  "prod_args = demo_args\<lparr>sa_testMode := False\<rparr>"

definition prod_serving :: grpc_state where
  "prod_serving = (Start NewNonBlockingGRPCServer)\<lparr>gs_listener := Some (''unix'', ''/tmp/csi.sock''),
     gs_server := Some (registered_services prod_args), gs_serve := Serving\<rparr>"

lemma prod_serving_reachable: "grpc_reachable prod_args prod_serving"
proof -
  let ?s1 = "Start NewNonBlockingGRPCServer"
  let ?s2 = "?s1\<lparr>gs_serve := RemovingSocket ''/tmp/csi.sock''\<rparr>"
  let ?s3 = "?s2\<lparr>gs_serve := Listening ''unix'' ''/tmp/csi.sock''\<rparr>"
  let ?s4 = "?s3\<lparr>gs_listener := Some (''unix'', ''/tmp/csi.sock''), gs_serve := Registering\<rparr>"
  have alive: "\<not> gs_fatal ?s1" and parsing: "gs_serve ?s1 = Parsing"
    by (simp_all add: Start_def NewNonBlockingGRPCServer_def)
  have parse: "ParseEndpoint (sa_endpoint prod_args) = Inr (''unix'', ''tmp/csi.sock'')"
    using demo_parse_endpoint by (simp add: prod_args_def)
  have 1: "grpc_reachable prod_args ?s1"
    by (rule grpc_next [OF grpc_init main_start]) (simp_all add: NewNonBlockingGRPCServer_def)
  from grpc_next [OF 1 serve_parsed [OF alive parsing parse]] have 2: "grpc_reachable prod_args ?s2"
    by (simp add: serve_endpoint_def)
  have 3: "grpc_reachable prod_args ?s3"
    by (rule grpc_next [OF 2 serve_removed [of _ _ None]]) (simp_all add: alive may_go_on_def)
  have 4: "grpc_reachable prod_args ?s4"
    by (rule grpc_next [OF 3 serve_listens]) (simp_all add: alive)
  have "grpc_step prod_args ?s4 (?s4\<lparr>gs_server := Some (registered_services prod_args),
      gs_serve := (if sa_testMode prod_args then SignallingDone else Serving)\<rparr>)"
    by (rule serve_registers) (simp_all add: alive)
  from grpc_next [OF 4 this] show ?thesis by (simp add: prod_serving_def prod_args_def)
qed

theorem started_plugin_serves_witness:
  "accepts ((start_plugin empty_world)\<lparr>pl_server := prod_serving\<rparr>) NodeInfoCall \<and>
   \<not> Wait_returns prod_serving"
proof -
  let ?f = "default_flags"
  let ?s = "(start_plugin empty_world)\<lparr>pl_server := prod_serving\<rparr>"
  have "handle ''v1'' (\<lambda>_. Inr ''text'') (Inr ()) ?f = Inr prod_args" by code_simp
  moreover have "plugin_reachable prod_args poll_once demo_driver (\<lambda>_. True) (\<lambda>_. True) empty_world ?s"
    by (rule grpc_steps_plugin [OF prod_serving_reachable])
  moreover have "accepts ?s ProbeCall" by code_simp
  ultimately show ?thesis by (auto dest: started_plugin_serves)
qed

end
