(* ===== verification/Publish_Remote.thy ===== *)
theory Publish_Remote
  imports Publish_Properties
begin

text \<open>
  \<^verbatim>\<open>NodePublishVolume\<close> on a node the backend pod does not run on, through all its retries: the
  pod's volume directory cannot be read there, and the source it falls back to (the empty path) is
  not a mount point.
\<close>

fun off_node :: "event \<Rightarrow> bool" where
  "off_node (EReadDir d (ds, err)) = (err \<noteq> None)"
| "off_node (EMountQuery (IsNotMountPoint s) (b, err)) = b"
| "off_node e = True"

text \<open>No mode is changed unless something before showed the pod to be on this node.\<close>

fun mode_guard :: "event list \<Rightarrow> event \<Rightarrow> bool" where
  "mode_guard h (EAct (Chmod t m) r) = (\<not> list_all off_node h)"
| "mode_guard h e = True"

fun no_chmod :: "event \<Rightarrow> bool" where
  "no_chmod (EAct (Chmod t m) r) = False"
| "no_chmod e = True"

lemma no_chmod_guard: "no_chmod e \<Longrightarrow> mode_guard h e"
  by (cases "(h, e)" rule: mode_guard.cases) simp_all

lemma guarded_on_node: "\<not> list_all off_node h \<Longrightarrow> guarded mode_guard p h"
proof (induction p arbitrary: h)
  case (Act c k)
  then show ?case by (cases c) simp_all
qed simp_all

lemma no_chmod_pod_read: "is_pod_read e \<Longrightarrow> no_chmod e"
  by (cases e rule: is_pod_read.cases) simp_all

lemma no_chmod_tcp_probe: "is_tcp_probe e \<Longrightarrow> no_chmod e"
  by (cases e rule: is_tcp_probe.cases) simp_all

lemma emits_no_chmod:
  "emits no_chmod (require_data_pvc ns n)" "emits no_chmod (ensure_statefulset ns n sts)"
  "emits no_chmod (prepare_target t w)" "emits no_chmod (ensure_service ns n svc)"
  by (auto simp: require_data_pvc_def ensure_statefulset_def prepare_target_def ensure_service_def
      intro!: emits_intros split: option.split)

lemma wait_backend_no_chmod: "poll_contract poll \<Longrightarrow> emits no_chmod (wait_backend_pod poll ns n)"
  unfolding wait_backend_pod_def waitForPodRunning_def
  by (auto intro!: emits_intros running.wait_emits no_chmod_pod_read split: option.split)

lemma mount_remote_no_chmod: "poll_contract poll \<Longrightarrow> emits no_chmod (mount_remote poll ns n svc t opts)"
  unfolding mount_remote_def waitForTcpReady_def Let_def
  by (auto intro!: emits_intros emits_no_chmod reachable.wait_emits no_chmod_tcp_probe split: option.split)

lemma guard_mount_volume:
  assumes "poll_contract poll"
  shows "guarded mode_guard (mount_volume poll vid t p uid podUID) h"
proof -
  have remote: "guarded mode_guard (attempt (mount_remote poll ns n svc t opts) (\<lambda>_. finish_publish t w (Some e))) h'"
    for ns n svc opts w e h'
    by (rule guarded_emits [where P = no_chmod, OF emits_attempt [OF mount_remote_no_chmod [OF assms]] no_chmod_guard])
      (simp add: finish_publish_def)
  show ?thesis
    unfolding mount_volume_def find_source_def Let_def
    by (auto simp: remote intro: guarded_on_node split: option.split)
qed

lemma guard_publish:
  assumes "poll_contract poll"
  shows "guarded mode_guard (NodePublishVolume poll drv req) []"
proof -
  have quiet: "guarded mode_guard q h" if "emits no_chmod q" for q :: "(status + 'a) prog" and h
    using that by (rule guarded_emits) (rule no_chmod_guard)
  have "guarded mode_guard (publish_volume poll vid t p) h" for vid t p h
    unfolding publish_volume_def
    by (intro guarded_attempt) (simp_all add: quiet emits_no_chmod wait_backend_no_chmod [OF assms] guard_mount_volume [OF assms])
  then show ?thesis by (simp add: NodePublishVolume_def split: sum.split)
qed

lemma off_node_mount_fails:
  assumes "exec (mount_volume poll vid t p uid podUID) tr (Done r)" and "list_all off_node tr"
  shows "r \<noteq> Inr u"
proof
  assume r: "r = Inr u"
  from assms(1) obtain root ds derr source b x rest where
    tr: "tr = EGetenv ''KUBELET_ROOT'' root # EReadDir (podVolumesDir root podUID) (ds, derr) #
       EMountQuery (IsNotMountPoint source) (b, x) # rest"
    and rest: "if b then exec (attempt (mount_remote poll (pp_dataNamespace p) vid
              (nfsSVCDef vid (pp_dataPVCName p) uid) t (pp_mountOptions p))
            (\<lambda>_. finish_publish t (pp_mountPermissions p) derr)) rest (Done r)
         else exec (bind (mount_local source t (pp_appPodNamespace p) (pp_appPodName p))
            (finish_publish t (pp_mountPermissions p))) rest (Done r)"
    by (rule mount_volume_Done)
  from assms(2) tr have b and "derr \<noteq> None" by simp_all
  with rest r show False by (auto simp: exec_attempt_Inr finish_publish_Inr)
qed

text \<open>
  C16: on a node the backend pod does not run on, \<^verbatim>\<open>NodePublishVolume\<close> never applies the mount
  permissions, in the first call or in any retry, and answers with success only when the target was
  a mount point before the call: the first call mounts the volume and fails, a retry finds it
  mounted and succeeds without touching it.
\<close>

theorem off_node_publish:
  assumes "poll_contract poll" and "exec (NodePublishVolume poll drv req) tr out" and "list_all off_node tr"
  shows "EAct (Chmod t m) x \<notin> set tr \<and>
    (out = Done (Inr ()) \<longrightarrow> EMountQuery (IsLikelyNotMountPoint (pub_TargetPath req)) (False, None) \<in> set tr)"
proof (intro conjI impI)
  show "EAct (Chmod t m) x \<notin> set tr"
  proof
    assume "EAct (Chmod t m) x \<in> set tr"
    then obtain tr1 tr2 where tr: "tr = tr1 @ EAct (Chmod t m) x # tr2" by (blast dest: split_list)
    with guardedD [OF guard_publish [OF assms(1)]] assms(2,3) show False by fastforce
  qed
next
  assume "out = Done (Inr ())"
  with assms(2) obtain p where "exec (publish_volume poll (pub_VolumeId req) (pub_TargetPath req) p) tr (Done (Inr ()))"
    by (auto simp: NodePublishVolume_def prog_simps split: sum.splits)
  then obtain tr1 tr2 tr3 tr4 tr5 uid podUID notMnt where tr: "tr = tr1 @ tr2 @ tr3 @ tr4 @ tr5"
    and prep: "exec (prepare_target (pub_TargetPath req) (pp_mountPermissions p)) tr4 (Done (Inr notMnt))"
    and rest: "if notMnt then exec (mount_volume poll (pub_VolumeId req) (pub_TargetPath req) p uid podUID) tr5 (Done (Inr ())) else tr5 = []"
    by (rule publish_volume_Inr)
  from rest off_node_mount_fails assms(3) tr have "\<not> notMnt" by fastforce
  with prep have "tr4 = [EMountQuery (IsLikelyNotMountPoint (pub_TargetPath req)) (False, None)]"
    by (auto simp: prepare_target_def prog_simps split: option.splits if_splits) (metis option.exhaust)
  then show "EMountQuery (IsLikelyNotMountPoint (pub_TargetPath req)) (False, None) \<in> set tr" by (simp add: tr)
qed

text \<open>A first call and its retry.\<close>

theorem off_node_publish_witness:
  "fst (demo_run other_node (NodePublishVolume poll_once demo_driver demo_publish)) \<noteq> Done (Inr ()) \<and>
   EAct (Chmod ''/t'' 511) None \<notin> set (demo_publish_trace (other_node\<lparr>cl_mounted := True\<rparr>))"
proof -
  let ?out = "\<lambda>c. fst (demo_run c (NodePublishVolume poll_once demo_driver demo_publish))"
  have ex: "exec (NodePublishVolume poll_once demo_driver demo_publish) (demo_publish_trace c) (?out c)" for c
    by (rule demo_publish_exec) (rule refl)
  let ?mounted = "EMountQuery (IsLikelyNotMountPoint (pub_TargetPath demo_publish)) (False, None)"
  have first: "list_all (\<lambda>e. off_node e \<and> e \<noteq> ?mounted) (demo_publish_trace other_node)" by code_simp
  then have off: "list_all off_node (demo_publish_trace other_node)" by (simp add: list_all_iff)
  have retry: "list_all off_node (demo_publish_trace (other_node\<lparr>cl_mounted := True\<rparr>))" by code_simp
  from first have "?mounted \<notin> set (demo_publish_trace other_node)" by (auto simp: list_all_iff)
  with off_node_publish [OF poll_once_contract ex off, of "''/t''" 511 None]
    off_node_publish [OF poll_once_contract ex retry, of "''/t''" 511 None] show ?thesis by blast
qed

end
