(* ===== verification/Publish_Modes.thy ===== *)
theory Publish_Modes
  imports Publish_Objects Publish_Inputs
begin

text \<open>
  The mount permissions from their text to the mode of the \<^verbatim>\<open>chmod\<close> call, with the three widths they
  pass through: the 32 bits \<^verbatim>\<open>ParseUint\<close> is asked for, the \<^verbatim>\<open>uint64\<close> they are kept in, and the 32
  bits of \<^verbatim>\<open>os.FileMode\<close>.
\<close>

text \<open>The octal numeral of a number.\<close>

fun octal :: "nat \<Rightarrow> string" where
  "octal n = (if n < 8 then [char_of (48 + n)] else octal (n div 8) @ [char_of (48 + n mod 8)])"

declare octal.simps [simp del]

lemma octal_digit_char: "d < 8 \<Longrightarrow> octal_digit (char_of (48 + d)) = Some d"
  by (simp add: octal_digit_def Let_def)

lemma octal_value_snoc: "octal_value (s @ [c]) = octal_value s * 8 + (case octal_digit c of None \<Rightarrow> 0 | Some d \<Rightarrow> d)"
  by (induction s) (simp_all add: algebra_simps)

lemma octal_numeral: "is_octal (octal n) \<and> octal_value (octal n) = n"
proof (induction n rule: octal.induct)
  case (1 n)
  then show ?case
    by (cases "n < 8") (simp_all add: octal.simps [of n] octal_digit_char is_octal_def octal_value_snoc)
qed

lemma parse_octal: "ParseUint_8_32 (octal n) = Inr (of_nat n) \<longleftrightarrow> n < 2 ^ 32"
  by (simp add: ParseUint_8_32_Inr octal_numeral)

lemma parse_octal_large: "\<not> n < 2 ^ 32 \<Longrightarrow> \<exists>e. ParseUint_8_32 (octal n) = Inl e"
  by (cases "ParseUint_8_32 (octal n)") (simp_all add: ParseUint_8_32_Inr octal_numeral)

text \<open>The modes \<^verbatim>\<open>chmod\<close> can be called with at the end of a publication that mounted.\<close>

definition chmod_modes :: "string \<Rightarrow> 64 word \<Rightarrow> nat set" where
  "chmod_modes t w = {unat m | m tr r out. exec (finish_publish t w None) tr out \<and> EAct (Chmod t m) r \<in> set tr}"

lemma chmod_modes_eq: "chmod_modes t w = (if 0 < w then {unat w mod 2 ^ 32} else {})"
  using chmod_mode_truncated [of t w] by (simp add: chmod_modes_def)

lemma unat_64: "n < 2 ^ 32 \<Longrightarrow> unat (of_nat n :: 64 word) = n"
  by (simp add: unat_of_nat)

text \<open>
  C28: mount permissions written in octal in the volume context are accepted exactly when they fit 32
  bits, and reach \<^verbatim>\<open>chmod\<close> unchanged (no call for 0); those of the command line, which has 64 bits
  for them, reach it modulo 2^32, so that 2^32 makes the target inaccessible (mode 0).
\<close>

theorem mount_permissions_exact:
  "publish_step ''mountPermissions'' (octal n) p =
     (if n < 2 ^ 32 then Inr (p\<lparr>pp_mountPermissions := of_nat n\<rparr>)
      else Inl (Status InvalidArgument (Fmt (''invalid mountPermissions '' @ octal n) []))) \<and>
   chmod_modes t (of_nat (n mod 2 ^ 32)) = (if n mod 2 ^ 32 = 0 then {} else {n mod 2 ^ 32}) \<and>
   chmod_modes t w = (if w = 0 then {} else {unat w mod 2 ^ 32}) \<and> chmod_modes t (2 ^ 32) = {0}"
proof (intro conjI)
  have key: "to_lower ''mountPermissions'' = mountPermissionsField" by code_simp
  have other: "mountPermissionsField \<notin> {podNameKey, podNamespaceKey, paramDataVolumeClaim, paramDataNamespace,
      paramNfsServerImage, paramNfsHostsAllow, mountOptionsField}" by code_simp
  have "octal n \<noteq> []" using octal_numeral [of n] by (auto simp: is_octal_def)
  with key other parse_octal [of n] parse_octal_large [of n] show "publish_step ''mountPermissions'' (octal n) p =
     (if n < 2 ^ 32 then Inr (p\<lparr>pp_mountPermissions := of_nat n\<rparr>)
      else Inl (Status InvalidArgument (Fmt (''invalid mountPermissions '' @ octal n) [])))"
    by (auto simp: publish_step_def Let_def)
next
  let ?k = "n mod 2 ^ 32"
  have k: "unat (of_nat ?k :: 64 word) = ?k" by (rule unat_64) simp
  have "0 < (of_nat ?k :: 64 word) \<longleftrightarrow> ?k \<noteq> 0" by (auto simp only: word_gt_0 word_unat_eq_iff k unat_0)
  with k show "chmod_modes t (of_nat ?k) = (if ?k = 0 then {} else {?k})" by (simp add: chmod_modes_eq)
next
  show "chmod_modes t w = (if w = 0 then {} else {unat w mod 2 ^ 32})" by (simp add: chmod_modes_eq word_gt_0)
next
  show "chmod_modes t (2 ^ 32) = {0}" by (simp add: chmod_modes_eq)
qed

end
