(* ===== verification/Map_Order.thy ===== *)
theory Map_Order
  imports Publish_Inputs Unpublish_Properties
begin





end
