(* ===== verification/Spec2Isabelle.thy ===== *)
theory Spec2Isabelle
  imports Volume_Lifecycle Retries Backend_Safety Healthy_Runs Written_Objects Helper_Properties Plugin_Races Plugin_Start
    Publish_Remote Publish_Modes Map_Order
begin

text \<open>
  A model of the CSI driver \<^verbatim>\<open>csi-driver-nfs-export\<close> (the Go code of \<^verbatim>\<open>src/pkg/nfsexport\<close> and
  \<^verbatim>\<open>src/cmd/nfsexportplugin\<close>) and the theorems that say what it does and where it goes wrong.

  \<^bold>\<open>The program.\<close>  The driver gives pods a volume that many nodes can write by exporting a
  single-node volume over NFS.  \<^verbatim>\<open>CreateVolume\<close> (controller service) creates a backend "data" claim;
  \<^verbatim>\<open>NodePublishVolume\<close> (node service) creates a stateful set that mounts the claim and runs an NFS
  server, waits for its pod, and then either bind-mounts the pod's volume, when it finds it on its
  own node, or creates a service and mounts it over NFS; \<^verbatim>\<open>NodeUnpublishVolume\<close> unmounts and, when no
  pod uses the volume any more, deletes set and service; \<^verbatim>\<open>DeleteVolume\<close> is meant to delete the data
  claim.  An identity service, statistics, the gRPC server around the three services, a set of
  volume locks, version information and the command complete it.

  \<^bold>\<open>How effects are modelled.\<close>  Everything outside the driver's own code (the API server, the
  mounter, the operating system, the TCP probe) is a call the environment answers.  A handler is a
  value of type \<open>'a prog\<close> (theory Effects): the tree of its calls, branching on the answers, with
  \<open>Panic\<close> for a nil dereference.  \<open>exec p tr out\<close> says that \<open>p\<close> can leave the trace \<open>tr\<close> of calls with
  their answers and end in \<open>out\<close>, for arbitrary answers; nothing is assumed of them unless a
  property says so.  Programs are finite trees, so each run ends; the only loops over time are the
  polls, where \<^verbatim>\<open>wait.PollImmediate\<close> is a parameter with its documented contract
  (\<open>poll_contract\<close>, met by \<open>poll_immediate\<close>, one check at once and one per elapsed interval; its fuel is
  the timeout divided by the interval).  \<open>emits\<close> bounds the calls a program can make, \<open>guarded\<close> says
  what must have happened before a call, \<open>panic_free\<close> excludes panics under a contract, \<open>ignores\<close>
  says which answers cannot matter; each is a recursive predicate on programs shown equivalent to,
  or sound for, the runs.  \<open>within\<close> bounds the number of calls and \<open>always\<close> says what every run ends
  with under a contract.  \<open>run\<close> executes a program against a concrete environment.

  \<^bold>\<open>The abstract specification.\<close>  Cluster_Spec has the world the driver works on (the claims,
  stateful sets, services and mounts that exist, and the volumes), the documented effect of each
  call on it (\<open>effect\<close>: reads tell the truth, successful writes take place, failed ones may have),
  and triples \<open>achieves w p Q\<close> with a rule per call.  Cluster_Refinement states the atomic step of
  each RPC (\<open>step_spec\<close>) and proves that the handlers make no other; Cluster_System lifts this to
  any environment whose state stands for a world and whose answers are true of it (\<open>truthful\<close>, met
  by \<open>store_env\<close>), and to sequences of RPCs; Concurrent_Calls interleaves the calls of any number
  of RPCs, as the server's goroutines do, with the changes of users, provisioner and other nodes' plugins
  in between (\<open>outside\<close>).

  \<^bold>\<open>The plugin as a whole.\<close>  Server_System puts the parts together: the server's goroutines of
  Grpc_Server, every RPC of the three services with its handler, and the world.  A call is accepted
  while the server serves and its service is registered, its goroutine makes one call at a time
  (\<open>prog_step\<close> of Small_Steps) among those of the others, and it ends in an answer or a panic; a
  panic, like a fatal error, ends the process, and the process may be killed and start again at any
  time, its goroutines lost and the world as they left it.  \<open>serving_inv\<close>, which needs no assumption,
  is the server's own invariant and says of each goroutine that it is somewhere in a run of its
  handler (\<open>residual\<close>) and of each answer that it ends one; \<open>plugin_inv\<close> adds the world's: the claims
  the calls have shown are still there, and the volumes of a set \<open>V\<close>, those only published with the
  claim of their own name, have their claims while they have a backend.  The predicates on requests and on answers are parameters
  of the step relation, so that a property names what it needs of orchestrator and client.

  \<^bold>\<open>The deployment.\<close>  Deployment runs one such plugin per node and one for the controller, each with
  its own arguments, configuration, requests and mounts, on one cluster (\<open>deployed\<close>): what a plugin's
  step makes of the cluster all others see.  The invariants of the plugins hold together there, so
  that none assumes of the others more than what is proved of them; the \<open>outside\<close> changes left are
  those of users and the provisioner (who delete no claim: the cluster's own protection of claims in
  use is not modelled).

  Go maps are association lists in the order \<^verbatim>\<open>range\<close> visits them; theory Param_Scan has the scan
  all handlers read their parameters with, and two locales: \<open>param_scan\<close> (steps on different keys
  commute, so the order does not matter) and \<open>param_field\<close> (what a field holds afterwards),
  interpreted on the steps of \<^verbatim>\<open>NodePublishVolume\<close> and \<^verbatim>\<open>CreateVolume\<close>.  Errors are \<open>go_error\<close>
  values, handler failures the left of a sum with the gRPC status.  \<^verbatim>\<open>uint64\<close>, \<^verbatim>\<open>int64\<close> and
  \<^verbatim>\<open>os.FileMode\<close> are words of 64, 64 and 32 bits.

  \<^bold>\<open>Theories.\<close>
  \<^item> Prelude, Go_Strings, Kube_Types: shared Go values, the string and number routines of Go's
    library the code calls, the Kubernetes objects with the fields the code names.
  \<^item> Effects: programs, traces and the predicates on them.
  \<^item> K8utils (\<^verbatim>\<open>k8utils.go\<close>): pod and TCP conditions, waits, searches; the locale \<open>polled_condition\<close>
    is the contract of a condition, interpreted on the three of the code.
  \<^item> Volume_Locks (\<^verbatim>\<open>VolumeLocks\<close> of \<^verbatim>\<open>utils.go\<close>): locale \<open>try_lock\<close>, goroutines as a step relation.
  \<^item> Driver (\<^verbatim>\<open>nfsexport.go\<close>), Utils (rest of \<^verbatim>\<open>utils.go\<close>), Helper_Properties (their properties).
  \<^item> Node_Publish (\<^verbatim>\<open>NodePublishVolume\<close> of \<^verbatim>\<open>nodeserver.go\<close>, one definition per phase of the body, in
    its order); Publish_Correct (runs and guards of each phase, the specification \<open>publish_permits\<close> of
    its effects), Publish_Safety (the handler as a whole), Publish_Runs (runs taken apart),
    Publish_Properties, Publish_Inputs, Publish_Outcomes, Publish_Objects (the properties).
  \<^item> Get_Or_Create: the locale of the read-or-create idiom, interpreted on the stateful set, the
    service and (in Controller_Properties) the data claim.
  \<^item> Controller_Server (\<^verbatim>\<open>controllerserver.go\<close>) and Controller_Properties.
  \<^item> Node_Unpublish and Unpublish_Properties (\<^verbatim>\<open>NodeUnpublishVolume\<close>, with its specification
    \<open>unpublish_permits\<close>).
  \<^item> Node_Info (statistics and the small node calls), Identity_Server (\<^verbatim>\<open>identityserver.go\<close>),
    Version_Info (\<^verbatim>\<open>version.go\<close>), Grpc_Server (\<^verbatim>\<open>server.go\<close> and \<^verbatim>\<open>Driver.Run\<close>: three goroutines over
    the wait group and the server pointer, as a step relation with an invariant), Plugin_Main
    (\<^verbatim>\<open>main.go\<close>).
  \<^item> Volume_Lifecycle: properties across the services.
  \<^item> Cluster_Spec, Cluster_Refinement, Cluster_System, Life_Cycle, Concurrent_Calls: the abstract
    specification, its refinement, sequences of RPCs, the life of a volume, interleavings of RPCs.
  \<^item> Retries: delivery at least once.  Worlds are ordered by inclusion (an instance of the library's
    \<open>order\<close>); the locale \<open>absorbing\<close> (a success absorbs the attempts before it) is interpreted on
    the atomic steps, and attempts may be cut short between any two calls.
  \<^item> Small_Steps: programs one call at a time.  Server_System, Plugin_Properties, Plugin_Races: the
    plugin as a whole, its properties, and a race between unpublishing and publishing.  Plugin_Start:
    what the plugin started from the command line serves, and where it listens.  Deployment and
    Backend_Safety: the plugins of all nodes on one cluster, and who takes a backend away.
  \<^item> Publish_Remote: publishing on a node the backend does not run on, through its retries.
    Publish_Modes: the mount permissions from text to mode.  Map_Order: independence of map orders.
  \<^item> Call_Bounds: how many calls each handler makes, and termination; the waits are bounded by the
    checks the poller makes in its timeout (\<open>polls_within\<close>), 301 and 61 for \<open>poll_immediate\<close>.
  \<^item> Healthy_Runs: success against a healthy cluster, of publishing on the node that hosts the
    backend pod.  Written_Objects: the shape of every object
    written.
  \<^item> Scenario: a small cluster, the environment of the concrete instances beside the properties.

  \<^bold>\<open>What the theorems show.\<close>  Safety of effects (what each handler may change and what must have
  been seen before), the meaning of each answer, the exact set of rejected requests, independence
  of Go's map order where keys differ in more than case, absence of panics under the client's contract, the fit of the created
  objects, round trips between the services, termination within a number of calls, success against
  a healthy cluster, the refinement of atomic steps on the world, that RPCs may be retried through
  crashes and act once, the invariants of one plugin and of all of them together under every
  interleaving, crash and restart, that a backend is taken away only when no pod was seen to use it,
  that the claims of answered volumes stay and calls can always finish, and the behaviour of the locks and
  the server's goroutines.  Several theorems state
  defects of the code as it is: an NFS mount whose error is lost, a directory error that fails a good
  mount and keeps the permissions from ever being applied on other nodes, a data claim that is never
  deleted, a backend deleted on a failed listing or under a publication, a wait for the wrong state, a
  search that returns a wrong claim, a panic on an unbound volume that takes every call in flight
  with it, a truncated file mode and one whose special bits are lost, a concurrent creation answered with an error.

  \<^bold>\<open>Not modelled.\<close>  Log lines (except those of the interceptor), contexts and deadlines, the transport of
  requests, the internals of client-go, the gRPC library and the kernel, the exporter's shell
  scripts, the Helm chart and the tests.  Case folding is that of ASCII text.
  Of a file mode \<^verbatim>\<open>os.Chmod\<close> is modelled by the bits it passes on (\<open>syscallMode\<close>); what the kernel makes
  of a mode beyond the permission bits is not.
\<close>

end
